(* ===== verification/Prelude.thy ===== *)
theory Prelude
  imports "HOL-Library.Word" "HOL-Library.Multiset" "HOL-Library.List_Lexorder" "HOL-Library.Char_ord"
begin

text \<open>
  Shared vocabulary of the development: the machine types of the Go sources, the error
  values of net/error.go, the life-cycle constants of net/const.go, the collections of
  simplification rules the component theories fill, and generic lemmas on words, maps and
  lists that several components use.
\<close>

unbundle bit_operations_syntax

section \<open>Types of the program\<close>

type_synonym byte = "8 word"
type_synonym uint32 = "32 word"
type_synonym int64 = "64 word"

text \<open>A Go string is a sequence of bytes; \<open><\<close> on strings is bytewise lexicographic, which is
  the order \<open>string\<close> has here (List_Lexorder over Char_ord).\<close>

type_synonym node_id = string

text \<open>A network connection (net.Conn) is known by its identity only.\<close>

type_synonym conn = nat

section \<open>Errors\<close>

text \<open>The sentinel errors of net/error.go, and the ways the code makes other errors:
  \<open>errors.New\<close> and \<open>fmt.Errorf\<close> (\<open>ErrText\<close>, the text and the formatted numbers),
  \<open>pkgerrors.WithMessage\<close> (\<open>WithMessage\<close>), and errors that come from outside
  (\<open>ExtErr\<close>: the network, the dialer, the listener, the user's handler).\<close>

datatype gerror =
    ErrServiceNotStarted
  | ErrServiceStarted
  | ErrServiceClosed
  | ErrSessionNotStarted
  | ErrSessionStarted
  | ErrSessionClosed
  | ErrInactiveClosed
  | ErrPacketLengthOverflow
  | ErrPendingPacketsFull
  | ErrConnectRemote
  | ErrRequestHandshake
  | ErrReplyHandshake
  | ErrReadHandshakeResp
  | ErrHandshakeRejected
  | ErrRemoteIdOrTokenWrong
  | ErrActiveHandshakeEarlier
  | ErrPassiveHandshakeEarlier
  | ErrText string "int list"
  | WithMessage gerror string
  | ExtErr nat

text \<open>What running a piece of code can come to: a value, a panic (with its message), or a
  goroutine that waits (a mutex that is held, a channel with nothing to receive) and has not
  changed anything yet.\<close>

datatype 'a outcome = Normal 'a | Panic string | Blocked

fun obind :: "'a outcome \<Rightarrow> ('a \<Rightarrow> 'b outcome) \<Rightarrow> 'b outcome" where
  "obind (Normal x) f = f x"
| "obind (Panic m) f = Panic m"
| "obind Blocked f = Blocked"

fun is_panic :: "'a outcome \<Rightarrow> bool" where
  "is_panic (Panic _) = True"
| "is_panic _ = False"

lemma obind_Normal_iff [simp]:
  "obind m f = Normal y \<longleftrightarrow> (\<exists>x. m = Normal x \<and> f x = Normal y)"
  by (cases m) auto

lemma obind_assoc: "obind (obind m f) g = obind m (\<lambda>x. obind (f x) g)"
  by (cases m) auto

lemma is_panic_obind:
  "is_panic (obind m f) \<longleftrightarrow> is_panic m \<or> (\<exists>x. m = Normal x \<and> is_panic (f x))"
  by (cases m) auto

section \<open>Life-cycle states\<close>

definition stateInit :: int where
  "stateInit = 0"

definition stateStarted :: int where
  "stateStarted = 1"

definition stateClosed :: int where
  "stateClosed = 2"

named_theorems state_simps \<open>the life-cycle constants and that they differ\<close>

lemma state_values [state_simps]:
  "stateInit = 0" "stateStarted = 1" "stateClosed = 2"
  by (simp_all add: stateInit_def stateStarted_def stateClosed_def)

section \<open>Signed 64-bit integers\<close>

definition i64_less :: "int64 \<Rightarrow> int64 \<Rightarrow> bool" where
  "i64_less a b \<longleftrightarrow> sint a < sint b"

definition i64_le :: "int64 \<Rightarrow> int64 \<Rightarrow> bool" where
  "i64_le a b \<longleftrightarrow> sint a \<le> sint b"

named_theorems i64_simps \<open>signed comparison of 64-bit integers\<close>

declare i64_less_def [i64_simps] i64_le_def [i64_simps]

lemma sint_bounds64: "- (2 ^ 63) \<le> sint (w :: int64)" "sint (w :: int64) < 2 ^ 63"
  using sint_ge [of w] sint_lt [of w] by simp_all

text \<open>Addition and subtraction are exact as long as the mathematical result fits.\<close>

lemma sint_add64:
  fixes a b :: int64
  assumes "- (2 ^ 63) \<le> sint a + sint b" and "sint a + sint b < 2 ^ 63"
  shows "sint (a + b) = sint a + sint b"
  using assms by (simp add: sint_word_ariths signed_take_bit_int_eq_self)

lemma sint_diff64:
  fixes a b :: int64
  assumes "- (2 ^ 63) \<le> sint a - sint b" and "sint a - sint b < 2 ^ 63"
  shows "sint (a - b) = sint a - sint b"
  using assms by (simp add: sint_word_ariths signed_take_bit_int_eq_self)

lemma sint_diff64_nonneg:
  fixes a b :: int64
  assumes "0 \<le> sint a" and "0 \<le> sint b"
  shows "sint (a - b) = sint a - sint b"
  using assms sint_bounds64 [of a] sint_bounds64 [of b] by (intro sint_diff64) linarith+

section \<open>Chains of checks\<close>

text \<open>A Go function of the shape \<open>if bad { return err }; ..\<close>: it reports no error exactly if the
  check does not fire and the rest reports none.\<close>

named_theorems check_simps \<open>the result of a chain of early returns\<close>

lemma snd_if_Some [check_simps]:
  "snd (if b then (x, Some e) else r) = None \<longleftrightarrow> \<not> b \<and> snd r = None"
  by simp

lemma fst_if_Some [check_simps]:
  "snd (if b then (x, Some e) else r) = None \<Longrightarrow>
     fst (if b then (x, Some e) else r) = fst r"
  by (simp split: if_splits)

end
