(* ===== verification/Establishment.thy ===== *)
theory Establishment
  imports Prelude
begin

text \<open>
  The bookkeeping of a session that is being set up (net/service_establish.go, from line 586):
  one record per direction (\<open>establishing\<close>) and the record per remote node that holds both
  (\<open>establishment\<close>). Each Go method on the pointer receiver becomes a function that returns
  the new record, with the method's result first where it has one.
\<close>

section \<open>One direction: establishing\<close>

definition establishConnect :: int where "establishConnect = 1"
definition establishHandshake :: int where "establishHandshake = 2"
definition establishAboutSuccess :: int where "establishAboutSuccess = 3"
definition establishSuccess :: int where "establishSuccess = 4"
definition establishFail :: int where "establishFail = 5"

lemmas [state_simps] =
  establishConnect_def establishHandshake_def establishAboutSuccess_def establishSuccess_def
  establishFail_def

record establishing =
  ing_state :: int
  ing_startTime :: int
  ing_conn :: "conn option"
  ing_err :: "gerror option"

text \<open>The zero value \<open>&establishing{}\<close>.\<close>

definition new_establishing :: establishing where
  "new_establishing = \<lparr>ing_state = 0, ing_startTime = 0, ing_conn = None, ing_err = None\<rparr>"

definition ing_changeState :: "int \<Rightarrow> establishing \<Rightarrow> bool \<times> establishing" where
  "ing_changeState st es =
     (if st \<le> ing_state es then (False, es) else (True, es\<lparr>ing_state := st\<rparr>))"

definition ing_isStarted :: "establishing \<Rightarrow> bool" where
  "ing_isStarted es \<longleftrightarrow> ing_state es > 0"

definition ing_isSuccess :: "establishing \<Rightarrow> bool" where
  "ing_isSuccess es \<longleftrightarrow> ing_state es = establishSuccess"

definition ing_isFail :: "establishing \<Rightarrow> bool" where
  "ing_isFail es \<longleftrightarrow> ing_state es = establishFail"

definition ing_isEnd :: "establishing \<Rightarrow> bool" where
  "ing_isEnd es \<longleftrightarrow> ing_state es > establishAboutSuccess"

definition ing_isEstablishing :: "establishing \<Rightarrow> bool" where
  "ing_isEstablishing es \<longleftrightarrow> ing_isStarted es \<and> \<not> ing_isEnd es"

definition ing_success :: "conn \<Rightarrow> establishing \<Rightarrow> bool \<times> establishing" where
  "ing_success c es =
     (let (ok, es') = ing_changeState establishSuccess es in
      if \<not> ok then (False, es') else (True, es'\<lparr>ing_conn := Some c\<rparr>))"

definition ing_fail :: "gerror \<Rightarrow> establishing \<Rightarrow> bool \<times> establishing" where
  "ing_fail e es =
     (let (ok, es') = ing_changeState establishFail es in
      if \<not> ok then (False, es') else (True, es'\<lparr>ing_err := Some e\<rparr>))"

section \<open>Both directions: establishment\<close>

definition establishmentStarted :: int where "establishmentStarted = 1"
definition establishmentEnd :: int where "establishmentEnd = 2"

lemmas [state_simps] = establishmentStarted_def establishmentEnd_def

text \<open>A value of interface type \<open>Session\<close>: the local session of the service or a session
  object, known by its address.\<close>

datatype sref = SLocal | SRemote nat

text \<open>\<open>em_locked\<close> is whether \<open>mutex\<close> is held between two steps of a goroutine (most critical
  sections are one step), \<open>em_chEnd\<close> whether the channel \<open>chEnd\<close> has been closed; closing it
  twice panics.\<close>

record establishment =
  em_remoteNodeId :: node_id
  em_locked :: bool
  em_state :: int
  em_active :: "establishing option"
  em_passive :: "establishing option"
  em_session :: "sref option"
  em_err :: "gerror option"
  em_chEnd :: bool

definition new_establishment :: "node_id \<Rightarrow> establishment" where
  "new_establishment rid =
     \<lparr>em_remoteNodeId = rid, em_locked = False, em_state = 0, em_active = None, em_passive = None,
      em_session = None, em_err = None, em_chEnd = False\<rparr>"

definition em_changeState :: "int \<Rightarrow> establishment \<Rightarrow> bool \<times> establishment" where
  "em_changeState st es =
     (if st \<le> em_state es then (False, es) else (True, es\<lparr>em_state := st\<rparr>))"

definition em_isEnd :: "establishment \<Rightarrow> bool" where
  "em_isEnd es \<longleftrightarrow> em_state es = establishmentEnd"

definition em_end :: "sref option \<Rightarrow> gerror option \<Rightarrow> establishment \<Rightarrow> establishment outcome" where
  "em_end session err es =
     (let (ok, es') = em_changeState establishmentEnd es in
      if \<not> ok then Normal es'
      else if em_chEnd es' then Panic ''close of closed channel''
      else Normal (es'\<lparr>em_session := session, em_err := err, em_chEnd := True\<rparr>))"

text \<open>\<open>wait\<close> returns once \<open>chEnd\<close> is closed; until then it blocks.\<close>

definition em_wait :: "establishment \<Rightarrow> (sref option \<times> gerror option) outcome" where
  "em_wait es = (if em_chEnd es then Normal (em_session es, em_err es) else Blocked)"

subsection \<open>The active direction\<close>

definition em_activeState :: "establishment \<Rightarrow> int" where
  "em_activeState es = (case em_active es of None \<Rightarrow> 0 | Some a \<Rightarrow> ing_state a)"

definition em_isActiveStarted :: "establishment \<Rightarrow> bool" where
  "em_isActiveStarted es = (case em_active es of None \<Rightarrow> False | Some a \<Rightarrow> ing_isStarted a)"

definition em_isActiveEstablishing :: "establishment \<Rightarrow> bool" where
  "em_isActiveEstablishing es = (case em_active es of None \<Rightarrow> False | Some a \<Rightarrow> ing_isEstablishing a)"

definition em_isActiveSuccess :: "establishment \<Rightarrow> bool" where
  "em_isActiveSuccess es = (case em_active es of None \<Rightarrow> False | Some a \<Rightarrow> ing_isSuccess a)"

definition em_isActiveFail :: "establishment \<Rightarrow> bool" where
  "em_isActiveFail es = (case em_active es of None \<Rightarrow> False | Some a \<Rightarrow> ing_isFail a)"

definition em_startActiveHandshake :: "establishment \<Rightarrow> bool \<times> establishment" where
  "em_startActiveHandshake es =
     (if em_isEnd es then (False, es)
      else case em_active es of None \<Rightarrow> (False, es)
        | Some a \<Rightarrow> (let (ok, a') = ing_changeState establishHandshake a in
            (ok, es\<lparr>em_active := Some a'\<rparr>)))"

definition em_activeAboutSuccess :: "establishment \<Rightarrow> bool \<times> establishment" where
  "em_activeAboutSuccess es =
     (case em_active es of None \<Rightarrow> (False, es)
      | Some a \<Rightarrow> (let (ok, a') = ing_changeState establishAboutSuccess a in
            (ok, es\<lparr>em_active := Some a'\<rparr>)))"

definition em_activeSuccess :: "conn \<Rightarrow> establishment \<Rightarrow> bool \<times> establishment" where
  "em_activeSuccess c es =
     (case em_active es of None \<Rightarrow> (False, es)
      | Some a \<Rightarrow> (let (ok, a') = ing_success c a in (ok, es\<lparr>em_active := Some a'\<rparr>)))"

definition em_activeFail :: "gerror \<Rightarrow> establishment \<Rightarrow> bool \<times> establishment" where
  "em_activeFail e es =
     (case em_active es of None \<Rightarrow> (False, es)
      | Some a \<Rightarrow> (let (ok, a') = ing_fail e a in (ok, es\<lparr>em_active := Some a'\<rparr>)))"

definition em_activeStartTime :: "establishment \<Rightarrow> int" where
  "em_activeStartTime es = (case em_active es of None \<Rightarrow> 0 | Some a \<Rightarrow> ing_startTime a)"

definition em_activeConn :: "establishment \<Rightarrow> conn option" where
  "em_activeConn es = (case em_active es of None \<Rightarrow> None | Some a \<Rightarrow> ing_conn a)"

definition em_activeErr :: "establishment \<Rightarrow> gerror option" where
  "em_activeErr es = (case em_active es of None \<Rightarrow> None | Some a \<Rightarrow> ing_err a)"

subsection \<open>The passive direction\<close>

definition em_passiveState :: "establishment \<Rightarrow> int" where
  "em_passiveState es = (case em_passive es of None \<Rightarrow> 0 | Some p \<Rightarrow> ing_state p)"

definition em_isPassiveStarted :: "establishment \<Rightarrow> bool" where
  "em_isPassiveStarted es = (case em_passive es of None \<Rightarrow> False | Some p \<Rightarrow> ing_isStarted p)"

definition em_isPassiveEstablishing :: "establishment \<Rightarrow> bool" where
  "em_isPassiveEstablishing es = (case em_passive es of None \<Rightarrow> False | Some p \<Rightarrow> ing_isEstablishing p)"

definition em_isPassiveSuccess :: "establishment \<Rightarrow> bool" where
  "em_isPassiveSuccess es = (case em_passive es of None \<Rightarrow> False | Some p \<Rightarrow> ing_isSuccess p)"

definition em_isPassiveFail :: "establishment \<Rightarrow> bool" where
  "em_isPassiveFail es = (case em_passive es of None \<Rightarrow> False | Some p \<Rightarrow> ing_isFail p)"

definition em_passiveSuccess :: "conn \<Rightarrow> establishment \<Rightarrow> bool \<times> establishment" where
  "em_passiveSuccess c es =
     (case em_passive es of None \<Rightarrow> (False, es)
      | Some p \<Rightarrow> (let (ok, p') = ing_success c p in (ok, es\<lparr>em_passive := Some p'\<rparr>)))"

definition em_passiveFail :: "gerror \<Rightarrow> establishment \<Rightarrow> bool \<times> establishment" where
  "em_passiveFail e es =
     (case em_passive es of None \<Rightarrow> (False, es)
      | Some p \<Rightarrow> (let (ok, p') = ing_fail e p in (ok, es\<lparr>em_passive := Some p'\<rparr>)))"

definition em_passiveStartTime :: "establishment \<Rightarrow> int" where
  "em_passiveStartTime es = (case em_passive es of None \<Rightarrow> 0 | Some p \<Rightarrow> ing_startTime p)"

definition em_passiveConn :: "establishment \<Rightarrow> conn option" where
  "em_passiveConn es = (case em_passive es of None \<Rightarrow> None | Some p \<Rightarrow> ing_conn p)"

definition em_passiveErr :: "establishment \<Rightarrow> gerror option" where
  "em_passiveErr es = (case em_passive es of None \<Rightarrow> None | Some p \<Rightarrow> ing_err p)"

subsection \<open>Starting a direction, and the tie break\<close>

text \<open>\<open>startActive\<close> and \<open>startPassive\<close> ignore the result of the outer \<open>changeState\<close>; they
  create the direction's record on first use.\<close>

definition em_startActive :: "int \<Rightarrow> establishment \<Rightarrow> bool \<times> establishment" where
  "em_startActive t es =
     (if em_isEnd es \<or> em_isPassiveStarted es then (False, es)
      else
        let es1 = snd (em_changeState establishmentStarted es);
            a = (case em_active es1 of None \<Rightarrow> new_establishing | Some a \<Rightarrow> a);
            (ok, a') = ing_changeState establishConnect a
        in if ok then (True, es1\<lparr>em_active := Some (a'\<lparr>ing_startTime := t\<rparr>)\<rparr>)
           else (False, es1\<lparr>em_active := Some a'\<rparr>))"

definition em_startPassive :: "int \<Rightarrow> establishment \<Rightarrow> bool \<times> establishment" where
  "em_startPassive t es =
     (if em_isEnd es then (False, es)
      else
        let es1 = snd (em_changeState establishmentStarted es);
            p = (case em_passive es1 of None \<Rightarrow> new_establishing | Some p \<Rightarrow> p);
            (ok, p') = ing_changeState establishHandshake p
        in if ok then (True, es1\<lparr>em_passive := Some (p'\<lparr>ing_startTime := t\<rparr>)\<rparr>)
           else (False, es1\<lparr>em_passive := Some p'\<rparr>))"

text \<open>\<open>whichStartEarlier\<close>: 1 for active, 2 for passive, 0 for neither. The pointers are read
  only behind the \<open>is..Started\<close> guards, so \<open>em_activeStartTime\<close> reads the same field.\<close>

definition em_whichStartEarlier :: "bool \<Rightarrow> establishment \<Rightarrow> int" where
  "em_whichStartEarlier sameTime es =
     (if em_isActiveStarted es \<and> em_isPassiveStarted es then
        (if em_activeStartTime es < em_passiveStartTime es
            \<or> em_activeStartTime es = em_passiveStartTime es \<and> sameTime
         then 1 else 2)
      else if em_isActiveStarted es then 1
      else if em_isPassiveStarted es then 2
      else 0)"

end
