(* ===== verification/Proto.thy ===== *)
theory Proto
  imports Prelude
begin

text \<open>
  Packet formats: the protocol type numbers (net/proto_type.go), the six byte packet head and
  the four packet kinds that travel on an established session (net/packet.go), and the handshake
  messages as the generated structs hold them.
\<close>

section \<open>Protocol types\<close>

text \<open>\<open>type protoType int8\<close>: any byte of the wire is converted to one, so all 256 values occur.\<close>

type_synonym proto_type = "8 word"

definition protoTypeUnknown :: proto_type where "protoTypeUnknown = 0"
definition protoTypeHSApply :: proto_type where "protoTypeHSApply = 1"
definition protoTypeHSAccepted :: proto_type where "protoTypeHSAccepted = 2"
definition protoTypeHSCompleted :: proto_type where "protoTypeHSCompleted = 3"
definition protoTypeHSCompletedAck :: proto_type where "protoTypeHSCompletedAck = 4"
definition protoTypeHSRejected :: proto_type where "protoTypeHSRejected = 5"
definition protoTypeHeartbeat :: proto_type where "protoTypeHeartbeat = 10"
definition protoTypeCloseReq :: proto_type where "protoTypeCloseReq = 11"
definition protoTypeCloseResp :: proto_type where "protoTypeCloseResp = 12"
definition protoTypeRaw :: proto_type where "protoTypeRaw = 20"

named_theorems pt_simps \<open>the protocol type numbers\<close>

lemmas [pt_simps] =
  protoTypeUnknown_def protoTypeHSApply_def protoTypeHSAccepted_def protoTypeHSCompleted_def
  protoTypeHSCompletedAck_def protoTypeHSRejected_def protoTypeHeartbeat_def
  protoTypeCloseReq_def protoTypeCloseResp_def protoTypeRaw_def

text \<open>\<open>protoTypeStrings\<close>: reading a missing key of a Go map gives the zero value, the empty
  string.\<close>

definition protoTypeStrings :: "proto_type \<rightharpoonup> string" where
  "protoTypeStrings = [
     protoTypeUnknown \<mapsto> ''Unknown'',
     protoTypeHSApply \<mapsto> ''Handshake Apply'',
     protoTypeHSAccepted \<mapsto> ''Handshake Accepted'',
     protoTypeHSCompleted \<mapsto> ''Handshake Completed'',
     protoTypeHSCompletedAck \<mapsto> ''Handshake Completed Ack'',
     protoTypeHSRejected \<mapsto> ''Handshake Rejected'',
     protoTypeHeartbeat \<mapsto> ''Heartbeat'',
     protoTypeCloseReq \<mapsto> ''Close Request'',
     protoTypeCloseResp \<mapsto> ''Close Response'',
     protoTypeRaw \<mapsto> ''Raw'']"

definition protoType_String :: "proto_type \<Rightarrow> string" where
  "protoType_String pt = (case protoTypeStrings pt of None \<Rightarrow> [] | Some s \<Rightarrow> s)"

text \<open>\<open>protoTypesForCommunicating\<close>: a missing key reads as \<open>false\<close>.\<close>

definition protoTypesForCommunicating :: "proto_type \<Rightarrow> bool" where
  "protoTypesForCommunicating pt \<longleftrightarrow>
     pt = protoTypeHeartbeat \<or> pt = protoTypeCloseReq \<or> pt = protoTypeCloseResp \<or> pt = protoTypeRaw"

section \<open>The packet head\<close>

text \<open>\<open>type packetHead [6]byte\<close>; its zero value is six zero bytes. Byte 1 is never written. The
  length is big endian in bytes 2 to 5 (encoding/binary).\<close>

type_synonym packet_head = "byte list"

definition packetHead_zero :: packet_head where
  "packetHead_zero = replicate 6 0"

definition head_protoType :: "packet_head \<Rightarrow> proto_type" where
  "head_protoType ph = ph ! 0"

definition head_setProtoType :: "proto_type \<Rightarrow> packet_head \<Rightarrow> packet_head" where
  "head_setProtoType pt ph = ph[0 := pt]"

definition bigEndian_Uint32 :: "byte list \<Rightarrow> uint32" where
  "bigEndian_Uint32 b =
     ucast (b ! 3) OR push_bit 8 (ucast (b ! 2)) OR push_bit 16 (ucast (b ! 1))
       OR push_bit 24 (ucast (b ! 0))"

definition bigEndian_bytes :: "uint32 \<Rightarrow> byte list" where
  "bigEndian_bytes v =
     [ucast (drop_bit 24 v), ucast (drop_bit 16 v), ucast (drop_bit 8 v), ucast v]"

definition head_payloadLen :: "packet_head \<Rightarrow> uint32" where
  "head_payloadLen ph = bigEndian_Uint32 (drop 2 ph)"

definition head_setPayloadLen :: "uint32 \<Rightarrow> packet_head \<Rightarrow> packet_head" where
  "head_setPayloadLen n ph = take 2 ph @ bigEndian_bytes n"

text \<open>The head both writers build: \<open>var head packetHead; head.setProtoType(..);
  head.setPayloadLen(uint32(len(payload)))\<close>.\<close>

definition mk_head :: "proto_type \<Rightarrow> byte list \<Rightarrow> packet_head" where
  "mk_head pt payload =
     head_setPayloadLen (word_of_nat (length payload)) (head_setProtoType pt packetHead_zero)"

section \<open>Session packets\<close>

text \<open>The four implementations of the interface \<open>packet\<close>. The close request carries no data.\<close>

datatype packet =
    HeartbeatPacket byte
  | CloseReqPacket
  | CloseRespPacket byte
  | RawPacket "byte list"

fun packet_Data :: "packet \<Rightarrow> byte list" where
  "packet_Data (HeartbeatPacket b) = [b]"
| "packet_Data CloseReqPacket = []"
| "packet_Data (CloseRespPacket b) = [b]"
| "packet_Data (RawPacket bs) = bs"

fun packet_protoType :: "packet \<Rightarrow> proto_type" where
  "packet_protoType (HeartbeatPacket _) = protoTypeHeartbeat"
| "packet_protoType CloseReqPacket = protoTypeCloseReq"
| "packet_protoType (CloseRespPacket _) = protoTypeCloseResp"
| "packet_protoType (RawPacket _) = protoTypeRaw"

definition heartbeatPacketLength :: uint32 where "heartbeatPacketLength = 1"
definition closeReqPacketLength :: uint32 where "closeReqPacketLength = 0"
definition closeRespPacketLength :: uint32 where "closeRespPacketLength = 1"

definition heartbeat_ping :: "byte \<Rightarrow> bool" where "heartbeat_ping b \<longleftrightarrow> b \<noteq> 0"
definition heartbeat_setPing :: "byte \<Rightarrow> byte" where "heartbeat_setPing b = 1"
definition heartbeat_setPong :: "byte \<Rightarrow> byte" where "heartbeat_setPong b = 0"

definition closeResp_setPass :: "bool \<Rightarrow> byte \<Rightarrow> byte" where
  "closeResp_setPass p b = (if p then 1 else 0)"

definition closeResp_pass :: "byte \<Rightarrow> bool" where "closeResp_pass b \<longleftrightarrow> b \<noteq> 0"

section \<open>Handshake messages\<close>

text \<open>The messages of protos.proto as the generated structs of net/internal/protocol/pb hold
  them. The reason of a rejection is an open enumeration: any 32-bit number can arrive.\<close>

datatype hs_message =
    HSApply node_id string int
  | HSAccepted node_id string
  | HSRejected int
  | HSCompleted
  | HSCompletedAck

definition HSRejectedReason_NodeIdOrTokenWrong :: int where
  "HSRejectedReason_NodeIdOrTokenWrong = 0"
definition HSRejectedReason_SessionEstablishing :: int where
  "HSRejectedReason_SessionEstablishing = 1"
definition HSRejectedReason_SessionEstablished :: int where
  "HSRejectedReason_SessionEstablished = 2"

section \<open>Facts about heads\<close>

named_theorems head_simps \<open>reading back what was written into a packet head\<close>

lemma bigEndian_roundtrip [simp]: "bigEndian_Uint32 (bigEndian_bytes v) = v"
proof (rule bit_word_eqI)
  fix n assume "n < LENGTH(32)"
  then consider "n < 8" | "8 \<le> n" "n < 16" | "16 \<le> n" "n < 24" | "24 \<le> n" "n < 32"
    by fastforce
  then show "bit (bigEndian_Uint32 (bigEndian_bytes v)) n = bit v n"
    by cases (auto simp: bigEndian_Uint32_def bigEndian_bytes_def bit_simps)
qed

lemma length_bigEndian_bytes [simp]: "length (bigEndian_bytes v) = 4"
  by (simp add: bigEndian_bytes_def)

lemma mk_head_eq: "mk_head pt payload = pt # 0 # bigEndian_bytes (word_of_nat (length payload))"
  by (simp add: mk_head_def head_setPayloadLen_def head_setProtoType_def packetHead_zero_def
      numeral_eq_Suc)

lemma length_mk_head [head_simps]: "length (mk_head pt payload) = 6"
  by (simp add: mk_head_eq)

lemma protoType_mk_head [head_simps]: "head_protoType (mk_head pt payload) = pt"
  by (simp add: mk_head_eq head_protoType_def)

lemma payloadLen_mk_head [head_simps]:
  "head_payloadLen (mk_head pt payload) = word_of_nat (length payload)"
  by (simp add: mk_head_eq head_payloadLen_def)

lemma unat_payloadLen_mk_head [head_simps]:
  "length payload < 2 ^ 32 \<Longrightarrow> unat (head_payloadLen (mk_head pt payload)) = length payload"
  by (simp add: payloadLen_mk_head unat_of_nat)

lemma bigEndian_bytes_Uint32:
  assumes "length b = 4" shows "bigEndian_bytes (bigEndian_Uint32 b) = b"
proof -
  obtain w x y z where b: "b = [w, x, y, z]"
    using assms by (auto simp: numeral_eq_Suc length_Suc_conv)
  have "ucast (drop_bit 24 (bigEndian_Uint32 b)) = w" "ucast (drop_bit 16 (bigEndian_Uint32 b)) = x"
    "ucast (drop_bit 8 (bigEndian_Uint32 b)) = y" "ucast (bigEndian_Uint32 b) = z"
    unfolding b bigEndian_Uint32_def
    by (rule bit_word_eqI; auto simp: bit_simps dest: bit_imp_le_length)+
  then show ?thesis unfolding b bigEndian_bytes_def by simp
qed

lemma head_form:
  assumes "length h = 6"
  shows "\<exists>x. h = head_protoType h # x # bigEndian_bytes (head_payloadLen h)"
proof -
  obtain a x b where h: "h = a # x # b" "length b = 4"
    using assms by (auto simp: numeral_eq_Suc length_Suc_conv)
  then show ?thesis by (simp add: head_protoType_def head_payloadLen_def bigEndian_bytes_Uint32)
qed

end
