(* ===== verification/Config.thy ===== *)
theory Config
  imports Prelude
begin

text \<open>
  The configuration records and their \<open>init\<close> methods (net/session.go, net/handshake.go,
  net/service.go). \<open>init\<close> runs on a pointer: it fills in defaults in place, in the order of the
  code, and stops at the first error, so each function returns the record as it was left
  together with the error. A \<open>time.Duration\<close> is its number of nanoseconds; the fields are
  only compared and divided here, never added, so \<open>int\<close> is exact.
\<close>

section \<open>HandshakeConfig\<close>

record handshake_config =
  hc_Token :: string
  hc_Timeout :: int

definition HandshakeConfig_init :: "handshake_config \<Rightarrow> gerror option" where
  "HandshakeConfig_init c =
     (if hc_Token c = [] then Some (ErrText ''HandshakeConfig: Token empty'' [])
      else if hc_Timeout c \<le> 0 then Some (ErrText ''HandshakeConfig: Timeout must > 0'' [])
      else None)"

section \<open>SessionConfig\<close>

record session_config =
  sc_PendingPacketQueueSize :: int
  sc_MaxPacketLength :: int
  sc_ReadBufSize :: int
  sc_WriteBufSize :: int
  sc_ReadWriteTimeout :: int
  sc_BatchWriteLimit :: int
  sc_BatchWriteTimeLmit :: int
  sc_TickInterval :: int
  sc_HeartbeatTimeout :: int
  sc_InactiveTimeout :: int

text \<open>\<open>if c.X <= 0 { c.X = d }\<close>: the value of the field afterwards.\<close>

definition or_default :: "int \<Rightarrow> int \<Rightarrow> int" where
  "or_default v d = (if v \<le> 0 then d else v)"

definition MaxInt32 :: int where
  "MaxInt32 = 2147483647"

text \<open>The steps of \<open>init\<close> up to the first group of checks, the defaults and the checks of the
  intervals, and the last check, in the order of the code. Go's \<open>/\<close> truncates; it is applied
  to a positive \<open>ReadWriteTimeout\<close> only, where it agrees with \<open>div\<close>.\<close>

definition SessionConfig_init :: "session_config \<Rightarrow> session_config \<times> gerror option" where
  "SessionConfig_init c0 =
     (let c1 = c0\<lparr>sc_PendingPacketQueueSize := or_default (sc_PendingPacketQueueSize c0) 100\<rparr> in
      if sc_MaxPacketLength c1 \<le> 0 \<or> sc_MaxPacketLength c1 \<ge> MaxInt32 then
        (c1, Some (ErrText ''SessionConfig: MaxPacketLength must > 0 and < %d'' [MaxInt32]))
      else if sc_ReadBufSize c1 \<le> 0 then
        (c1, Some (ErrText ''SessionConfig: ReadBufSize must > 0'' []))
      else if sc_WriteBufSize c1 \<le> 0 then
        (c1, Some (ErrText ''SessionConfig: WriteBufSize must > 0'' []))
      else if sc_ReadWriteTimeout c1 \<le> 0 then
        (c1, Some (ErrText ''SessionConfig: ReadWriteTimeout must > 0'' []))
      else
      let c2 = c1\<lparr>sc_BatchWriteLimit := or_default (sc_BatchWriteLimit c1) 10\<rparr>;
          c3 = c2\<lparr>sc_BatchWriteTimeLmit := or_default (sc_BatchWriteTimeLmit c2) 1000000\<rparr> in
      if sc_TickInterval c3 > 0 \<and> sc_TickInterval c3 > sc_ReadWriteTimeout c3 div 3 then
        (c3, Some (ErrText ''SessionConfig: TickInterval must <= ReadWriteTimeout/3'' []))
      else
      let c4 = c3\<lparr>sc_TickInterval := or_default (sc_TickInterval c3) (sc_ReadWriteTimeout c3 div 3)\<rparr> in
      if sc_HeartbeatTimeout c4 > 0 \<and> sc_HeartbeatTimeout c4 > sc_ReadWriteTimeout c4 div 2 then
        (c4, Some (ErrText ''SessionConfig: HeartbeatTimeout must <= ReadWriteTimeout/2'' []))
      else
      let c5 = c4\<lparr>sc_HeartbeatTimeout :=
                  or_default (sc_HeartbeatTimeout c4) (sc_ReadWriteTimeout c4 div 2)\<rparr> in
      if sc_TickInterval c5 \<ge> sc_HeartbeatTimeout c5 then
        (c5, Some (ErrText ''SessionConfig: TickInterval must < HeartbeatTimeout'' []))
      else if sc_InactiveTimeout c5 \<le> sc_ReadWriteTimeout c5 then
        (c5, Some (ErrText ''SessionConfig: InactiveTimeout must > ReadWriteTimeout'' []))
      else (c5, None))"

text \<open>The \<open>nil\<close> receiver check at the head of the method.\<close>

definition SessionConfig_init_ptr ::
    "session_config option \<Rightarrow> session_config option \<times> gerror option" where
  "SessionConfig_init_ptr p =
     (case p of None \<Rightarrow> (None, Some (ErrText ''SessionConfig nil'' []))
      | Some c \<Rightarrow> (case SessionConfig_init c of (c', e) \<Rightarrow> (Some c', e)))"

section \<open>ServiceConfig\<close>

text \<open>Whether the three function and interface fields are set is all that \<open>init\<close> looks at.\<close>

record service_config =
  cfg_NodeId :: node_id
  cfg_Addr :: string
  cfg_Handshake :: handshake_config
  cfg_Session :: session_config
  cfg_hasDialer :: bool
  cfg_hasListenerCreator :: bool
  cfg_hasTimerSystem :: bool
  cfg_ExpectedConcurrentSessions :: int

definition ServiceConfig_init :: "service_config \<Rightarrow> service_config \<times> gerror option" where
  "ServiceConfig_init c =
     (if cfg_NodeId c = [] then (c, Some (ErrText ''ServiceConfig: NodeId not specified'' []))
      else if cfg_Addr c = [] then (c, Some (ErrText ''ServiceConfig: Addr not specified'' []))
      else case HandshakeConfig_init (cfg_Handshake c) of
        Some e \<Rightarrow> (c, Some e)
      | None \<Rightarrow>
        (case SessionConfig_init (cfg_Session c) of (sc, err) \<Rightarrow>
          let c1 = c\<lparr>cfg_Session := sc\<rparr> in
          case err of Some e \<Rightarrow> (c1, Some e)
          | None \<Rightarrow>
            if \<not> cfg_hasDialer c1 then (c1, Some (ErrText ''ServiceConfig: Dialer not specified'' []))
            else if \<not> cfg_hasListenerCreator c1 then
              (c1, Some (ErrText ''ServiceConfig: ListenerCreator not specified'' []))
            else if \<not> cfg_hasTimerSystem c1 then
              (c1, Some (ErrText ''ServiceConfig: TimerSystem not specified'' []))
            else if cfg_ExpectedConcurrentSessions c1 \<le> 0 then
              (c1\<lparr>cfg_ExpectedConcurrentSessions := 10\<rparr>, None)
            else (c1, None)))"

definition ServiceConfig_init_ptr ::
    "service_config option \<Rightarrow> service_config option \<times> gerror option" where
  "ServiceConfig_init_ptr p =
     (case p of None \<Rightarrow> (None, Some (ErrText ''service config nil'' []))
      | Some c \<Rightarrow> (case ServiceConfig_init c of (c', e) \<Rightarrow> (Some c', e)))"

section \<open>What a validated configuration guarantees\<close>

text \<open>The documented constraints of \<open>SessionConfig\<close>, as the rest of the code relies on them.\<close>

definition session_config_ok :: "session_config \<Rightarrow> bool" where
  "session_config_ok c \<longleftrightarrow>
     0 < sc_PendingPacketQueueSize c \<and>
     0 < sc_MaxPacketLength c \<and> sc_MaxPacketLength c < MaxInt32 \<and>
     0 < sc_ReadBufSize c \<and> 0 < sc_WriteBufSize c \<and>
     0 < sc_ReadWriteTimeout c \<and> 0 < sc_BatchWriteLimit c \<and> 0 < sc_BatchWriteTimeLmit c \<and>
     0 \<le> sc_TickInterval c \<and> sc_TickInterval c \<le> sc_ReadWriteTimeout c div 3 \<and>
     sc_TickInterval c < sc_HeartbeatTimeout c \<and>
     sc_HeartbeatTimeout c \<le> sc_ReadWriteTimeout c div 2 \<and>
     sc_ReadWriteTimeout c < sc_InactiveTimeout c"

text \<open>What the caller has to supply: the conditions on the fields before the defaults.\<close>

definition session_config_acceptable :: "session_config \<Rightarrow> bool" where
  "session_config_acceptable c \<longleftrightarrow>
     0 < sc_MaxPacketLength c \<and> sc_MaxPacketLength c < MaxInt32 \<and>
     0 < sc_ReadBufSize c \<and> 0 < sc_WriteBufSize c \<and> 0 < sc_ReadWriteTimeout c \<and>
     sc_TickInterval c \<le> sc_ReadWriteTimeout c div 3 \<and>
     sc_HeartbeatTimeout c \<le> sc_ReadWriteTimeout c div 2 \<and>
     or_default (sc_TickInterval c) (sc_ReadWriteTimeout c div 3)
       < or_default (sc_HeartbeatTimeout c) (sc_ReadWriteTimeout c div 2) \<and>
     sc_ReadWriteTimeout c < sc_InactiveTimeout c"

text \<open>The record with every default filled in, which is what an accepted configuration becomes.\<close>

definition session_config_filled :: "session_config \<Rightarrow> session_config" where
  "session_config_filled c = c\<lparr>
     sc_PendingPacketQueueSize := or_default (sc_PendingPacketQueueSize c) 100,
     sc_BatchWriteLimit := or_default (sc_BatchWriteLimit c) 10,
     sc_BatchWriteTimeLmit := or_default (sc_BatchWriteTimeLmit c) 1000000,
     sc_TickInterval := or_default (sc_TickInterval c) (sc_ReadWriteTimeout c div 3),
     sc_HeartbeatTimeout := or_default (sc_HeartbeatTimeout c) (sc_ReadWriteTimeout c div 2)\<rparr>"

lemma upper_check_iff:
  fixes r t k :: int
  shows "0 < r \<Longrightarrow> 0 < k \<Longrightarrow> (0 < t \<longrightarrow> \<not> r div k < t) = (t \<le> r div k)"
  using pos_imp_zdiv_nonneg_iff [of k r] by linarith

lemma div_nonneg: "0 < r \<Longrightarrow> 0 < k \<Longrightarrow> 0 \<le> r div k" for r k :: int
  by (simp add: pos_imp_zdiv_nonneg_iff)

lemma SessionConfig_init_accepts:
  "snd (SessionConfig_init c) = None \<longleftrightarrow> session_config_acceptable c"
  unfolding SessionConfig_init_def Let_def session_config_acceptable_def
  by (simp add: snd_if_Some not_le upper_check_iff cong: conj_cong split del: if_split)

lemma SessionConfig_init_result:
  assumes "session_config_acceptable c"
  shows "SessionConfig_init c = (session_config_filled c, None)"
  unfolding SessionConfig_init_def Let_def session_config_filled_def
  using assms by (simp add: session_config_acceptable_def not_le not_less)

lemma SessionConfig_init_eq:
  "SessionConfig_init c = (c', None) \<longleftrightarrow>
     session_config_acceptable c \<and> c' = session_config_filled c"
  using SessionConfig_init_accepts [of c] SessionConfig_init_result [of c] by auto

lemma or_default_pos: "0 < d \<Longrightarrow> 0 < or_default v d"
  by (simp add: or_default_def)

lemma or_default_id [simp]: "0 < v \<Longrightarrow> or_default v d = v"
  by (simp add: or_default_def)

lemma or_default_le: "v \<le> d \<Longrightarrow> or_default v d \<le> d"
  by (simp add: or_default_def)

lemma or_default_nonneg: "0 \<le> d \<Longrightarrow> 0 \<le> or_default v d"
  by (simp add: or_default_def)

lemma session_config_filled_ok:
  "session_config_acceptable c \<Longrightarrow> session_config_ok (session_config_filled c)"
  by (simp add: session_config_acceptable_def session_config_ok_def session_config_filled_def
      or_default_pos or_default_le or_default_nonneg div_nonneg)

lemma session_config_filled_id:
  "session_config_ok c \<Longrightarrow> 0 < sc_TickInterval c \<Longrightarrow> session_config_filled c = c"
  by (simp add: session_config_ok_def session_config_filled_def)

lemma session_config_ok_acceptable:
  "session_config_ok c \<Longrightarrow> 0 < sc_TickInterval c \<Longrightarrow> session_config_acceptable c"
  by (simp add: session_config_acceptable_def session_config_ok_def)

text \<open>A positive tick interval needs at least three nanoseconds of \<open>ReadWriteTimeout\<close>.\<close>

lemma session_config_filled_tick:
  "3 \<le> sc_ReadWriteTimeout c \<Longrightarrow> 0 < sc_TickInterval (session_config_filled c)"
  by (simp add: session_config_filled_def or_default_pos)

section \<open>Properties\<close>

text \<open>C36: \<open>SessionConfig.init\<close> accepts a configuration exactly if \<open>session_config_acceptable\<close> holds of
  it; then the record it leaves has every default filled in, keeps all the documented bounds,
  and, from three nanoseconds of \<open>ReadWriteTimeout\<close> on, is a fixed point of \<open>init\<close>.\<close>

theorem SessionConfig_init_correct:
  "(snd (SessionConfig_init c) = None) = session_config_acceptable c \<and>
   (session_config_acceptable c \<longrightarrow>
      SessionConfig_init c = (session_config_filled c, None) \<and>
      session_config_ok (session_config_filled c) \<and>
      (3 \<le> sc_ReadWriteTimeout c \<longrightarrow>
         0 < sc_TickInterval (session_config_filled c) \<and>
         SessionConfig_init (session_config_filled c) = (session_config_filled c, None)))"
  using SessionConfig_init_accepts SessionConfig_init_result session_config_filled_ok
    session_config_filled_id session_config_ok_acceptable session_config_filled_tick by metis

definition ex_session_config :: session_config where
  "ex_session_config = \<lparr>sc_PendingPacketQueueSize = 0, sc_MaxPacketLength = 1024,
     sc_ReadBufSize = 64, sc_WriteBufSize = 64, sc_ReadWriteTimeout = 60, sc_BatchWriteLimit = 0,
     sc_BatchWriteTimeLmit = 0, sc_TickInterval = 0, sc_HeartbeatTimeout = 0,
     sc_InactiveTimeout = 100\<rparr>"

theorem SessionConfig_init_correct_witness:
  "SessionConfig_init ex_session_config = (session_config_filled ex_session_config, None) \<and>
     sc_TickInterval (session_config_filled ex_session_config) = 20"
  using SessionConfig_init_correct [of ex_session_config]
  by (simp add: session_config_acceptable_def ex_session_config_def or_default_def MaxInt32_def
      session_config_filled_def)

text \<open>What \<open>ServiceConfig.init\<close> accepts, and what it makes of it.\<close>

definition service_config_acceptable :: "service_config \<Rightarrow> bool" where
  "service_config_acceptable c \<longleftrightarrow>
     cfg_NodeId c \<noteq> [] \<and> cfg_Addr c \<noteq> [] \<and>
     hc_Token (cfg_Handshake c) \<noteq> [] \<and> 0 < hc_Timeout (cfg_Handshake c) \<and>
     session_config_acceptable (cfg_Session c) \<and>
     cfg_hasDialer c \<and> cfg_hasListenerCreator c \<and> cfg_hasTimerSystem c"

definition service_config_filled :: "service_config \<Rightarrow> service_config" where
  "service_config_filled c = c\<lparr>cfg_Session := session_config_filled (cfg_Session c),
     cfg_ExpectedConcurrentSessions := or_default (cfg_ExpectedConcurrentSessions c) 10\<rparr>"

lemma ServiceConfig_init_accepts: "(snd (ServiceConfig_init c) = None) = service_config_acceptable c"
  using SessionConfig_init_accepts [of "cfg_Session c"]
  by (auto simp: ServiceConfig_init_def HandshakeConfig_init_def service_config_acceptable_def Let_def
      split: if_splits option.splits prod.splits)

lemma ServiceConfig_init_result:
  "service_config_acceptable c \<Longrightarrow> ServiceConfig_init c = (service_config_filled c, None)"
  by (simp add: service_config_acceptable_def ServiceConfig_init_def HandshakeConfig_init_def
      SessionConfig_init_result service_config_filled_def or_default_def Let_def)

text \<open>C37: \<open>ServiceConfig.init\<close> accepts a configuration exactly if it names a node, an address and the
  three collaborators, has a token and a positive handshake timeout, and its session configuration
  is acceptable. Then it fills in the defaults of the session configuration and room for ten pending
  ticks if none is given, and changes nothing else; the result keeps the documented bounds. A nil
  pointer is refused.\<close>

theorem ServiceConfig_init_accepted:
  "(snd (ServiceConfig_init_ptr (Some c)) = None) = service_config_acceptable c \<and>
   (service_config_acceptable c \<longrightarrow>
      ServiceConfig_init_ptr (Some c) = (Some (service_config_filled c), None) \<and>
      session_config_ok (cfg_Session (service_config_filled c)) \<and>
      0 < cfg_ExpectedConcurrentSessions (service_config_filled c) \<and>
      cfg_NodeId (service_config_filled c) = cfg_NodeId c \<and> cfg_Handshake (service_config_filled c) = cfg_Handshake c) \<and>
   (\<exists>e. ServiceConfig_init_ptr None = (None, Some e))"
  using ServiceConfig_init_accepts [of c] ServiceConfig_init_result [of c] session_config_filled_ok [of "cfg_Session c"]
  by (auto simp: ServiceConfig_init_ptr_def service_config_filled_def service_config_acceptable_def or_default_def
      split: prod.splits)

definition ex_service_config :: service_config where
  "ex_service_config = \<lparr>cfg_NodeId = ''a'', cfg_Addr = ''host:1'',
     cfg_Handshake = \<lparr>hc_Token = ''t'', hc_Timeout = 5\<rparr>, cfg_Session = ex_session_config,
     cfg_hasDialer = True, cfg_hasListenerCreator = True, cfg_hasTimerSystem = True,
     cfg_ExpectedConcurrentSessions = 0\<rparr>"

lemma ex_service_config_init:
  "ServiceConfig_init ex_service_config =
     (ex_service_config\<lparr>cfg_Session := session_config_filled ex_session_config,
                        cfg_ExpectedConcurrentSessions := 10\<rparr>, None)"
  by (simp add: ServiceConfig_init_def ex_service_config_def HandshakeConfig_init_def
      SessionConfig_init_result session_config_acceptable_def ex_session_config_def or_default_def
      MaxInt32_def)

lemma ex_service_config_acceptable: "service_config_acceptable ex_service_config"
  using ServiceConfig_init_accepts [of ex_service_config] by (simp add: ex_service_config_init)

theorem ServiceConfig_init_accepted_witness:
  "session_config_ok (cfg_Session (service_config_filled ex_service_config)) \<and>
     ServiceConfig_init_ptr (Some ex_service_config) = (Some (service_config_filled ex_service_config), None)"
  using ServiceConfig_init_accepted [of ex_service_config] ex_service_config_acceptable by blast

end
