(* ===== verification/Session.thy ===== *)
theory Session
  imports Proto Config
begin

text \<open>
  The session object of net/session.go, without the parts that reach into the service
  (start, close and the packet handlers are in theory Service). The queue of pending packets
  is \<open>gmpsc.Queue\<close>, a third-party package: its operations are a parameter (\<open>queue_ops\<close>), and
  \<open>queue_laws\<close> states what its documentation promises (a bounded first-in first-out queue).
\<close>

section \<open>The pending packet queue, a parameter\<close>

text \<open>\<open>q_enqueue\<close> answers whether the packet was taken, \<open>q_dequeue\<close> the first packet if there
  is one, \<open>q_ready\<close> how many are ready to be taken.\<close>

record 'q queue_ops =
  q_new :: "int \<Rightarrow> int \<Rightarrow> 'q"
  q_enqueue :: "packet \<Rightarrow> 'q \<Rightarrow> bool \<times> 'q"
  q_dequeue :: "'q \<Rightarrow> packet option \<times> 'q"
  q_ready :: "'q \<Rightarrow> int"
  q_close :: "'q \<Rightarrow> 'q"

definition queue_laws :: "'q queue_ops \<Rightarrow> ('q \<Rightarrow> packet list) \<Rightarrow> bool" where
  "queue_laws Q items \<longleftrightarrow>
     (\<forall>n limit. items (q_new Q n limit) = []) \<and>
     (\<forall>p q. items (snd (q_enqueue Q p q)) =
        (if fst (q_enqueue Q p q) then items q @ [p] else items q)) \<and>
     (\<forall>q. (case q_dequeue Q q of
          (None, q') \<Rightarrow> items q = [] \<and> items q' = []
        | (Some p, q') \<Rightarrow> items q = p # items q')) \<and>
     (\<forall>q. q_ready Q q = int (length (items q)))"

text \<open>A bounded list is such a queue.\<close>

definition list_queue_ops :: "(int \<times> bool \<times> packet list) queue_ops" where
  "list_queue_ops = \<lparr>
     q_new = (\<lambda>n limit. (limit, True, [])),
     q_enqueue = (\<lambda>p (limit, open, ps).
        if open \<and> int (length ps) < limit then (True, (limit, open, ps @ [p]))
        else (False, (limit, open, ps))),
     q_dequeue = (\<lambda>(limit, open, ps). case ps of
        [] \<Rightarrow> (None, (limit, open, [])) | p # ps' \<Rightarrow> (Some p, (limit, open, ps'))),
     q_ready = (\<lambda>(limit, open, ps). int (length ps)),
     q_close = (\<lambda>(limit, open, ps). (limit, False, ps))\<rparr>"

lemma list_queue_laws: "queue_laws list_queue_ops (\<lambda>(limit, open, ps). ps)"
  by (auto simp: queue_laws_def list_queue_ops_def split: list.splits prod.splits if_splits)

section \<open>The session object\<close>

type_synonym timer_id = "64 word"

definition TimerIdNone :: timer_id where
  "TimerIdNone = 0"

text \<open>\<open>ss_conn\<close> is the connection handed to \<open>gnet.NewSession\<close>, \<open>ss_core\<close> whether the pointer
  \<open>core\<close> is non-nil, \<open>ss_wlocked\<close> whether \<open>mutex\<close> is held for writing (it is never taken for
  reading), \<open>ss_chClose\<close> whether the channel has been closed, \<open>ss_notify\<close> whether the channel
  \<open>pendingPacketsNotify\<close> (capacity one) holds a value.\<close>

record 'q session =
  ss_remoteNodeId :: node_id
  ss_activeEnd :: bool
  ss_conn :: conn
  ss_wlocked :: bool
  ss_state :: int
  ss_chClose :: bool
  ss_core :: bool
  ss_pendingPackets :: 'q
  ss_notify :: bool
  ss_waitNotify :: bool
  ss_tickTimerId :: timer_id
  ss_lastActiveTime :: int64
  ss_lastHeartbeatTime :: int64

definition newSession ::
    "'q queue_ops \<Rightarrow> session_config \<Rightarrow> node_id \<Rightarrow> bool \<Rightarrow> conn \<Rightarrow> 'q session" where
  "newSession Q cfg remoteNodeId activeEnd c = \<lparr>
     ss_remoteNodeId = remoteNodeId,
     ss_activeEnd = activeEnd,
     ss_conn = c,
     ss_wlocked = False,
     ss_state = stateInit,
     ss_chClose = False,
     ss_core = True,
     ss_pendingPackets = q_new Q 512 (sc_PendingPacketQueueSize cfg),
     ss_notify = False,
     ss_waitNotify = False,
     ss_tickTimerId = TimerIdNone,
     ss_lastActiveTime = 0,
     ss_lastHeartbeatTime = 0\<rparr>"

subsection \<open>State checks and the lock\<close>

definition session_checkState :: "int \<Rightarrow> 'q session \<Rightarrow> gerror option outcome" where
  "session_checkState need s =
     (let state = ss_state s in
      if need = state then Normal None
      else if state = stateInit then Normal (Some ErrSessionNotStarted)
      else if state = stateStarted then Normal (Some ErrSessionStarted)
      else if state = stateClosed then Normal (Some ErrSessionClosed)
      else Panic ''invalid session state'')"

text \<open>Every caller passes \<open>read = false\<close>. On success the write lock stays held.\<close>

definition session_lockState :: "int \<Rightarrow> 'q session \<Rightarrow> (gerror option \<times> 'q session) outcome" where
  "session_lockState need s =
     (if ss_wlocked s then Blocked
      else obind (session_checkState need s) (\<lambda>err.
        case err of Some e \<Rightarrow> Normal (Some e, s)
        | None \<Rightarrow> Normal (None, s\<lparr>ss_wlocked := True\<rparr>)))"

definition session_unlockState :: "'q session \<Rightarrow> 'q session" where
  "session_unlockState s = s\<lparr>ss_wlocked := False\<rparr>"

subsection \<open>Activity\<close>

text \<open>The compare-and-swap loop leaves the larger of the two times: it is one atomic maximum.
  Every retry reads a value some other goroutine has just stored.\<close>

definition refreshActiveTime :: "int64 \<Rightarrow> 'q session \<Rightarrow> 'q session" where
  "refreshActiveTime now s =
     (if i64_le now (ss_lastActiveTime s) then s else s\<lparr>ss_lastActiveTime := now\<rparr>)"

definition session_keepActive :: "int64 \<Rightarrow> 'q session \<Rightarrow> (gerror option \<times> 'q session) outcome" where
  "session_keepActive now s =
     obind (session_checkState stateStarted s) (\<lambda>err.
       case err of Some e \<Rightarrow> Normal (Some e, s)
       | None \<Rightarrow> Normal (None, refreshActiveTime now s))"

definition session_inactive :: "session_config \<Rightarrow> int64 \<Rightarrow> 'q session \<Rightarrow> bool" where
  "session_inactive cfg now s \<longleftrightarrow> sint (now - ss_lastActiveTime s) \<ge> sc_InactiveTimeout cfg"

subsection \<open>Sending\<close>

definition session_sendDirect ::
    "'q queue_ops \<Rightarrow> int64 \<Rightarrow> packet \<Rightarrow> bool \<Rightarrow> 'q session \<Rightarrow> gerror option \<times> 'q session" where
  "session_sendDirect Q now p refresh s =
     (let (ok, q) = q_enqueue Q p (ss_pendingPackets s);
          s1 = s\<lparr>ss_pendingPackets := q\<rparr> in
      if \<not> ok then (Some ErrPendingPacketsFull, s1)
      else
        let s2 = (if refresh then refreshActiveTime now s1 else s1);
            s3 = (if ss_waitNotify s2 then s2\<lparr>ss_notify := True\<rparr> else s2)
        in (None, s3))"

text \<open>A nil packet is \<open>None\<close>.\<close>

definition session_send ::
    "'q queue_ops \<Rightarrow> session_config \<Rightarrow> int64 \<Rightarrow> packet option \<Rightarrow> bool \<Rightarrow> 'q session \<Rightarrow>
       (gerror option \<times> 'q session) outcome" where
  "session_send Q cfg now po refresh s =
     (case po of None \<Rightarrow> Normal (Some (ErrText ''packet nil'' []), s)
      | Some p \<Rightarrow>
        if int (length (packet_Data p)) > sc_MaxPacketLength cfg then
          Normal (Some ErrPacketLengthOverflow, s)
        else obind (session_checkState stateStarted s) (\<lambda>err.
          case err of Some e \<Rightarrow> Normal (Some e, s)
          | None \<Rightarrow> Normal (session_sendDirect Q now p refresh s)))"

definition session_Send ::
    "'q queue_ops \<Rightarrow> session_config \<Rightarrow> int64 \<Rightarrow> byte list \<Rightarrow> 'q session \<Rightarrow>
       (gerror option \<times> 'q session) outcome" where
  "session_Send Q cfg now b s = session_send Q cfg now (Some (RawPacket b)) True s"

subsection \<open>Ticks\<close>

definition session_tickActiveEnd ::
    "'q queue_ops \<Rightarrow> session_config \<Rightarrow> int64 \<Rightarrow> 'q session \<Rightarrow> 'q session" where
  "session_tickActiveEnd Q cfg nowNano s =
     (if sint (nowNano - ss_lastActiveTime s) < sc_HeartbeatTimeout cfg then
        s\<lparr>ss_lastHeartbeatTime := 0\<rparr>
      else if ss_lastHeartbeatTime s \<noteq> 0
        \<and> sint (nowNano - ss_lastHeartbeatTime s) < sc_HeartbeatTimeout cfg then s
      else
        let s1 = s\<lparr>ss_lastHeartbeatTime := nowNano\<rparr>;
            p = HeartbeatPacket (heartbeat_setPing 0)
        in snd (session_sendDirect Q nowNano p False s1))"

definition session_tickPassiveEnd ::
    "'q queue_ops \<Rightarrow> session_config \<Rightarrow> int64 \<Rightarrow> 'q session \<Rightarrow> 'q session" where
  "session_tickPassiveEnd Q cfg now s =
     (if \<not> session_inactive cfg now s then s
      else snd (session_sendDirect Q now CloseReqPacket False s))"

definition session_tick ::
    "'q queue_ops \<Rightarrow> session_config \<Rightarrow> int64 \<Rightarrow> 'q session \<Rightarrow> 'q session outcome" where
  "session_tick Q cfg now s =
     obind (session_checkState stateStarted s) (\<lambda>err.
       case err of Some _ \<Rightarrow> Normal s
       | None \<Rightarrow> Normal (if ss_activeEnd s then session_tickActiveEnd Q cfg now s
                       else session_tickPassiveEnd Q cfg now s))"

section \<open>Facts about single operations\<close>

named_theorems session_simps \<open>fields an operation of the session leaves alone\<close>

lemma refreshActiveTime_fields [session_simps]:
  "ss_remoteNodeId (refreshActiveTime now s) = ss_remoteNodeId s"
  "ss_activeEnd (refreshActiveTime now s) = ss_activeEnd s"
  "ss_conn (refreshActiveTime now s) = ss_conn s"
  "ss_wlocked (refreshActiveTime now s) = ss_wlocked s"
  "ss_state (refreshActiveTime now s) = ss_state s"
  "ss_chClose (refreshActiveTime now s) = ss_chClose s"
  "ss_core (refreshActiveTime now s) = ss_core s"
  "ss_pendingPackets (refreshActiveTime now s) = ss_pendingPackets s"
  "ss_notify (refreshActiveTime now s) = ss_notify s"
  "ss_waitNotify (refreshActiveTime now s) = ss_waitNotify s"
  "ss_tickTimerId (refreshActiveTime now s) = ss_tickTimerId s"
  "ss_lastHeartbeatTime (refreshActiveTime now s) = ss_lastHeartbeatTime s"
  by (simp_all add: refreshActiveTime_def)

lemma sendDirect_fields [session_simps]:
  "ss_remoteNodeId (snd (session_sendDirect Q now p r s)) = ss_remoteNodeId s"
  "ss_activeEnd (snd (session_sendDirect Q now p r s)) = ss_activeEnd s"
  "ss_conn (snd (session_sendDirect Q now p r s)) = ss_conn s"
  "ss_wlocked (snd (session_sendDirect Q now p r s)) = ss_wlocked s"
  "ss_state (snd (session_sendDirect Q now p r s)) = ss_state s"
  "ss_chClose (snd (session_sendDirect Q now p r s)) = ss_chClose s"
  "ss_core (snd (session_sendDirect Q now p r s)) = ss_core s"
  "ss_waitNotify (snd (session_sendDirect Q now p r s)) = ss_waitNotify s"
  "ss_tickTimerId (snd (session_sendDirect Q now p r s)) = ss_tickTimerId s"
  "ss_lastHeartbeatTime (snd (session_sendDirect Q now p r s)) = ss_lastHeartbeatTime s"
  by (simp_all add: session_sendDirect_def Let_def session_simps split: prod.split)

lemma checkState_started:
  "session_checkState stateStarted s = Normal None \<longleftrightarrow> ss_state s = stateStarted"
  by (auto simp: session_checkState_def Let_def)

end
