(* ===== verification/Timer_System.thy ===== *)
theory Timer_System
  imports Session
begin

text \<open>
  The interface \<open>TimerSystem\<close> of net/timer.go as a record of operations, and the contract the
  service relies on as a locale. \<open>TimerHeap\<close> (theory Timer_Heap) implements it.
\<close>

text \<open>\<open>StartTimer(delay, periodic, args, f)\<close> at time \<open>now\<close>; the callback is a parameter of the
  implementation's own model. \<open>StopTimer(tid)\<close> at time \<open>now\<close>.\<close>

record ('a, 't) timer_ops =
  ts_StartTimer :: "int64 \<Rightarrow> bool \<Rightarrow> 'a \<Rightarrow> int64 \<Rightarrow> 't \<Rightarrow> (timer_id \<times> 't) outcome"
  ts_StopTimer :: "timer_id \<Rightarrow> int64 \<Rightarrow> 't \<Rightarrow> 't outcome"

text \<open>Times and delays for which 64-bit arithmetic on nanoseconds is exact: the clock is below
  \<open>2 ^ 62\<close> (the year 2116) and no delay is longer than \<open>2 ^ 62\<close> (146 years).\<close>

definition sane_clock :: "int64 \<Rightarrow> bool" where
  "sane_clock now \<longleftrightarrow> 0 \<le> sint now \<and> sint now < 2 ^ 62"

definition sane_delay :: "int64 \<Rightarrow> bool" where
  "sane_delay d \<longleftrightarrow> 0 < sint d \<and> sint d < 2 ^ 62"

text \<open>\<open>live t\<close> gives the argument of every timer that has been started and not stopped or run
  out; \<open>room t\<close> says that another timer can be given an identifier not in use.\<close>

locale timer_system =
  fixes T :: "('a, 't) timer_ops"
    and inv :: "'t \<Rightarrow> bool"
    and room :: "'t \<Rightarrow> bool"
    and live :: "'t \<Rightarrow> timer_id \<rightharpoonup> 'a"
  assumes start_total: "inv t \<Longrightarrow> sane_clock now \<Longrightarrow> sane_delay delay \<Longrightarrow>
      \<exists>i t'. ts_StartTimer T delay periodic a now t = Normal (i, t')"
    and start_inv: "inv t \<Longrightarrow> room t \<Longrightarrow> sane_clock now \<Longrightarrow> sane_delay delay \<Longrightarrow>
      ts_StartTimer T delay periodic a now t = Normal (i, t') \<Longrightarrow> inv t'"
    and start_live: "inv t \<Longrightarrow> room t \<Longrightarrow> sane_clock now \<Longrightarrow> sane_delay delay \<Longrightarrow>
      ts_StartTimer T delay periodic a now t = Normal (i, t') \<Longrightarrow>
      live t' = (if i = TimerIdNone then live t else (live t)(i \<mapsto> a))"
    and start_fresh: "inv t \<Longrightarrow> room t \<Longrightarrow> sane_clock now \<Longrightarrow> sane_delay delay \<Longrightarrow>
      ts_StartTimer T delay periodic a now t = Normal (i, t') \<Longrightarrow> live t i = None"
    and stop_total: "inv t \<Longrightarrow> \<exists>t'. ts_StopTimer T i now t = Normal t'"
    and stop_inv: "inv t \<Longrightarrow> ts_StopTimer T i now t = Normal t' \<Longrightarrow> inv t'"
    and stop_live: "inv t \<Longrightarrow> ts_StopTimer T i now t = Normal t' \<Longrightarrow> live t' = (live t)(i := None)"
    and none_dead: "inv t \<Longrightarrow> live t TimerIdNone = None"
begin

lemma start_stop_live:
  assumes "inv t" and "room t" and "sane_clock now" and "sane_delay delay"
    and "ts_StartTimer T delay periodic a now t = Normal (i, t1)"
    and "ts_StopTimer T i now' t1 = Normal t2"
  shows "live t2 = live t"
  using start_inv [OF assms(1-5)] start_live [OF assms(1-5)] start_fresh [OF assms(1-5)]
    stop_live [OF _ assms(6)]
  by (auto simp: fun_eq_iff)

end

end
