(* ===== verification/Service.thy ===== *)
theory Service
  imports Establishment Timer_System
begin

text \<open>
  The service object (net/service.go), the session map (net/net.go) and the parts of the session
  object that reach into the service: start, close and the packet handlers (net/session.go,
  net/session_packet_handler.go).

  The state holds the fields of \<open>Service\<close> and, because sessions and establishments are shared
  through pointers, a store for either kind: an address is a number below the next free one.
  The service's mutex is taken and released within one function everywhere, so a function of
  the model is one critical section and no lock field is needed; the session's mutex is held
  across functions and is a field of the session.
\<close>

section \<open>State\<close>

text \<open>\<open>sv_listener\<close> is nil, or whether the listener is open. \<open>sv_cTickSessions\<close> is the buffered
  channel (its capacity is \<open>ExpectedConcurrentSessions\<close>), \<open>sv_cClosed\<close> whether that channel
  has been closed. \<open>sv_closedConns\<close> records the connections the code has closed and
  \<open>sv_delivered\<close> the calls of the user's \<open>OnSessionBytes\<close>, newest last.\<close>

record ('q, 't) service =
  sv_cfg :: service_config
  sv_hasBytesManager :: bool
  sv_listener :: "bool option"
  sv_state :: int
  sv_sessions :: "node_id \<rightharpoonup> sref"
  sv_establishments :: "node_id \<rightharpoonup> nat"
  sv_cTickSessions :: "node_id list"
  sv_cClosed :: bool
  sv_timers :: 't
  sv_sess :: "nat \<Rightarrow> 'q session"
  sv_sessNext :: nat
  sv_est :: "nat \<Rightarrow> establishment"
  sv_estNext :: nat
  sv_closedConns :: "conn set"
  sv_delivered :: "(node_id \<times> byte list) list"
  sv_sent :: "(conn \<times> hs_message) list"

text \<open>The third-party queue and the timer system of the configuration.\<close>

record ('q, 't) svc_env =
  env_Q :: "'q queue_ops"
  env_T :: "(node_id, 't) timer_ops"

definition sess_update :: "nat \<Rightarrow> ('q session \<Rightarrow> 'q session) \<Rightarrow> ('q, 't) service \<Rightarrow> ('q, 't) service" where
  "sess_update sid f w = w\<lparr>sv_sess := (sv_sess w)(sid := f (sv_sess w sid))\<rparr>"

definition close_conn :: "conn \<Rightarrow> ('q, 't) service \<Rightarrow> ('q, 't) service" where
  "close_conn c w = w\<lparr>sv_closedConns := insert c (sv_closedConns w)\<rparr>"

section \<open>The session map\<close>

definition sref_RemoteNodeId :: "('q, 't) service \<Rightarrow> sref \<Rightarrow> node_id" where
  "sref_RemoteNodeId w r =
     (case r of SLocal \<Rightarrow> cfg_NodeId (sv_cfg w) | SRemote sid \<Rightarrow> ss_remoteNodeId (sv_sess w sid))"

definition sessionMap_get :: "node_id \<Rightarrow> ('q, 't) service \<Rightarrow> sref option" where
  "sessionMap_get nodeId w = sv_sessions w nodeId"

definition sessionMap_add :: "sref \<Rightarrow> ('q, 't) service \<Rightarrow> ('q, 't) service" where
  "sessionMap_add r w = w\<lparr>sv_sessions := (sv_sessions w)(sref_RemoteNodeId w r \<mapsto> r)\<rparr>"

text \<open>\<open>sync.Map.CompareAndDelete\<close>.\<close>

definition map_compareAndDelete :: "'k \<Rightarrow> 'v \<Rightarrow> ('k \<rightharpoonup> 'v) \<Rightarrow> bool \<times> ('k \<rightharpoonup> 'v)" where
  "map_compareAndDelete k v m = (if m k = Some v then (True, m(k := None)) else (False, m))"

definition sessionMap_compareAndDelete :: "sref \<Rightarrow> ('q, 't) service \<Rightarrow> bool \<times> ('q, 't) service" where
  "sessionMap_compareAndDelete r w =
     (let (b, m) = map_compareAndDelete (sref_RemoteNodeId w r) r (sv_sessions w)
      in (b, w\<lparr>sv_sessions := m\<rparr>))"

section \<open>State of the service\<close>

text \<open>\<open>lockState(need, read)\<close>: the critical section it opens is the rest of the calling function's
  step, for readers and writers alike.\<close>

definition service_lockState :: "int \<Rightarrow> ('q, 't) service \<Rightarrow> gerror option outcome" where
  "service_lockState need w =
     (let state = sv_state w in
      if state = need then Normal None
      else if state = stateInit then Normal (Some ErrServiceNotStarted)
      else if state = stateStarted then Normal (Some ErrServiceStarted)
      else if state = stateClosed then Normal (Some ErrServiceClosed)
      else Panic ''invalid session manager state'')"

definition service_isClosed :: "('q, 't) service \<Rightarrow> bool" where
  "service_isClosed w \<longleftrightarrow> sv_state w \<ge> stateClosed"

section \<open>Tick timers\<close>

definition startSessionTicker ::
    "('q, 't) svc_env \<Rightarrow> int64 \<Rightarrow> node_id \<Rightarrow> ('q, 't) service \<Rightarrow> (timer_id \<times> ('q, 't) service) outcome" where
  "startSessionTicker E now remoteNodeId w =
     obind (service_lockState stateStarted w) (\<lambda>err.
       case err of Some _ \<Rightarrow> Normal (TimerIdNone, w)
       | None \<Rightarrow>
         obind (ts_StartTimer (env_T E) (word_of_int (sc_TickInterval (cfg_Session (sv_cfg w)))) True
                  remoteNodeId now (sv_timers w))
           (\<lambda>(tid, t). Normal (tid, w\<lparr>sv_timers := t\<rparr>)))"

definition stopSessionTicker ::
    "('q, 't) svc_env \<Rightarrow> int64 \<Rightarrow> timer_id \<Rightarrow> ('q, 't) service \<Rightarrow> ('q, 't) service outcome" where
  "stopSessionTicker E now tid w =
     obind (service_lockState stateStarted w) (\<lambda>err.
       case err of Some _ \<Rightarrow> Normal w
       | None \<Rightarrow> obind (ts_StopTimer (env_T E) tid now (sv_timers w)) (\<lambda>t. Normal (w\<lparr>sv_timers := t\<rparr>)))"

text \<open>The select of \<open>onSessionTicker\<close>: \<open>preferClosed\<close> is the choice the runtime makes when both
  cases are ready.\<close>

definition onSessionTicker ::
    "bool \<Rightarrow> node_id \<Rightarrow> ('q, 't) service \<Rightarrow> ('q, 't) service outcome" where
  "onSessionTicker preferClosed arg w =
     obind (service_lockState stateStarted w) (\<lambda>err.
       case err of Some _ \<Rightarrow> Normal w
       | None \<Rightarrow>
         (let room = int (length (sv_cTickSessions w)) < cfg_ExpectedConcurrentSessions (sv_cfg w) in
          if room \<and> \<not> (sv_cClosed w \<and> preferClosed) then
            Normal (w\<lparr>sv_cTickSessions := sv_cTickSessions w @ [arg]\<rparr>)
          else if sv_cClosed w then Normal w
          else Blocked))"

section \<open>Closing a session\<close>

definition onSessionClosed :: "sref \<Rightarrow> ('q, 't) service \<Rightarrow> ('q, 't) service" where
  "onSessionClosed r w = snd (sessionMap_compareAndDelete r w)"

text \<open>\<open>closeBaseLocked\<close>: the swap to the closed state is atomic, whoever loses returns at once
  (and, when it holds the lock, returns with the lock still held). \<open>core.Close()\<close> closes the
  connection of the session.\<close>

definition session_closeBaseLocked ::
    "('q, 't) svc_env \<Rightarrow> int64 \<Rightarrow> gerror \<Rightarrow> bool \<Rightarrow> nat \<Rightarrow> ('q, 't) service \<Rightarrow> ('q, 't) service outcome" where
  "session_closeBaseLocked E now err locked sid w =
     (let s = sv_sess w sid in
      if ss_state s = stateClosed then Normal w
      else if ss_chClose s then Panic ''close of closed channel''
      else if \<not> ss_core s then Panic ''nil pointer dereference''
      else
        let s1 = s\<lparr>ss_state := stateClosed\<rparr>;
            s2 = (if locked then session_unlockState s1 else s1);
            s3 = s2\<lparr>ss_chClose := True, ss_core := False,
                    ss_pendingPackets := q_close (env_Q E) (ss_pendingPackets s2)\<rparr>;
            w1 = close_conn (ss_conn s) (sess_update sid (\<lambda>_. s3) w)
        in obind (stopSessionTicker E now (ss_tickTimerId s3) w1) (\<lambda>w2.
             let w3 = sess_update sid (\<lambda>s. s\<lparr>ss_tickTimerId := TimerIdNone\<rparr>) w2
             in Normal (onSessionClosed (SRemote sid) w3)))"

definition session_close ::
    "('q, 't) svc_env \<Rightarrow> int64 \<Rightarrow> gerror \<Rightarrow> nat \<Rightarrow> ('q, 't) service \<Rightarrow> ('q, 't) service outcome" where
  "session_close E now err sid w = session_closeBaseLocked E now err False sid w"

section \<open>Starting a session\<close>

text \<open>\<open>coreErr\<close> is what \<open>core.Start()\<close> (gnet) answers. The write lock is released by the
  deferred call on every path.\<close>

definition session_start ::
    "('q, 't) svc_env \<Rightarrow> int64 \<Rightarrow> gerror option \<Rightarrow> nat \<Rightarrow> ('q, 't) service \<Rightarrow>
       (gerror option \<times> ('q, 't) service) outcome" where
  "session_start E now coreErr sid w =
     obind (session_lockState stateInit (sv_sess w sid)) (\<lambda>(err, s).
       case err of Some e \<Rightarrow> Normal (Some e, w)
       | None \<Rightarrow>
         (let w1 = sess_update sid (\<lambda>_. refreshActiveTime now s) w in
          obind (startSessionTicker E now (ss_remoteNodeId s) w1) (\<lambda>(tid, w2).
            let w3 = sess_update sid (\<lambda>s. s\<lparr>ss_tickTimerId := tid, ss_state := stateStarted\<rparr>) w2 in
            if \<not> ss_core (sv_sess w3 sid) then Panic ''nil pointer dereference''
            else case coreErr of
              None \<Rightarrow> Normal (None, sess_update sid session_unlockState w3)
            | Some e \<Rightarrow>
                obind (session_close E now e sid w3) (\<lambda>w4.
                  Normal (Some e, sess_update sid session_unlockState w4)))))"

section \<open>Session values: the local session and session objects\<close>

text \<open>Dynamic dispatch of the interface \<open>sessionImpl\<close>; \<open>handlerErr\<close> is what the user's
  \<open>OnSessionBytes\<close> answers.\<close>

definition service_onSessionBytes ::
    "gerror option \<Rightarrow> sref \<Rightarrow> byte list \<Rightarrow> ('q, 't) service \<Rightarrow> gerror option \<times> ('q, 't) service" where
  "service_onSessionBytes handlerErr r b w =
     (handlerErr, w\<lparr>sv_delivered := sv_delivered w @ [(sref_RemoteNodeId w r, b)]\<rparr>)"

definition sref_close ::
    "('q, 't) svc_env \<Rightarrow> int64 \<Rightarrow> gerror \<Rightarrow> sref \<Rightarrow> ('q, 't) service \<Rightarrow> ('q, 't) service outcome" where
  "sref_close E now err r w =
     (case r of SLocal \<Rightarrow> Normal w | SRemote sid \<Rightarrow> session_close E now err sid w)"

definition sref_keepActive ::
    "int64 \<Rightarrow> sref \<Rightarrow> ('q, 't) service \<Rightarrow> (gerror option \<times> ('q, 't) service) outcome" where
  "sref_keepActive now r w =
     (case r of SLocal \<Rightarrow> Normal (None, w)
      | SRemote sid \<Rightarrow>
          obind (session_keepActive now (sv_sess w sid)) (\<lambda>(err, s).
            Normal (err, sess_update sid (\<lambda>_. s) w)))"

definition sref_tick ::
    "('q, 't) svc_env \<Rightarrow> int64 \<Rightarrow> sref \<Rightarrow> ('q, 't) service \<Rightarrow> ('q, 't) service outcome" where
  "sref_tick E now r w =
     (case r of SLocal \<Rightarrow> Normal w
      | SRemote sid \<Rightarrow>
          obind (session_tick (env_Q E) (cfg_Session (sv_cfg w)) now (sv_sess w sid)) (\<lambda>s.
            Normal (sess_update sid (\<lambda>_. s) w)))"

definition sref_Send ::
    "('q, 't) svc_env \<Rightarrow> int64 \<Rightarrow> gerror option \<Rightarrow> byte list \<Rightarrow> sref \<Rightarrow> ('q, 't) service \<Rightarrow>
       (gerror option \<times> ('q, 't) service) outcome" where
  "sref_Send E now handlerErr b r w =
     (case r of SLocal \<Rightarrow> Normal (service_onSessionBytes handlerErr SLocal b w)
      | SRemote sid \<Rightarrow>
          obind (session_Send (env_Q E) (cfg_Session (sv_cfg w)) now b (sv_sess w sid)) (\<lambda>(err, s).
            Normal (err, sess_update sid (\<lambda>_. s) w)))"

section \<open>The service's operations\<close>

text \<open>\<open>Range\<close> visits the keys in some order, given here as a list; the map is read again at
  each key.\<close>

fun sessionMap_close ::
    "('q, 't) svc_env \<Rightarrow> int64 \<Rightarrow> gerror \<Rightarrow> node_id list \<Rightarrow> ('q, 't) service \<Rightarrow> ('q, 't) service outcome" where
  "sessionMap_close E now err [] w = Normal w"
| "sessionMap_close E now err (k # ks) w =
     (case sv_sessions w k of None \<Rightarrow> sessionMap_close E now err ks w
      | Some r \<Rightarrow>
          obind (sref_close E now err r w) (\<lambda>w1.
            let w2 = w1\<lparr>sv_sessions := snd (map_compareAndDelete k r (sv_sessions w1))\<rparr>
            in sessionMap_close E now err ks w2))"

text \<open>The options: a bytes manager; the logger option has no effect in the model.\<close>

datatype service_option = WithServiceBytesManager bool | WithServiceLogger

fun apply_service_option :: "service_option \<Rightarrow> ('q, 't) service \<Rightarrow> ('q, 't) service" where
  "apply_service_option (WithServiceBytesManager bm) w = w\<lparr>sv_hasBytesManager := bm\<rparr>"
| "apply_service_option WithServiceLogger w = w"

text \<open>\<open>timers0\<close> is the state of the timer system the configuration names, \<open>sess0\<close> and \<open>est0\<close>
  the contents of the stores before anything is allocated in them.\<close>

definition CreateService ::
    "service_config option \<Rightarrow> bool \<Rightarrow> service_option list \<Rightarrow> 't \<Rightarrow> (nat \<Rightarrow> 'q session) \<Rightarrow>
       (nat \<Rightarrow> establishment) \<Rightarrow> gerror + ('q, 't) service" where
  "CreateService cfgp handlerNil options timers0 sess0 est0 =
     (case ServiceConfig_init_ptr cfgp of
        (_, Some e) \<Rightarrow> Inl e
      | (None, None) \<Rightarrow> Inl (ErrText ''service config nil'' [])
      | (Some cfg, None) \<Rightarrow>
          if handlerNil then Inl (ErrText ''sessionHandler nil'' [])
          else
            let w = \<lparr>sv_cfg = cfg, sv_hasBytesManager = False, sv_listener = None,
                     sv_state = stateInit, sv_sessions = Map.empty, sv_establishments = Map.empty,
                     sv_cTickSessions = [], sv_cClosed = False, sv_timers = timers0,
                     sv_sess = sess0, sv_sessNext = 0, sv_est = est0, sv_estNext = 0,
                     sv_closedConns = {}, sv_delivered = [], sv_sent = []\<rparr>
            in Inr (fold apply_service_option options (sessionMap_add SLocal w)))"

definition service_Start ::
    "gerror option \<Rightarrow> ('q, 't) service \<Rightarrow> (gerror option \<times> ('q, 't) service) outcome" where
  "service_Start listenErr w =
     obind (service_lockState stateInit w) (\<lambda>err.
       case err of Some e \<Rightarrow> Normal (Some e, w)
       | None \<Rightarrow> (case listenErr of
           Some e \<Rightarrow> Normal (Some (WithMessage e ''create listener''), w)
         | None \<Rightarrow> Normal (None, w\<lparr>sv_listener := Some True, sv_state := stateStarted\<rparr>)))"

text \<open>\<open>Close\<close> in its two phases: the change of state under the lock, and what follows it.\<close>

definition service_Close_mark ::
    "('q, 't) service \<Rightarrow> (gerror option \<times> ('q, 't) service) outcome" where
  "service_Close_mark w =
     obind (service_lockState stateStarted w) (\<lambda>err.
       case err of Some e \<Rightarrow> Normal (Some e, w)
       | None \<Rightarrow> Normal (None, w\<lparr>sv_state := stateClosed\<rparr>))"

definition service_Close_rest ::
    "('q, 't) svc_env \<Rightarrow> int64 \<Rightarrow> node_id list \<Rightarrow> ('q, 't) service \<Rightarrow> ('q, 't) service outcome" where
  "service_Close_rest E now order w =
     (if sv_cClosed w then Panic ''close of closed channel''
      else
        let w1 = w\<lparr>sv_cClosed := True\<rparr>;
            w2 = (case sv_listener w1 of None \<Rightarrow> w1 | Some _ \<Rightarrow> w1\<lparr>sv_listener := Some False\<rparr>)
        in sessionMap_close E now ErrServiceClosed order w2)"

definition service_Close ::
    "('q, 't) svc_env \<Rightarrow> int64 \<Rightarrow> node_id list \<Rightarrow> ('q, 't) service \<Rightarrow>
       (gerror option \<times> ('q, 't) service) outcome" where
  "service_Close E now order w =
     obind (service_Close_mark w) (\<lambda>(err, w1).
       case err of Some e \<Rightarrow> Normal (Some e, w1)
       | None \<Rightarrow> obind (service_Close_rest E now order w1) (\<lambda>w2. Normal (None, w2)))"

definition service_getSession ::
    "int64 \<Rightarrow> node_id \<Rightarrow> ('q, 't) service \<Rightarrow> (sref option \<times> ('q, 't) service) outcome" where
  "service_getSession now nodeId w =
     (case sessionMap_get nodeId w of
        None \<Rightarrow> Normal (None, w)
      | Some r \<Rightarrow> obind (sref_keepActive now r w) (\<lambda>(err, w1).
          case err of None \<Rightarrow> Normal (Some r, w1) | Some _ \<Rightarrow> Normal (None, w1)))"

definition service_GetSession ::
    "int64 \<Rightarrow> node_id \<Rightarrow> ('q, 't) service \<Rightarrow> (sref option \<times> ('q, 't) service) outcome" where
  "service_GetSession now nodeId w =
     obind (service_lockState stateStarted w) (\<lambda>err.
       case err of Some _ \<Rightarrow> Normal (None, w) | None \<Rightarrow> service_getSession now nodeId w)"

text \<open>One turn of \<open>loop\<close>; \<open>None\<close> when the loop returns.\<close>

definition service_loop_turn ::
    "('q, 't) svc_env \<Rightarrow> bool \<Rightarrow> int64 \<Rightarrow> ('q, 't) service \<Rightarrow> ('q, 't) service option outcome" where
  "service_loop_turn E preferClosed now w =
     (if sv_cTickSessions w \<noteq> [] \<and> \<not> (sv_cClosed w \<and> preferClosed) then
        (let nodeId = hd (sv_cTickSessions w);
             w1 = w\<lparr>sv_cTickSessions := tl (sv_cTickSessions w)\<rparr>
         in case sessionMap_get nodeId w1 of None \<Rightarrow> Normal (Some w1)
            | Some r \<Rightarrow> obind (sref_tick E now r w1) (\<lambda>w2. Normal (Some w2)))
      else if sv_cClosed w then Normal None
      else Blocked)"

section \<open>Packets received on a session\<close>

text \<open>\<open>sessionHandle..\<close> of net/session_packet_handler.go. The result is the error the handler
  returns to the packet loop of gnet.\<close>

definition sessionHandleHeartbeat ::
    "('q, 't) svc_env \<Rightarrow> int64 \<Rightarrow> byte \<Rightarrow> nat \<Rightarrow> ('q, 't) service \<Rightarrow>
       (gerror option \<times> ('q, 't) service) outcome" where
  "sessionHandleHeartbeat E now b sid w =
     (if heartbeat_ping b then
        obind (session_send (env_Q E) (cfg_Session (sv_cfg w)) now
                 (Some (HeartbeatPacket (heartbeat_setPong b))) False (sv_sess w sid)) (\<lambda>(_, s).
          Normal (None, sess_update sid (\<lambda>_. s) w))
      else Normal (None, w))"

definition sessionHandleCloseReq ::
    "('q, 't) svc_env \<Rightarrow> int64 \<Rightarrow> nat \<Rightarrow> ('q, 't) service \<Rightarrow>
       (gerror option \<times> ('q, 't) service) outcome" where
  "sessionHandleCloseReq E now sid w =
     obind (session_lockState stateStarted (sv_sess w sid)) (\<lambda>(err, s).
       case err of Some _ \<Rightarrow> Normal (None, w)
       | None \<Rightarrow>
         if \<not> session_inactive (cfg_Session (sv_cfg w)) now s then
           (let resp = CloseRespPacket (closeResp_setPass False 0);
                s1 = snd (session_sendDirect (env_Q E) now resp False s)
            in Normal (None, sess_update sid (\<lambda>_. session_unlockState s1) w))
         else
           obind (session_closeBaseLocked E now ErrInactiveClosed True sid (sess_update sid (\<lambda>_. s) w))
             (\<lambda>w1. Normal (None, w1)))"

definition sessionHandleCloseResp ::
    "('q, 't) svc_env \<Rightarrow> int64 \<Rightarrow> byte \<Rightarrow> nat \<Rightarrow> ('q, 't) service \<Rightarrow>
       (gerror option \<times> ('q, 't) service) outcome" where
  "sessionHandleCloseResp E now b sid w =
     (if \<not> closeResp_pass b then Normal (None, w)
      else obind (session_close E now ErrInactiveClosed sid w) (\<lambda>w1. Normal (None, w1)))"

definition sessionHandleRaw ::
    "int64 \<Rightarrow> gerror option \<Rightarrow> byte list \<Rightarrow> nat \<Rightarrow> ('q, 't) service \<Rightarrow>
       gerror option \<times> ('q, 't) service" where
  "sessionHandleRaw now handlerErr p sid w =
     service_onSessionBytes handlerErr (SRemote sid) p (sess_update sid (refreshActiveTime now) w)"

text \<open>\<open>SessionOnPacket\<close>: the handler table has an entry for every packet kind, and the type
  assertion of the wrapper succeeds because the entry is chosen by the packet's own type.\<close>

definition SessionOnPacket ::
    "('q, 't) svc_env \<Rightarrow> int64 \<Rightarrow> gerror option \<Rightarrow> packet \<Rightarrow> nat \<Rightarrow> ('q, 't) service \<Rightarrow>
       (gerror option \<times> ('q, 't) service) outcome" where
  "SessionOnPacket E now handlerErr p sid w =
     (case p of
        HeartbeatPacket b \<Rightarrow> sessionHandleHeartbeat E now b sid w
      | CloseReqPacket \<Rightarrow> sessionHandleCloseReq E now sid w
      | CloseRespPacket b \<Rightarrow> sessionHandleCloseResp E now b sid w
      | RawPacket bs \<Rightarrow> Normal (sessionHandleRaw now handlerErr bs sid w))"

definition SessionOnClosed ::
    "('q, 't) svc_env \<Rightarrow> int64 \<Rightarrow> gerror \<Rightarrow> nat \<Rightarrow> ('q, 't) service \<Rightarrow> ('q, 't) service outcome" where
  "SessionOnClosed E now err sid w = session_close E now err sid w"

end
