(* ===== verification/Session_Correct.thy ===== *)
theory Session_Correct
  imports Service
begin

text \<open>
  What the session object and the service promise, operation by operation: the state a session
  can be in, sending, ticks and closing.
\<close>

section \<open>The states of a session\<close>

text \<open>The state is one of the three, and the channel \<open>chClose\<close> and the pointer \<open>core\<close> tell whether
  the session has been closed.\<close>

definition session_wf :: "'q session \<Rightarrow> bool" where
  "session_wf s \<longleftrightarrow>
     ss_state s \<in> {stateInit, stateStarted, stateClosed} \<and>
     ss_chClose s = (ss_state s = stateClosed) \<and> ss_core s = (ss_state s \<noteq> stateClosed)"

lemma session_wf_new: "session_wf (newSession Q cfg n a c)"
  by (simp add: session_wf_def newSession_def state_simps)

lemma checkState_wf:
  assumes "session_wf s" and "need \<in> {stateInit, stateStarted, stateClosed}"
  shows "session_checkState need s = Normal (
    if ss_state s = need then None
    else Some (if ss_state s = stateInit then ErrSessionNotStarted
               else if ss_state s = stateStarted then ErrSessionStarted else ErrSessionClosed))"
  using assms by (auto simp: session_wf_def session_checkState_def Let_def state_simps)

lemma session_wf_cong:
  "ss_state s' = ss_state s \<Longrightarrow> ss_chClose s' = ss_chClose s \<Longrightarrow> ss_core s' = ss_core s \<Longrightarrow>
     session_wf s' = session_wf s"
  by (simp add: session_wf_def)

lemma session_wf_ops [session_simps]:
  "session_wf (refreshActiveTime now s) = session_wf s"
  "session_wf (session_unlockState s) = session_wf s"
  "session_wf (s\<lparr>ss_wlocked := b\<rparr>) = session_wf s"
  "session_wf (s\<lparr>ss_lastHeartbeatTime := t\<rparr>) = session_wf s"
  "session_wf (s\<lparr>ss_tickTimerId := i\<rparr>) = session_wf s"
  "session_wf (snd (session_sendDirect Q now p r s)) = session_wf s"
  by (simp_all add: session_wf_def session_simps session_unlockState_def)

section \<open>Sending\<close>

text \<open>What a packet appended to the queue does to the session.\<close>

lemma sendDirect_queue:
  assumes "queue_laws Q items"
  shows "(session_sendDirect Q now p r s = (Some ErrPendingPacketsFull, s') \<longrightarrow>
            items (ss_pendingPackets s') = items (ss_pendingPackets s)) \<and>
         (session_sendDirect Q now p r s = (None, s') \<longrightarrow>
            items (ss_pendingPackets s') = items (ss_pendingPackets s) @ [p])"
proof -
  have "items (snd (q_enqueue Q p q)) = (if fst (q_enqueue Q p q) then items q @ [p] else items q)" for q
    using assms by (simp add: queue_laws_def)
  from this [of "ss_pendingPackets s"] show ?thesis
    by (cases "q_enqueue Q p (ss_pendingPackets s)")
      (auto simp: session_sendDirect_def Let_def session_simps split: if_splits)
qed

text \<open>A session with nobody waiting for a notification: a packet can only go into the queue.\<close>

lemma sendDirect_result:
  "fst (session_sendDirect Q now p r s) =
     (if fst (q_enqueue Q p (ss_pendingPackets s)) then None else Some ErrPendingPacketsFull)"
  by (simp add: session_sendDirect_def Let_def split: prod.split)

lemma sendDirect_notifies:
  "fst (session_sendDirect Q now p r s) = None \<Longrightarrow> ss_waitNotify s \<Longrightarrow>
     ss_notify (snd (session_sendDirect Q now p r s))"
  by (auto simp: session_sendDirect_def Let_def session_simps split: prod.splits if_splits)

lemma send_started:
  assumes "ss_state s = stateStarted" and "int (length (packet_Data p)) \<le> sc_MaxPacketLength cfg"
  shows "session_send Q cfg now (Some p) r s = Normal (session_sendDirect Q now p r s)"
  using assms by (simp add: session_send_def session_checkState_def Let_def)

section \<open>Closing\<close>

text \<open>What a close that wins leaves of the session.\<close>

definition closed_session :: "'q queue_ops \<Rightarrow> bool \<Rightarrow> 'q session \<Rightarrow> 'q session" where
  "closed_session Q locked s =
     s\<lparr>ss_state := stateClosed, ss_wlocked := (if locked then False else ss_wlocked s),
       ss_chClose := True, ss_core := False,
       ss_pendingPackets := q_close Q (ss_pendingPackets s), ss_tickTimerId := TimerIdNone\<rparr>"

lemma closed_session_wf [simp]: "session_wf (closed_session Q l s)"
  by (simp add: closed_session_def session_wf_def)

lemma closed_session_fields [simp]:
  "ss_state (closed_session Q l s) = stateClosed"
  "ss_remoteNodeId (closed_session Q l s) = ss_remoteNodeId s"
  "ss_conn (closed_session Q l s) = ss_conn s"
  "ss_wlocked (closed_session Q l s) = (if l then False else ss_wlocked s)"
  "ss_core (closed_session Q l s) = False"
  by (simp_all add: closed_session_def)

text \<open>The timer system after \<open>stopSessionTicker\<close>: untouched unless the service is started.\<close>

definition stopped_timers ::
    "('q, 't) svc_env \<Rightarrow> int64 \<Rightarrow> timer_id \<Rightarrow> ('q, 't) service \<Rightarrow> 't outcome" where
  "stopped_timers E now tid w =
     (if sv_state w = stateStarted then ts_StopTimer (env_T E) tid now (sv_timers w)
      else Normal (sv_timers w))"

text \<open>The states of the service.\<close>

definition svc_state_ok :: "('q, 't) service \<Rightarrow> bool" where
  "svc_state_ok w \<longleftrightarrow> sv_state w \<in> {stateInit, stateStarted, stateClosed}"

lemma lockState_ok:
  "svc_state_ok w \<Longrightarrow> need \<in> {stateInit, stateStarted, stateClosed} \<Longrightarrow>
   service_lockState need w = Normal (
     if sv_state w = need then None
     else Some (if sv_state w = stateInit then ErrServiceNotStarted
                else if sv_state w = stateStarted then ErrServiceStarted else ErrServiceClosed))"
  by (auto simp: svc_state_ok_def service_lockState_def Let_def state_simps)

lemma stopSessionTicker_eq:
  assumes "svc_state_ok w"
  shows "stopSessionTicker E now tid w =
     obind (stopped_timers E now tid w) (\<lambda>t. Normal (w\<lparr>sv_timers := t\<rparr>))"
  using assms by (auto simp: stopSessionTicker_def lockState_ok stopped_timers_def)

text \<open>Closing a session that is not closed, as one update of the service.\<close>

definition after_close ::
    "'q queue_ops \<Rightarrow> bool \<Rightarrow> nat \<Rightarrow> 't \<Rightarrow> ('q, 't) service \<Rightarrow> ('q, 't) service" where
  "after_close Q locked sid t w =
     w\<lparr>sv_sess := (sv_sess w)(sid := closed_session Q locked (sv_sess w sid)),
       sv_closedConns := insert (ss_conn (sv_sess w sid)) (sv_closedConns w),
       sv_timers := t,
       sv_sessions := snd (map_compareAndDelete (ss_remoteNodeId (sv_sess w sid)) (SRemote sid)
                             (sv_sessions w))\<rparr>"

lemma closeBaseLocked_eq:
  assumes "svc_state_ok w" and "session_wf (sv_sess w sid)"
  shows "session_closeBaseLocked E now err locked sid w =
     (if ss_state (sv_sess w sid) = stateClosed then Normal w
      else obind (stopped_timers E now (ss_tickTimerId (sv_sess w sid)) w)
             (\<lambda>t. Normal (after_close (env_Q E) locked sid t w)))"
proof (cases "ss_state (sv_sess w sid) = stateClosed")
  case False
  let ?s = "sv_sess w sid"
  let ?w1 = "w\<lparr>sv_sess := (sv_sess w)(sid := ?s\<lparr>ss_state := stateClosed,
        ss_wlocked := (if locked then False else ss_wlocked ?s), ss_chClose := True, ss_core := False,
        ss_pendingPackets := q_close (env_Q E) (ss_pendingPackets ?s)\<rparr>),
      sv_closedConns := insert (ss_conn ?s) (sv_closedConns w)\<rparr>"
  have "session_closeBaseLocked E now err locked sid w =
      obind (stopSessionTicker E now (ss_tickTimerId ?s) ?w1) (\<lambda>w2.
        Normal (onSessionClosed (SRemote sid)
          (sess_update sid (\<lambda>s. s\<lparr>ss_tickTimerId := TimerIdNone\<rparr>) w2)))"
    using False assms(2)
    by (cases locked) (simp_all add: session_closeBaseLocked_def session_wf_def Let_def
        sess_update_def close_conn_def session_unlockState_def)
  also have "\<dots> = obind (stopped_timers E now (ss_tickTimerId ?s) w) (\<lambda>t.
      Normal (onSessionClosed (SRemote sid)
        (sess_update sid (\<lambda>s. s\<lparr>ss_tickTimerId := TimerIdNone\<rparr>) (?w1\<lparr>sv_timers := t\<rparr>))))"
    using assms(1) stopSessionTicker_eq [of ?w1]
    by (simp add: svc_state_ok_def stopped_timers_def obind_assoc)
  also have "(\<lambda>t. Normal (onSessionClosed (SRemote sid)
        (sess_update sid (\<lambda>s. s\<lparr>ss_tickTimerId := TimerIdNone\<rparr>) (?w1\<lparr>sv_timers := t\<rparr>)))) =
      (\<lambda>t. Normal (after_close (env_Q E) locked sid t w))"
    by (rule ext) (simp add: onSessionClosed_def sessionMap_compareAndDelete_def sref_RemoteNodeId_def
        sess_update_def after_close_def closed_session_def case_prod_beta)
  finally show ?thesis using False by simp
qed (simp add: session_closeBaseLocked_def)

end
