(* ===== verification/Establish.thy ===== *)
theory Establish
  imports Service
begin

text \<open>
  How a session is established (net/service_establish.go, lines 17 to 584): \<open>Connect\<close> on the
  active side, \<open>onPassiveConn\<close> on the passive side, and the decision in which both meet.

  Every goroutine is a program counter (\<open>pc\<close>) with its local variables; \<open>thread_step\<close> runs it
  to the next point where another goroutine can come in between: a critical section, a call of
  the service, or one read or write of the connection. What the environment answers at that
  point (the dialer, the network, \<open>core.Start\<close>) is an argument, so the function is
  deterministic and executable. Theory Establish_Steps interleaves these steps.
\<close>

section \<open>Finding or creating the establishment\<close>

definition est_update ::
    "nat \<Rightarrow> (establishment \<Rightarrow> establishment) \<Rightarrow> ('q, 't) service \<Rightarrow> ('q, 't) service" where
  "est_update eid f w = w\<lparr>sv_est := (sv_est w)(eid := f (sv_est w eid))\<rparr>"

text \<open>\<open>missed\<close>: the first \<open>Load\<close> came before another goroutine stored the entry that
  \<open>LoadOrStore\<close> then finds; the establishment made in vain has its channel closed.\<close>

definition getOrCreateEstablishment ::
    "bool \<Rightarrow> node_id \<Rightarrow> ('q, 't) service \<Rightarrow> nat \<times> ('q, 't) service" where
  "getOrCreateEstablishment missed remoteNodeId w =
     (case sv_establishments w remoteNodeId of
        Some eid \<Rightarrow>
          if \<not> missed then (eid, w)
          else
            let ec = (new_establishment remoteNodeId)\<lparr>em_chEnd := True\<rparr>
            in (eid, w\<lparr>sv_est := (sv_est w)(sv_estNext w := ec), sv_estNext := Suc (sv_estNext w)\<rparr>)
      | None \<Rightarrow>
          (sv_estNext w,
           w\<lparr>sv_est := (sv_est w)(sv_estNext w := new_establishment remoteNodeId),
             sv_estNext := Suc (sv_estNext w),
             sv_establishments := (sv_establishments w)(remoteNodeId \<mapsto> sv_estNext w)\<rparr>))"

section \<open>The end of an establishment\<close>

text \<open>The switch of \<open>establishEnd\<close>: the connection and the side that stay, or the error, and the
  connection that loses when both sides succeeded.\<close>

record end_choice =
  ec_conn :: "conn option"
  ec_active :: bool
  ec_err :: "gerror option"
  ec_loser :: "conn option"

definition establishEnd_choice :: "node_id \<Rightarrow> establishment \<Rightarrow> end_choice" where
  "establishEnd_choice self es =
     (let none = \<lparr>ec_conn = None, ec_active = False, ec_err = None, ec_loser = None\<rparr> in
      if em_isActiveSuccess es \<and> (\<not> em_isPassiveStarted es \<or> em_isPassiveFail es) then
        none\<lparr>ec_conn := em_activeConn es, ec_active := True\<rparr>
      else if em_isPassiveSuccess es \<and> (\<not> em_isActiveStarted es \<or> em_isActiveFail es) then
        none\<lparr>ec_conn := em_passiveConn es\<rparr>
      else if em_isActiveSuccess es \<and> em_isPassiveSuccess es then
        (if em_whichStartEarlier (self < em_remoteNodeId es) es = 1 then
           none\<lparr>ec_conn := em_activeConn es, ec_active := True, ec_loser := em_passiveConn es\<rparr>
         else none\<lparr>ec_conn := em_passiveConn es, ec_loser := em_activeConn es\<rparr>)
      else if em_isActiveFail es \<and> \<not> em_isPassiveStarted es then
        none\<lparr>ec_err := em_activeErr es\<rparr>
      else if em_isPassiveFail es \<and> \<not> em_isActiveStarted es then
        none\<lparr>ec_err := em_passiveErr es\<rparr>
      else if em_isActiveFail es \<and> em_isPassiveFail es then
        (if em_whichStartEarlier (self < em_remoteNodeId es) es = 1 then
           none\<lparr>ec_err := em_activeErr es\<rparr>
         else none\<lparr>ec_err := em_passiveErr es\<rparr>)
      else none\<lparr>ec_err := Some (ErrText
             ''unknown end status, activeState: %d, passiveState: %d''
             [em_activeState es, em_passiveState es])\<rparr>)"

definition establishEndFailed ::
    "gerror \<Rightarrow> nat \<Rightarrow> ('q, 't) service \<Rightarrow> ('q, 't) service outcome" where
  "establishEndFailed err eid w =
     obind (em_end None (Some err) (sv_est w eid)) (\<lambda>es.
       let w1 = est_update eid (\<lambda>_. es) w in
       Normal (w1\<lparr>sv_establishments :=
         snd (map_compareAndDelete (em_remoteNodeId es) eid (sv_establishments w1))\<rparr>))"

text \<open>\<open>establishEndCreateSession\<close> in its four parts. Each of the first three answers the address of
  the session with which to go on, or \<open>None\<close> when it has ended the establishment itself.\<close>

definition ecs_start ::
    "('q, 't) svc_env \<Rightarrow> int64 \<Rightarrow> gerror option \<Rightarrow> conn \<Rightarrow> bool \<Rightarrow> nat \<Rightarrow> ('q, 't) service \<Rightarrow>
       (nat option \<times> ('q, 't) service) outcome" where
  "ecs_start E now coreErr c active eid w =
     (let sid = sv_sessNext w;
          s = newSession (env_Q E) (cfg_Session (sv_cfg w)) (em_remoteNodeId (sv_est w eid)) active c;
          w1 = w\<lparr>sv_sess := (sv_sess w)(sid := s), sv_sessNext := Suc sid\<rparr>
      in obind (session_start E now coreErr sid w1) (\<lambda>(err, w2).
           case err of None \<Rightarrow> Normal (Some sid, w2)
           | Some e \<Rightarrow> obind (establishEndFailed e eid (close_conn c w2)) (\<lambda>w3. Normal (None, w3))))"

definition ecs_check ::
    "nat \<Rightarrow> nat \<Rightarrow> ('q, 't) service \<Rightarrow> (nat option \<times> ('q, 't) service) outcome" where
  "ecs_check eid sid w =
     obind (session_lockState stateStarted (sv_sess w sid)) (\<lambda>(err, s).
       case err of None \<Rightarrow> Normal (Some sid, sess_update sid (\<lambda>_. s) w)
       | Some e \<Rightarrow> obind (establishEndFailed e eid w) (\<lambda>w1. Normal (None, w1)))"

definition ecs_commit ::
    "('q, 't) svc_env \<Rightarrow> int64 \<Rightarrow> nat \<Rightarrow> nat \<Rightarrow> ('q, 't) service \<Rightarrow>
       (nat option \<times> ('q, 't) service) outcome" where
  "ecs_commit E now eid sid w =
     obind (service_lockState stateStarted w) (\<lambda>err.
       case err of
         Some e \<Rightarrow>
           obind (session_close E now e sid (sess_update sid session_unlockState w)) (\<lambda>w1.
             obind (establishEndFailed e eid w1) (\<lambda>w2. Normal (None, w2)))
       | None \<Rightarrow>
           let w1 = sess_update sid session_unlockState (sessionMap_add (SRemote sid) w) in
           Normal (Some sid, w1\<lparr>sv_establishments :=
             snd (map_compareAndDelete (em_remoteNodeId (sv_est w1 eid)) eid (sv_establishments w1))\<rparr>))"

definition ecs_finish :: "nat \<Rightarrow> nat \<Rightarrow> ('q, 't) service \<Rightarrow> ('q, 't) service outcome" where
  "ecs_finish eid sid w =
     obind (em_end (Some (SRemote sid)) None (sv_est w eid)) (\<lambda>es. Normal (est_update eid (\<lambda>_. es) w))"

text \<open>The whole function, run without interruption; \<open>es.mutex\<close> is held throughout.\<close>

definition establishEndCreateSession ::
    "('q, 't) svc_env \<Rightarrow> int64 \<Rightarrow> gerror option \<Rightarrow> conn \<Rightarrow> bool \<Rightarrow> nat \<Rightarrow> ('q, 't) service \<Rightarrow>
       ('q, 't) service outcome" where
  "establishEndCreateSession E now coreErr c active eid w =
     obind (ecs_start E now coreErr c active eid w) (\<lambda>(r1, w1).
       case r1 of None \<Rightarrow> Normal w1
       | Some sid \<Rightarrow> obind (ecs_check eid sid w1) (\<lambda>(r2, w2).
           case r2 of None \<Rightarrow> Normal w2
           | Some _ \<Rightarrow> obind (ecs_commit E now eid sid w2) (\<lambda>(r3, w3).
               case r3 of None \<Rightarrow> Normal w3 | Some _ \<Rightarrow> ecs_finish eid sid w3)))"

text \<open>\<open>establishEnd\<close>. A session cannot be made of a nil connection: the code reads the address of
  the connection before (\<open>RemoteAddr()\<close>), which panics on nil.\<close>

definition establishEnd ::
    "('q, 't) svc_env \<Rightarrow> int64 \<Rightarrow> gerror option \<Rightarrow> nat \<Rightarrow> ('q, 't) service \<Rightarrow> ('q, 't) service outcome" where
  "establishEnd E now coreErr eid w =
     (let es = sv_est w eid in
      if em_isEnd es then Normal w
      else
        let ch = establishEnd_choice (cfg_NodeId (sv_cfg w)) es;
            w1 = (case ec_loser ch of None \<Rightarrow> w | Some l \<Rightarrow> close_conn l w)
        in case ec_err ch of
             Some e \<Rightarrow> establishEndFailed e eid w1
           | None \<Rightarrow> (case ec_conn ch of
               None \<Rightarrow> Panic ''nil pointer dereference''
             | Some c \<Rightarrow> establishEndCreateSession E now coreErr c (ec_active ch) eid w1))"

section \<open>Goroutines\<close>

datatype role = ActiveSide | PassiveSide

text \<open>
  \<open>C_\<close>: \<open>Connect\<close>; \<open>A_\<close>: the active establishing functions it calls; \<open>P_\<close>: \<open>onPassiveConn\<close> and the
  passive establishing functions; \<open>E_\<close>: the end of an establishment, with the mutex of the
  establishment held. A number is the address of an establishment, a \<open>conn\<close> the connection.
\<close>

datatype pc =
    C_Enter
  | C_Obtain
  | C_Wait nat
  | C_Done "sref option" "gerror option"
  | A_Start nat
  | A_Check nat
  | A_EndWith nat sref
  | A_Dial nat
  | A_Handshake nat conn
  | A_WriteApply nat conn
  | A_ReadResp nat conn
  | A_About nat conn
  | A_WriteCompleted nat conn
  | A_ReadAck nat conn
  | A_Success nat conn
  | A_Fail nat "conn option" gerror
  | P_ReadApply conn
  | P_Obtain conn node_id int
  | P_Start nat conn int
  | P_Check nat conn
  | P_EndWith nat sref
  | P_WriteAccepted nat conn
  | P_ReadReply nat conn
  | P_WriteAck nat conn
  | P_Success nat conn
  | P_Fail nat conn gerror
  | P_Wait nat
  | P_Done
  | E_Create role nat conn bool
  | E_Check role nat nat
  | E_Commit role nat nat
  | E_Finish role nat nat

text \<open>The answers of the environment: none needed (\<open>Go\<close>), an operation on the network that fails
  or succeeds, a dialled connection, a received message, the answer of \<open>core.Start\<close>.\<close>

datatype answer =
    Go
  | IoErr
  | IoOk
  | DialOk conn
  | Recv hs_message
  | CoreStart "gerror option"

fun wait_pc :: "role \<Rightarrow> nat \<Rightarrow> pc" where
  "wait_pc ActiveSide eid = C_Wait eid"
| "wait_pc PassiveSide eid = P_Wait eid"

definition hs_write :: "conn \<Rightarrow> hs_message \<Rightarrow> ('q, 't) service \<Rightarrow> ('q, 't) service" where
  "hs_write c m w = w\<lparr>sv_sent := sv_sent w @ [(c, m)]\<rparr>"

text \<open>\<open>writeRejected\<close>: its error is ignored.\<close>

definition write_rejected :: "conn \<Rightarrow> int \<Rightarrow> ('q, 't) service \<Rightarrow> ('q, 't) service" where
  "write_rejected c reason w = hs_write c (HSRejected reason) w"

definition es_lock :: "nat \<Rightarrow> ('q, 't) service \<Rightarrow> ('q, 't) service" where
  "es_lock eid w = est_update eid (\<lambda>es. es\<lparr>em_locked := True\<rparr>) w"

definition es_unlock :: "nat \<Rightarrow> ('q, 't) service \<Rightarrow> ('q, 't) service" where
  "es_unlock eid w = est_update eid (\<lambda>es. es\<lparr>em_locked := False\<rparr>) w"

text \<open>The beginning of \<open>establishEnd\<close>, called inside the critical section that found the other
  side finished: either the establishment has failed, or its mutex stays held while the session
  is made.\<close>

definition establishEnd_enter ::
    "role \<Rightarrow> nat \<Rightarrow> ('q, 't) service \<Rightarrow> (pc \<times> ('q, 't) service) outcome" where
  "establishEnd_enter role eid w =
     (let es = sv_est w eid in
      if em_isEnd es then Normal (wait_pc role eid, w)
      else
        let ch = establishEnd_choice (cfg_NodeId (sv_cfg w)) es;
            w1 = (case ec_loser ch of None \<Rightarrow> w | Some l \<Rightarrow> close_conn l w)
        in case ec_err ch of
             Some e \<Rightarrow> obind (establishEndFailed e eid w1) (\<lambda>w2. Normal (wait_pc role eid, w2))
           | None \<Rightarrow> (case ec_conn ch of
               None \<Rightarrow> Panic ''nil pointer dereference''
             | Some c \<Rightarrow> Normal (E_Create role eid c (ec_active ch), es_lock eid w1)))"

text \<open>The critical sections of \<open>activeEstablishSuccess\<close>, \<open>activeEstablishFail\<close> and their passive
  counterparts, up to the point where a session is to be made.\<close>

definition activeEstablishSuccess ::
    "nat \<Rightarrow> conn \<Rightarrow> ('q, 't) service \<Rightarrow> (pc \<times> ('q, 't) service) outcome" where
  "activeEstablishSuccess eid c w =
     (if em_locked (sv_est w eid) then Blocked
      else
        let (ok, es) = em_activeSuccess c (sv_est w eid);
            w1 = est_update eid (\<lambda>_. es) w
        in if \<not> ok then Normal (C_Wait eid, close_conn c w1)
           else if em_isPassiveEstablishing es then Normal (C_Wait eid, w1)
           else establishEnd_enter ActiveSide eid w1)"

definition activeEstablishFail ::
    "nat \<Rightarrow> conn option \<Rightarrow> gerror \<Rightarrow> ('q, 't) service \<Rightarrow> (pc \<times> ('q, 't) service) outcome" where
  "activeEstablishFail eid co err w =
     (if em_locked (sv_est w eid) then Blocked
      else
        let w0 = (case co of None \<Rightarrow> w | Some c \<Rightarrow> close_conn c w);
            (ok, es) = em_activeFail err (sv_est w0 eid);
            w1 = est_update eid (\<lambda>_. es) w0
        in if \<not> ok then Normal (C_Wait eid, w1)
           else if em_isPassiveEstablishing es then Normal (C_Wait eid, w1)
           else establishEnd_enter ActiveSide eid w1)"

definition passiveEstablishSuccess ::
    "nat \<Rightarrow> conn \<Rightarrow> ('q, 't) service \<Rightarrow> (pc \<times> ('q, 't) service) outcome" where
  "passiveEstablishSuccess eid c w =
     (if em_locked (sv_est w eid) then Blocked
      else
        let (ok, es) = em_passiveSuccess c (sv_est w eid);
            w1 = est_update eid (\<lambda>_. es) w
        in if \<not> ok then Normal (P_Wait eid, w1)
           else if em_isActiveEstablishing es then Normal (P_Wait eid, w1)
           else establishEnd_enter PassiveSide eid w1)"

definition passiveEstablishFail ::
    "nat \<Rightarrow> conn \<Rightarrow> gerror \<Rightarrow> ('q, 't) service \<Rightarrow> (pc \<times> ('q, 't) service) outcome" where
  "passiveEstablishFail eid c err w =
     (if em_locked (sv_est w eid) then Blocked
      else
        let w0 = close_conn c w;
            (ok, es) = em_passiveFail err (sv_est w0 eid);
            w1 = est_update eid (\<lambda>_. es) w0
        in if \<not> ok then Normal (P_Wait eid, w1)
           else if em_isActiveEstablishing es then Normal (P_Wait eid, w1)
           else establishEnd_enter PassiveSide eid w1)"

text \<open>\<open>es.end(session, nil)\<close> under the mutex, when a session turned out to exist already.\<close>

definition establish_end_with ::
    "nat \<Rightarrow> sref \<Rightarrow> ('q, 't) service \<Rightarrow> ('q, 't) service outcome" where
  "establish_end_with eid r w =
     (if em_locked (sv_est w eid) then Blocked
      else obind (em_end (Some r) None (sv_est w eid)) (\<lambda>es. Normal (est_update eid (\<lambda>_. es) w)))"

section \<open>Connect\<close>

text \<open>Lines 19 to 22, 24 to 28 and 30 to 40 of \<open>Connect(nodeId, ..)\<close>.\<close>

definition Connect_enter ::
    "int64 \<Rightarrow> node_id \<Rightarrow> ('q, 't) service \<Rightarrow> (pc \<times> ('q, 't) service) outcome" where
  "Connect_enter now nodeId w =
     obind (service_GetSession now nodeId w) (\<lambda>(session, w1).
       case session of Some r \<Rightarrow> Normal (C_Done (Some r) None, w1)
       | None \<Rightarrow> Normal (C_Obtain, w1))"

definition Connect_obtain ::
    "bool \<Rightarrow> node_id \<Rightarrow> ('q, 't) service \<Rightarrow> (pc \<times> ('q, 't) service) outcome" where
  "Connect_obtain missed nodeId w =
     obind (service_lockState stateStarted w) (\<lambda>err.
       case err of Some e \<Rightarrow> Normal (C_Done None (Some e), w)
       | None \<Rightarrow> (case getOrCreateEstablishment missed nodeId w of (eid, w1) \<Rightarrow>
           Normal (A_Start eid, w1)))"

definition Connect_wait ::
    "int64 \<Rightarrow> node_id \<Rightarrow> nat \<Rightarrow> ('q, 't) service \<Rightarrow> (pc \<times> ('q, 't) service) outcome" where
  "Connect_wait now nodeId eid w =
     obind (em_wait (sv_est w eid)) (\<lambda>(session, err).
       case err of None \<Rightarrow> Normal (C_Done session None, w)
       | Some e \<Rightarrow> obind (service_GetSession now nodeId w) (\<lambda>(session', w1).
           case session' of Some r \<Rightarrow> Normal (C_Done (Some r) None, w1)
           | None \<Rightarrow> Normal (C_Done None (Some e), w1)))"

section \<open>Establishing actively\<close>

text \<open>\<open>startActiveEstablish\<close>: the critical section, the check for a session made meanwhile, and
  the critical section that ends the establishment with it.\<close>

definition startActiveEstablish ::
    "int64 \<Rightarrow> nat \<Rightarrow> ('q, 't) service \<Rightarrow> (pc \<times> ('q, 't) service) outcome" where
  "startActiveEstablish now eid w =
     (if em_locked (sv_est w eid) then Blocked
      else case em_startActive (sint now) (sv_est w eid) of (ok, es) \<Rightarrow>
        Normal (if ok then A_Check eid else C_Wait eid, est_update eid (\<lambda>_. es) w))"

definition startActiveEstablish_check ::
    "int64 \<Rightarrow> nat \<Rightarrow> ('q, 't) service \<Rightarrow> (pc \<times> ('q, 't) service) outcome" where
  "startActiveEstablish_check now eid w =
     obind (service_GetSession now (em_remoteNodeId (sv_est w eid)) w) (\<lambda>(session, w1).
       case session of Some r \<Rightarrow> Normal (A_EndWith eid r, w1) | None \<Rightarrow> Normal (A_Dial eid, w1))"

definition startActiveEstablish_end ::
    "nat \<Rightarrow> sref \<Rightarrow> ('q, 't) service \<Rightarrow> (pc \<times> ('q, 't) service) outcome" where
  "startActiveEstablish_end eid r w =
     obind (establish_end_with eid r w) (\<lambda>w1. Normal (C_Wait eid, w1))"

definition activeEstablishConnect ::
    "answer \<Rightarrow> nat \<Rightarrow> ('q, 't) service \<Rightarrow> (pc \<times> ('q, 't) service) outcome" where
  "activeEstablishConnect ans eid w =
     (case ans of IoErr \<Rightarrow> Normal (A_Fail eid None ErrConnectRemote, w)
      | DialOk c \<Rightarrow> Normal (A_Handshake eid c, w)
      | _ \<Rightarrow> Blocked)"

definition activeEstablishHandshake_begin ::
    "nat \<Rightarrow> conn \<Rightarrow> ('q, 't) service \<Rightarrow> (pc \<times> ('q, 't) service) outcome" where
  "activeEstablishHandshake_begin eid c w =
     (if em_locked (sv_est w eid) then Blocked
      else case em_startActiveHandshake (sv_est w eid) of (ok, es) \<Rightarrow>
        Normal (if ok then A_WriteApply eid c else C_Wait eid, est_update eid (\<lambda>_. es) w))"

definition activeEstablishHandshake_apply ::
    "answer \<Rightarrow> nat \<Rightarrow> conn \<Rightarrow> ('q, 't) service \<Rightarrow> (pc \<times> ('q, 't) service) outcome" where
  "activeEstablishHandshake_apply ans eid c w =
     (case ans of
        IoErr \<Rightarrow> Normal (A_Fail eid (Some c) ErrRequestHandshake, w)
      | IoOk \<Rightarrow> Normal (A_ReadResp eid c,
          hs_write c (HSApply (cfg_NodeId (sv_cfg w)) (hc_Token (cfg_Handshake (sv_cfg w)))
                        (em_activeStartTime (sv_est w eid))) w)
      | _ \<Rightarrow> Blocked)"

definition activeEstablishHandshake_resp ::
    "answer \<Rightarrow> nat \<Rightarrow> conn \<Rightarrow> ('q, 't) service \<Rightarrow> (pc \<times> ('q, 't) service) outcome" where
  "activeEstablishHandshake_resp ans eid c w =
     (case ans of
        IoErr \<Rightarrow> Normal (A_Fail eid (Some c) ErrReadHandshakeResp, w)
      | Recv (HSAccepted nodeId token) \<Rightarrow>
          if nodeId \<noteq> em_remoteNodeId (sv_est w eid) then
            Normal (A_Fail eid (Some c) ErrRemoteIdOrTokenWrong,
                    write_rejected c HSRejectedReason_NodeIdOrTokenWrong w)
          else if token \<noteq> hc_Token (cfg_Handshake (sv_cfg w)) then
            Normal (A_Fail eid (Some c) ErrRemoteIdOrTokenWrong,
                    write_rejected c HSRejectedReason_NodeIdOrTokenWrong w)
          else Normal (A_About eid c, w)
      | Recv (HSRejected _) \<Rightarrow> Normal (A_Fail eid (Some c) ErrHandshakeRejected, w)
      | Recv _ \<Rightarrow> Normal (A_Fail eid (Some c) ErrReadHandshakeResp, w)
      | _ \<Rightarrow> Blocked)"

definition activeEstablishAboutSuccess_begin ::
    "nat \<Rightarrow> conn \<Rightarrow> ('q, 't) service \<Rightarrow> (pc \<times> ('q, 't) service) outcome" where
  "activeEstablishAboutSuccess_begin eid c w =
     (if em_locked (sv_est w eid) then Blocked
      else Normal (A_WriteCompleted eid c,
                   est_update eid (\<lambda>es. snd (em_activeAboutSuccess es)) w))"

definition activeEstablishAboutSuccess_write ::
    "answer \<Rightarrow> nat \<Rightarrow> conn \<Rightarrow> ('q, 't) service \<Rightarrow> (pc \<times> ('q, 't) service) outcome" where
  "activeEstablishAboutSuccess_write ans eid c w =
     (case ans of
        IoErr \<Rightarrow> Normal (A_Fail eid (Some c) ErrReplyHandshake, w)
      | IoOk \<Rightarrow> Normal (A_ReadAck eid c, hs_write c HSCompleted w)
      | _ \<Rightarrow> Blocked)"

definition activeEstablishAboutSuccess_ack ::
    "answer \<Rightarrow> nat \<Rightarrow> conn \<Rightarrow> ('q, 't) service \<Rightarrow> (pc \<times> ('q, 't) service) outcome" where
  "activeEstablishAboutSuccess_ack ans eid c w =
     (case ans of
        Recv HSCompletedAck \<Rightarrow> Normal (A_Success eid c, w)
      | Recv _ \<Rightarrow> Normal (A_Fail eid (Some c) ErrReadHandshakeResp, w)
      | IoErr \<Rightarrow> Normal (A_Fail eid (Some c) ErrReadHandshakeResp, w)
      | _ \<Rightarrow> Blocked)"

section \<open>Establishing passively\<close>

text \<open>\<open>onPassiveConn\<close>: reading the request (lines 66 to 82), finding the establishment (84 to 103)
  and the rest.\<close>

definition onPassiveConn_read ::
    "answer \<Rightarrow> conn \<Rightarrow> ('q, 't) service \<Rightarrow> (pc \<times> ('q, 't) service) outcome" where
  "onPassiveConn_read ans c w =
     (case ans of
        IoErr \<Rightarrow> Normal (P_Done, close_conn c w)
      | Recv (HSApply nodeId token time) \<Rightarrow>
          if token \<noteq> hc_Token (cfg_Handshake (sv_cfg w)) then
            Normal (P_Done, close_conn c (write_rejected c HSRejectedReason_NodeIdOrTokenWrong w))
          else Normal (P_Obtain c nodeId time, w)
      | Recv _ \<Rightarrow> Normal (P_Done, close_conn c w)
      | _ \<Rightarrow> Blocked)"

definition onPassiveConn_obtain ::
    "int64 \<Rightarrow> bool \<Rightarrow> conn \<Rightarrow> node_id \<Rightarrow> int \<Rightarrow> ('q, 't) service \<Rightarrow>
       (pc \<times> ('q, 't) service) outcome" where
  "onPassiveConn_obtain now missed c remoteNodeId time w =
     obind (service_lockState stateStarted w) (\<lambda>err.
       case err of Some _ \<Rightarrow> Normal (P_Done, close_conn c w)
       | None \<Rightarrow> obind (service_getSession now remoteNodeId w) (\<lambda>(session, w1).
           case session of
             Some _ \<Rightarrow> Normal (P_Done,
               close_conn c (write_rejected c HSRejectedReason_SessionEstablished w1))
           | None \<Rightarrow> (case getOrCreateEstablishment missed remoteNodeId w1 of (eid, w2) \<Rightarrow>
               Normal (P_Start eid c time, w2))))"

text \<open>\<open>startPassiveEstablish\<close>; when it answers \<open>false\<close>, \<open>onPassiveConn\<close> rejects (lines 112 to 114).\<close>

definition startPassiveEstablish ::
    "nat \<Rightarrow> conn \<Rightarrow> int \<Rightarrow> ('q, 't) service \<Rightarrow> (pc \<times> ('q, 't) service) outcome" where
  "startPassiveEstablish eid c applyTime w =
     (if em_locked (sv_est w eid) then Blocked
      else case em_startPassive applyTime (sv_est w eid) of (ok, es) \<Rightarrow>
        let w1 = est_update eid (\<lambda>_. es) w in
        if ok then Normal (P_Check eid c, w1)
        else Normal (P_Done,
          close_conn c (write_rejected c HSRejectedReason_SessionEstablishing w1)))"

definition startPassiveEstablish_check ::
    "int64 \<Rightarrow> nat \<Rightarrow> conn \<Rightarrow> ('q, 't) service \<Rightarrow> (pc \<times> ('q, 't) service) outcome" where
  "startPassiveEstablish_check now eid c w =
     obind (service_GetSession now (em_remoteNodeId (sv_est w eid)) w) (\<lambda>(session, w1).
       case session of Some r \<Rightarrow> Normal (P_EndWith eid r, w1)
       | None \<Rightarrow> Normal (P_WriteAccepted eid c, w1))"

definition startPassiveEstablish_end ::
    "nat \<Rightarrow> sref \<Rightarrow> ('q, 't) service \<Rightarrow> (pc \<times> ('q, 't) service) outcome" where
  "startPassiveEstablish_end eid r w =
     obind (establish_end_with eid r w) (\<lambda>w1. Normal (P_Wait eid, w1))"

definition passiveEstablishHandshake_accept ::
    "answer \<Rightarrow> nat \<Rightarrow> conn \<Rightarrow> ('q, 't) service \<Rightarrow> (pc \<times> ('q, 't) service) outcome" where
  "passiveEstablishHandshake_accept ans eid c w =
     (case ans of
        IoErr \<Rightarrow> Normal (P_Fail eid c ErrReplyHandshake, w)
      | IoOk \<Rightarrow> Normal (P_ReadReply eid c,
          hs_write c (HSAccepted (cfg_NodeId (sv_cfg w)) (hc_Token (cfg_Handshake (sv_cfg w)))) w)
      | _ \<Rightarrow> Blocked)"

definition passiveEstablishHandshake_reply ::
    "answer \<Rightarrow> nat \<Rightarrow> conn \<Rightarrow> ('q, 't) service \<Rightarrow> (pc \<times> ('q, 't) service) outcome" where
  "passiveEstablishHandshake_reply ans eid c w =
     (case ans of
        IoErr \<Rightarrow> Normal (P_Fail eid c ErrReadHandshakeResp, w)
      | Recv HSCompleted \<Rightarrow> Normal (P_WriteAck eid c, w)
      | Recv (HSRejected _) \<Rightarrow> Normal (P_Fail eid c ErrHandshakeRejected, w)
      | Recv _ \<Rightarrow> Normal (P_Fail eid c ErrReadHandshakeResp, w)
      | _ \<Rightarrow> Blocked)"

definition passiveEstablishHandshake_ack ::
    "answer \<Rightarrow> nat \<Rightarrow> conn \<Rightarrow> ('q, 't) service \<Rightarrow> (pc \<times> ('q, 't) service) outcome" where
  "passiveEstablishHandshake_ack ans eid c w =
     (case ans of
        IoErr \<Rightarrow> Normal (P_Fail eid c ErrReplyHandshake, w)
      | IoOk \<Rightarrow> Normal (P_Success eid c, hs_write c HSCompletedAck w)
      | _ \<Rightarrow> Blocked)"

definition onPassiveConn_wait ::
    "nat \<Rightarrow> ('q, 't) service \<Rightarrow> (pc \<times> ('q, 't) service) outcome" where
  "onPassiveConn_wait eid w = obind (em_wait (sv_est w eid)) (\<lambda>_. Normal (P_Done, w))"

section \<open>Making the session, step by step\<close>

text \<open>The parts of \<open>establishEndCreateSession\<close> as steps; whoever ends the establishment releases
  its mutex and goes on to wait for the result.\<close>

definition end_continue ::
    "role \<Rightarrow> nat \<Rightarrow> (nat \<Rightarrow> pc) \<Rightarrow> (nat option \<times> ('q, 't) service) outcome \<Rightarrow>
       (pc \<times> ('q, 't) service) outcome" where
  "end_continue role eid next r =
     obind r (\<lambda>(sid, w1). case sid of Some i \<Rightarrow> Normal (next i, w1)
       | None \<Rightarrow> Normal (wait_pc role eid, es_unlock eid w1))"

definition end_create ::
    "('q, 't) svc_env \<Rightarrow> int64 \<Rightarrow> answer \<Rightarrow> role \<Rightarrow> nat \<Rightarrow> conn \<Rightarrow> bool \<Rightarrow> ('q, 't) service \<Rightarrow>
       (pc \<times> ('q, 't) service) outcome" where
  "end_create E now ans role eid c active w =
     (case ans of
        CoreStart coreErr \<Rightarrow>
          end_continue role eid (E_Check role eid) (ecs_start E now coreErr c active eid w)
      | _ \<Rightarrow> Blocked)"

definition end_finish ::
    "role \<Rightarrow> nat \<Rightarrow> nat \<Rightarrow> ('q, 't) service \<Rightarrow> (pc \<times> ('q, 't) service) outcome" where
  "end_finish role eid sid w =
     obind (ecs_finish eid sid w) (\<lambda>w1. Normal (wait_pc role eid, es_unlock eid w1))"

section \<open>One step of a goroutine\<close>

text \<open>\<open>me\<close> is the argument \<open>nodeId\<close> of the \<open>Connect\<close> call the goroutine runs. A goroutine that has
  returned makes no step.\<close>

fun thread_step ::
    "('q, 't) svc_env \<Rightarrow> int64 \<Rightarrow> bool \<Rightarrow> answer \<Rightarrow> node_id \<Rightarrow> pc \<Rightarrow> ('q, 't) service \<Rightarrow>
       (pc \<times> ('q, 't) service) outcome" where
  "thread_step E now missed ans me C_Enter w = Connect_enter now me w"
| "thread_step E now missed ans me C_Obtain w = Connect_obtain missed me w"
| "thread_step E now missed ans me (C_Wait eid) w = Connect_wait now me eid w"
| "thread_step E now missed ans me (C_Done r e) w = Blocked"
| "thread_step E now missed ans me (A_Start eid) w = startActiveEstablish now eid w"
| "thread_step E now missed ans me (A_Check eid) w = startActiveEstablish_check now eid w"
| "thread_step E now missed ans me (A_EndWith eid r) w = startActiveEstablish_end eid r w"
| "thread_step E now missed ans me (A_Dial eid) w = activeEstablishConnect ans eid w"
| "thread_step E now missed ans me (A_Handshake eid c) w = activeEstablishHandshake_begin eid c w"
| "thread_step E now missed ans me (A_WriteApply eid c) w = activeEstablishHandshake_apply ans eid c w"
| "thread_step E now missed ans me (A_ReadResp eid c) w = activeEstablishHandshake_resp ans eid c w"
| "thread_step E now missed ans me (A_About eid c) w = activeEstablishAboutSuccess_begin eid c w"
| "thread_step E now missed ans me (A_WriteCompleted eid c) w =
     activeEstablishAboutSuccess_write ans eid c w"
| "thread_step E now missed ans me (A_ReadAck eid c) w = activeEstablishAboutSuccess_ack ans eid c w"
| "thread_step E now missed ans me (A_Success eid c) w = activeEstablishSuccess eid c w"
| "thread_step E now missed ans me (A_Fail eid co e) w = activeEstablishFail eid co e w"
| "thread_step E now missed ans me (P_ReadApply c) w = onPassiveConn_read ans c w"
| "thread_step E now missed ans me (P_Obtain c n t) w = onPassiveConn_obtain now missed c n t w"
| "thread_step E now missed ans me (P_Start eid c t) w = startPassiveEstablish eid c t w"
| "thread_step E now missed ans me (P_Check eid c) w = startPassiveEstablish_check now eid c w"
| "thread_step E now missed ans me (P_EndWith eid r) w = startPassiveEstablish_end eid r w"
| "thread_step E now missed ans me (P_WriteAccepted eid c) w = passiveEstablishHandshake_accept ans eid c w"
| "thread_step E now missed ans me (P_ReadReply eid c) w = passiveEstablishHandshake_reply ans eid c w"
| "thread_step E now missed ans me (P_WriteAck eid c) w = passiveEstablishHandshake_ack ans eid c w"
| "thread_step E now missed ans me (P_Success eid c) w = passiveEstablishSuccess eid c w"
| "thread_step E now missed ans me (P_Fail eid c e) w = passiveEstablishFail eid c e w"
| "thread_step E now missed ans me (P_Wait eid) w = onPassiveConn_wait eid w"
| "thread_step E now missed ans me P_Done w = Blocked"
| "thread_step E now missed ans me (E_Create role eid c active) w =
     end_create E now ans role eid c active w"
| "thread_step E now missed ans me (E_Check role eid sid) w =
     end_continue role eid (\<lambda>_. E_Commit role eid sid) (ecs_check eid sid w)"
| "thread_step E now missed ans me (E_Commit role eid sid) w =
     end_continue role eid (\<lambda>_. E_Finish role eid sid) (ecs_commit E now eid sid w)"
| "thread_step E now missed ans me (E_Finish role eid sid) w = end_finish role eid sid w"

text \<open>A goroutine run alone, with one time, one flag and one answer per step; it stops at the end
  of the script or where it would block.\<close>

fun thread_run ::
    "('q, 't) svc_env \<Rightarrow> (int64 \<times> answer) list \<Rightarrow> node_id \<Rightarrow> pc \<Rightarrow> ('q, 't) service \<Rightarrow>
       (pc \<times> ('q, 't) service) outcome" where
  "thread_run E [] me pc w = Normal (pc, w)"
| "thread_run E ((now, ans) # script) me pc w =
     obind (thread_step E now False ans me pc w) (\<lambda>(pc', w'). thread_run E script me pc' w')"

section \<open>Accepting connections\<close>

text \<open>One turn of the loop of \<open>listen\<close>: what \<open>Accept\<close> answers, and whether the loop goes on and
  with which connection a goroutine \<open>onPassiveConn\<close> is started. Leaving the loop closes the
  listener.\<close>

datatype accept_answer = Accepted conn | AcceptClosed | AcceptError

definition listen_turn ::
    "accept_answer \<Rightarrow> ('q, 't) service \<Rightarrow> bool \<times> pc option \<times> ('q, 't) service" where
  "listen_turn ans w =
     (if service_isClosed w then (False, None, w\<lparr>sv_listener := map_option (\<lambda>_. False) (sv_listener w)\<rparr>)
      else case ans of
        AcceptClosed \<Rightarrow> (False, None, w\<lparr>sv_listener := map_option (\<lambda>_. False) (sv_listener w)\<rparr>)
      | AcceptError \<Rightarrow> (True, None, w)
      | Accepted c \<Rightarrow> (True, Some (P_ReadApply c), w))"

end
