(* ===== verification/Establish_Spec.thy ===== *)
theory Establish_Spec
  imports Establish
begin

text \<open>
  What the decision at the end of an establishment promises. A direction is abstracted to its
  outcome (\<open>side\<close>); \<open>spec_end\<close> says which outcome wins; the switch of \<open>establishEnd\<close> is shown to
  compute it, and two services that look at the same two connections from both ends are shown
  to keep the same one.
\<close>

section \<open>Well-formed directions\<close>

text \<open>The states of \<open>establishing\<close>, and the fields that go with the two final ones.\<close>

definition ing_wf :: "establishing \<Rightarrow> bool" where
  "ing_wf es \<longleftrightarrow>
     0 \<le> ing_state es \<and> ing_state es \<le> establishFail \<and>
     (ing_isSuccess es \<longrightarrow> ing_conn es \<noteq> None) \<and> (ing_isFail es \<longrightarrow> ing_err es \<noteq> None)"

definition dir_wf :: "establishing option \<Rightarrow> bool" where
  "dir_wf d \<longleftrightarrow> (case d of None \<Rightarrow> True | Some es \<Rightarrow> ing_wf es)"

named_theorems ing_defs \<open>definitions of the tests and changes of one direction\<close>

lemmas [ing_defs] =
  ing_wf_def dir_wf_def ing_isStarted_def ing_isSuccess_def ing_isFail_def ing_isEnd_def
  ing_isEstablishing_def ing_changeState_def ing_success_def ing_fail_def new_establishing_def

named_theorems em_defs \<open>definitions of the tests and changes of an establishment\<close>

lemmas [em_defs] =
  em_isEnd_def em_activeState_def em_isActiveStarted_def em_isActiveEstablishing_def
  em_isActiveSuccess_def em_isActiveFail_def em_activeStartTime_def em_activeConn_def
  em_activeErr_def em_passiveState_def em_isPassiveStarted_def em_isPassiveEstablishing_def
  em_isPassiveSuccess_def em_isPassiveFail_def em_passiveStartTime_def em_passiveConn_def
  em_passiveErr_def em_changeState_def

lemma ing_wf_new: "ing_wf new_establishing"
  by (simp add: ing_defs state_simps)

lemma ing_wf_changeState: "ing_wf es \<Longrightarrow> st \<le> establishAboutSuccess \<Longrightarrow> 0 \<le> st \<Longrightarrow>
    ing_wf (snd (ing_changeState st es))"
  by (auto simp: ing_defs state_simps)

lemma ing_wf_success: "ing_wf es \<Longrightarrow> ing_wf (snd (ing_success c es))"
  by (auto simp: ing_defs state_simps Let_def)

lemma ing_wf_fail: "ing_wf es \<Longrightarrow> ing_wf (snd (ing_fail e es))"
  by (auto simp: ing_defs state_simps Let_def)

section \<open>The specification of the decision\<close>

datatype side = NotStarted | Pending | Succeeded conn int | Failed gerror int

definition abs_side :: "establishing option \<Rightarrow> side" where
  "abs_side d = (case d of None \<Rightarrow> NotStarted
     | Some es \<Rightarrow>
         if ing_isSuccess es then Succeeded (the (ing_conn es)) (ing_startTime es)
         else if ing_isFail es then Failed (the (ing_err es)) (ing_startTime es)
         else if ing_isStarted es then Pending else NotStarted)"

datatype verdict = KeepActive conn "conn option" | KeepPassive conn "conn option" | GiveUp gerror

text \<open>A success beats a failure; of two successes, and of two failures, the one started earlier
  wins; on equal times the side of the node with the smaller identifier. \<open>None\<close>: the decision is
  premature, a side is still running or none has started.\<close>

fun spec_end :: "bool \<Rightarrow> side \<Rightarrow> side \<Rightarrow> verdict option" where
  "spec_end tie (Succeeded c t) (Succeeded c' t') =
     (if t < t' \<or> t = t' \<and> tie then Some (KeepActive c (Some c')) else Some (KeepPassive c' (Some c)))"
| "spec_end tie (Failed e t) (Failed e' t') =
     (if t < t' \<or> t = t' \<and> tie then Some (GiveUp e) else Some (GiveUp e'))"
| "spec_end tie Pending _ = None"
| "spec_end tie _ Pending = None"
| "spec_end tie (Succeeded c t) _ = Some (KeepActive c None)"
| "spec_end tie _ (Succeeded c' t') = Some (KeepPassive c' None)"
| "spec_end tie (Failed e t) _ = Some (GiveUp e)"
| "spec_end tie _ (Failed e' t') = Some (GiveUp e')"
| "spec_end tie NotStarted NotStarted = None"

fun choice_of :: "verdict \<Rightarrow> end_choice" where
  "choice_of (KeepActive c l) = \<lparr>ec_conn = Some c, ec_active = True, ec_err = None, ec_loser = l\<rparr>"
| "choice_of (KeepPassive c l) = \<lparr>ec_conn = Some c, ec_active = False, ec_err = None, ec_loser = l\<rparr>"
| "choice_of (GiveUp e) = \<lparr>ec_conn = None, ec_active = False, ec_err = Some e, ec_loser = None\<rparr>"

lemma establishEnd_choice_spec:
  assumes wf: "dir_wf (em_active es)" "dir_wf (em_passive es)"
    and spec: "spec_end (self < em_remoteNodeId es) (abs_side (em_active es)) (abs_side (em_passive es))
                 = Some v"
  shows "establishEnd_choice self es = choice_of v"
proof -
  obtain d where d: "em_active es = d" by simp
  obtain d' where d': "em_passive es = d'" by simp
  show ?thesis
    using assms unfolding d d'
    by (cases d; cases d')
      (auto simp: abs_side_def ing_defs em_defs state_simps establishEnd_choice_def Let_def d d'
        em_whichStartEarlier_def split: if_splits)
qed

text \<open>When \<open>spec_end\<close> is defined: nobody is still running and somebody has started.\<close>

lemma spec_end_defined:
  "spec_end tie a p \<noteq> None \<longleftrightarrow> a \<noteq> Pending \<and> p \<noteq> Pending \<and> \<not> (a = NotStarted \<and> p = NotStarted)"
  by (cases "(tie, a, p)" rule: spec_end.cases) auto

section \<open>Both ends decide alike\<close>

text \<open>C6: Both directions between two nodes have succeeded. Node \<open>a\<close> dialled \<open>ca\<close>, which \<open>b\<close> sees as
  \<open>pb\<close>; \<open>b\<close> dialled \<open>cb\<close>, which \<open>a\<close> sees as \<open>pa\<close>. The start time of a direction travels in the
  request, so both nodes hold the same two times, with the roles exchanged. Whatever the times,
  and also if they are equal, both nodes keep the same one of the two connections and close the
  other.\<close>

theorem both_ends_keep_the_same:
  assumes "a \<noteq> b" and "em_remoteNodeId ea = b" and "em_remoteNodeId eb = a"
    and "abs_side (em_active ea) = Succeeded ca ta" and "abs_side (em_passive ea) = Succeeded pa tb"
    and "abs_side (em_active eb) = Succeeded cb tb" and "abs_side (em_passive eb) = Succeeded pb ta"
    and "dir_wf (em_active ea)" and "dir_wf (em_passive ea)"
    and "dir_wf (em_active eb)" and "dir_wf (em_passive eb)"
  shows "establishEnd_choice a ea = choice_of (KeepActive ca (Some pa)) \<and>
      establishEnd_choice b eb = choice_of (KeepPassive pb (Some cb))
    \<or> establishEnd_choice a ea = choice_of (KeepPassive pa (Some ca)) \<and>
      establishEnd_choice b eb = choice_of (KeepActive cb (Some pb))"
proof -
  have da: "establishEnd_choice a ea = choice_of (the (spec_end (a < b) (Succeeded ca ta) (Succeeded pa tb)))"
    using assms by (intro establishEnd_choice_spec) auto
  have db: "establishEnd_choice b eb = choice_of (the (spec_end (b < a) (Succeeded cb tb) (Succeeded pb ta)))"
    using assms by (intro establishEnd_choice_spec) auto
  show ?thesis
    using \<open>a \<noteq> b\<close> less_linear [of a b] unfolding da db by (auto split: if_splits)
qed

text \<open>Equal start times: the direction of the node with the smaller identifier stays.\<close>

definition ex_done :: "conn \<Rightarrow> establishing option" where
  "ex_done c = Some \<lparr>ing_state = 4, ing_startTime = 100, ing_conn = Some c, ing_err = None\<rparr>"

definition ex_both :: "node_id \<Rightarrow> conn \<Rightarrow> conn \<Rightarrow> establishment" where
  "ex_both rid c p = (new_establishment rid)\<lparr>em_active := ex_done c, em_passive := ex_done p\<rparr>"

lemma ex_both_simps [simp]:
  "em_remoteNodeId (ex_both rid c p) = rid" "dir_wf (ex_done c)"
  "em_active (ex_both rid c p) = ex_done c" "em_passive (ex_both rid c p) = ex_done p"
  "abs_side (ex_done c) = Succeeded c 100"
  by (simp_all add: ex_both_def ex_done_def new_establishment_def abs_side_def ing_defs state_simps)

theorem both_ends_keep_the_same_witness:
  "establishEnd_choice ''a'' (ex_both ''b'' 1 2) = choice_of (KeepActive 1 (Some 2)) \<and>
      establishEnd_choice ''b'' (ex_both ''a'' 3 4) = choice_of (KeepPassive 4 (Some 3))
    \<or> establishEnd_choice ''a'' (ex_both ''b'' 1 2) = choice_of (KeepPassive 2 (Some 1)) \<and>
      establishEnd_choice ''b'' (ex_both ''a'' 3 4) = choice_of (KeepActive 3 (Some 4))"
  by (rule both_ends_keep_the_same [where ta = 100 and tb = 100]) simp_all

end
