(* ===== verification/Establish_Protocol.thy ===== *)
theory Establish_Protocol
  imports Session_Correct Establish_Spec
begin

text \<open>
  The abstract protocol behind net/service_establish.go: which goroutine is responsible for which
  part of which establishment, and which session belongs to which node. A program counter is
  abstracted to what the goroutine \<^emph>\<open>holds\<close>, an establishment and a session to the few
  facts the protocol depends on. Theory Establish_Steps shows that the goroutines of the code
  simulate this protocol.
\<close>

section \<open>What a goroutine holds\<close>

text \<open>
  \<open>HWait e\<close>: it waits for the end of establishment \<open>e\<close>. \<open>HStart e\<close>: it is about to start a
  direction. \<open>HA e lo hi c\<close>: it drives the active direction, whose state is between \<open>lo\<close> and
  \<open>hi\<close>; \<open>c\<close>: it has checked that there is no session. \<open>HP e c\<close>: it drives the passive
  direction. \<open>HE e r l\<close>: it makes the session, has made the one numbered \<open>r\<close>, and holds its lock
  if \<open>l\<close>. \<open>HFin e i\<close>: session \<open>i\<close> is in the session map, only the end has to be signalled.
\<close>

datatype hold =
    HNone
  | HWait nat
  | HStart nat
  | HA nat int int bool
  | HP nat bool
  | HE nat "nat option" bool
  | HFin nat nat

fun isA :: "nat \<Rightarrow> hold \<Rightarrow> bool" where
  "isA e (HA e' _ _ _) = (e = e')"
| "isA e _ = False"

fun isP :: "nat \<Rightarrow> hold \<Rightarrow> bool" where
  "isP e (HP e' _) = (e = e')"
| "isP e _ = False"

fun isFin :: "nat \<Rightarrow> hold \<Rightarrow> bool" where
  "isFin e (HFin e' _) = (e = e')"
| "isFin e _ = False"

fun isE :: "nat \<Rightarrow> hold \<Rightarrow> bool" where
  "isE e (HE e' _ _) = (e = e')"
| "isE e (HFin e' _) = (e = e')"
| "isE e _ = False"

text \<open>It has made session \<open>i\<close> and not yet handed it over; it holds its lock.\<close>

fun isMade :: "nat \<Rightarrow> hold \<Rightarrow> bool" where
  "isMade i (HE _ (Some i') _) = (i = i')"
| "isMade i _ = False"

fun isLocked :: "nat \<Rightarrow> hold \<Rightarrow> bool" where
  "isLocked i (HE _ (Some i') l) = (i = i' \<and> l)"
| "isLocked i _ = False"

text \<open>It goes on only because there was no session.\<close>

fun isChecked :: "nat \<Rightarrow> hold \<Rightarrow> bool" where
  "isChecked e (HA e' _ _ c) = (e = e' \<and> c)"
| "isChecked e (HP e' c) = (e = e' \<and> c)"
| "isChecked e (HE e' _ _) = (e = e')"
| "isChecked e _ = False"

text \<open>Two goroutines that must not be there together.\<close>

definition clash :: "hold \<Rightarrow> hold \<Rightarrow> bool" where
  "clash h h' \<longleftrightarrow>
     (\<exists>e. isA e h \<and> isA e h' \<or> isP e h \<and> isP e h' \<or> isE e h \<and> isE e h') \<or>
     (\<exists>i. isMade i h \<and> isMade i h')"

definition ex_th :: "(hold \<Rightarrow> bool) \<Rightarrow> (nat \<Rightarrow> hold) \<Rightarrow> bool" where
  "ex_th P th \<longleftrightarrow> (\<exists>t. P (th t))"

lemma ex_th_upd [simp]:
  "P h \<Longrightarrow> ex_th P (th(t := h))"
  "\<not> P h \<Longrightarrow> \<not> P (th t) \<Longrightarrow> ex_th P (th(t := h)) = ex_th P th"
  by (auto simp: ex_th_def)

lemma ex_thI: "P (th t) \<Longrightarrow> ex_th P th"
  by (auto simp: ex_th_def)

section \<open>The state\<close>

text \<open>Establishments: remote node, lock, ended, state of either direction, and whether the record
  is one that is in use (one made in vain is not). Sessions: remote node, state, lock.\<close>

record ast =
  x_svc :: int
  x_cClosed :: bool
  x_next :: nat
  x_rid :: "nat \<Rightarrow> node_id"
  x_lock :: "nat \<Rightarrow> bool"
  x_end :: "nat \<Rightarrow> bool"
  x_a :: "nat \<Rightarrow> int"
  x_p :: "nat \<Rightarrow> int"
  x_ok :: "nat \<Rightarrow> bool"
  x_cur :: "node_id \<rightharpoonup> nat"
  y_next :: nat
  y_rid :: "nat \<Rightarrow> node_id"
  y_st :: "nat \<Rightarrow> int"
  y_lock :: "nat \<Rightarrow> bool"
  x_map :: "node_id \<rightharpoonup> sref"
  x_th :: "nat \<Rightarrow> hold"

definition pend :: "int \<Rightarrow> bool" where
  "pend v \<longleftrightarrow> 1 \<le> v \<and> v \<le> 3"

definition begun :: "ast \<Rightarrow> nat \<Rightarrow> bool" where
  "begun s e \<longleftrightarrow> 1 \<le> x_a s e \<or> 1 \<le> x_p s e"

definition known :: "ast \<Rightarrow> nat \<Rightarrow> bool" where
  "known s e \<longleftrightarrow> e < x_next s \<and> x_ok s e"

text \<open>\<open>GetSession\<close> would find something for node \<open>n\<close>.\<close>

definition busy :: "ast \<Rightarrow> node_id \<Rightarrow> bool" where
  "busy s n \<longleftrightarrow> x_map s n = Some SLocal \<or>
     (\<exists>i. x_map s n = Some (SRemote i) \<and> y_st s i = stateStarted)"

section \<open>Steps\<close>

abbreviation setth :: "nat \<Rightarrow> hold \<Rightarrow> ast \<Rightarrow> ast" where
  "setth t h s \<equiv> s\<lparr>x_th := (x_th s)(t := h)\<rparr>"

text \<open>Ending an establishment without a session: signalled, unlocked, no longer the current one.\<close>

definition uncur :: "nat \<Rightarrow> ast \<Rightarrow> ast" where
  "uncur e s = s\<lparr>x_cur := snd (map_compareAndDelete (x_rid s e) e (x_cur s))\<rparr>"

definition fail_end :: "nat \<Rightarrow> nat \<Rightarrow> ast \<Rightarrow> ast" where
  "fail_end t e s = (uncur e s)\<lparr>x_end := (x_end s)(e := True), x_lock := (x_lock s)(e := False),
     x_th := (x_th s)(t := HWait e)\<rparr>"

definition close_sess :: "nat \<Rightarrow> ast \<Rightarrow> ast" where
  "close_sess i s = s\<lparr>y_st := (y_st s)(i := stateClosed),
     x_map := snd (map_compareAndDelete (y_rid s i) (SRemote i) (x_map s))\<rparr>"

definition new_sess :: "nat \<Rightarrow> int \<Rightarrow> ast \<Rightarrow> ast" where
  "new_sess e st s = s\<lparr>y_next := Suc (y_next s), y_rid := (y_rid s)(y_next s := x_rid s e),
     y_st := (y_st s)(y_next s := st), y_lock := (y_lock s)(y_next s := False)\<rparr>"

text \<open>A fresh establishment record; \<open>b\<close>: it will be used.\<close>

definition new_est :: "node_id \<Rightarrow> bool \<Rightarrow> ast \<Rightarrow> ast" where
  "new_est n b s = s\<lparr>x_next := Suc (x_next s), x_rid := (x_rid s)(x_next s := n),
     x_lock := (x_lock s)(x_next s := False), x_end := (x_end s)(x_next s := False),
     x_a := (x_a s)(x_next s := 0), x_p := (x_p s)(x_next s := 0), x_ok := (x_ok s)(x_next s := b)\<rparr>"

text \<open>The end of a direction: \<open>role\<close> reaches the final state \<open>v\<close>.\<close>

fun drives :: "role \<Rightarrow> nat \<Rightarrow> hold \<Rightarrow> bool" where
  "drives ActiveSide e (HA e' _ _ c) = (e = e' \<and> c)"
| "drives PassiveSide e (HP e' c) = (e = e' \<and> c)"
| "drives _ _ _ = False"

fun set_side :: "role \<Rightarrow> nat \<Rightarrow> int \<Rightarrow> ast \<Rightarrow> ast" where
  "set_side ActiveSide e v s = s\<lparr>x_a := (x_a s)(e := v)\<rparr>"
| "set_side PassiveSide e v s = s\<lparr>x_p := (x_p s)(e := v)\<rparr>"

fun other_side :: "role \<Rightarrow> ast \<Rightarrow> nat \<Rightarrow> int" where
  "other_side ActiveSide s e = x_p s e"
| "other_side PassiveSide s e = x_a s e"

inductive astep :: "ast \<Rightarrow> ast \<Rightarrow> bool" where
  stutter: "astep s s"
| leave: "x_th s t = HWait e \<or> x_th s t = HStart e \<Longrightarrow> astep s (setth t HNone s)"
| obtain_old: "x_svc s = stateStarted \<Longrightarrow> x_th s t = HNone \<Longrightarrow> x_cur s n = Some e \<Longrightarrow> astep s (setth t (HStart e) s)"
| obtain_miss: "x_svc s = stateStarted \<Longrightarrow> x_th s t = HNone \<Longrightarrow> x_cur s n = Some e \<Longrightarrow>
    astep s (setth t (HStart e) (new_est n False s))"
| obtain_new: "x_svc s = stateStarted \<Longrightarrow> x_th s t = HNone \<Longrightarrow> x_cur s n = None \<Longrightarrow>
    astep s (setth t (HStart (x_next s)) ((new_est n True s)\<lparr>x_cur := (x_cur s)(n \<mapsto> x_next s)\<rparr>))"
| start_active: "x_th s t = HStart e \<Longrightarrow> \<not> x_lock s e \<Longrightarrow> \<not> x_end s e \<Longrightarrow> x_p s e = 0 \<Longrightarrow>
    x_a s e = 0 \<Longrightarrow> astep s (setth t (HA e 1 1 False) (s\<lparr>x_a := (x_a s)(e := 1)\<rparr>))"
| start_passive: "x_th s t = HStart e \<Longrightarrow> \<not> x_lock s e \<Longrightarrow> \<not> x_end s e \<Longrightarrow> x_p s e = 0 \<Longrightarrow>
    astep s (setth t (HP e False) (s\<lparr>x_p := (x_p s)(e := 2)\<rparr>))"
| start_not: "x_th s t = HStart e \<Longrightarrow> x_end s e \<or> begun s e \<Longrightarrow> astep s (setth t (HWait e) s)"
| check_active: "x_th s t = HA e lo hi False \<Longrightarrow> (x_svc s = stateStarted \<Longrightarrow> \<not> busy s (x_rid s e)) \<Longrightarrow>
    astep s (setth t (HA e lo hi True) s)"
| check_passive: "x_th s t = HP e False \<Longrightarrow> (x_svc s = stateStarted \<Longrightarrow> \<not> busy s (x_rid s e)) \<Longrightarrow>
    astep s (setth t (HP e True) s)"
| end_with: "x_th s t = HA e lo hi False \<or> x_th s t = HP e False \<Longrightarrow> \<not> x_lock s e \<Longrightarrow>
    astep s (setth t (HWait e) (s\<lparr>x_end := (x_end s)(e := True)\<rparr>))"
| advance: "x_th s t = HA e lo hi True \<Longrightarrow> 1 \<le> lo' \<Longrightarrow> lo' \<le> v \<Longrightarrow> v \<le> hi' \<Longrightarrow> hi' \<le> 3 \<Longrightarrow>
    astep s (setth t (HA e lo' hi' True) (s\<lparr>x_a := (x_a s)(e := v)\<rparr>))"
| give_up: "x_th s t = HA e lo hi True \<Longrightarrow> x_end s e \<Longrightarrow> astep s (setth t (HWait e) s)"
| side_waits: "drives r e (x_th s t) \<Longrightarrow> \<not> x_lock s e \<Longrightarrow> 4 \<le> v \<Longrightarrow>
    x_end s e \<or> pend (other_side r s e) \<Longrightarrow> astep s (setth t (HWait e) (set_side r e v s))"
| side_fails: "drives r e (x_th s t) \<Longrightarrow> \<not> x_lock s e \<Longrightarrow> 4 \<le> v \<Longrightarrow> \<not> x_end s e \<Longrightarrow>
    \<not> pend (other_side r s e) \<Longrightarrow> astep s (fail_end t e (set_side r e v s))"
| side_creates: "drives r e (x_th s t) \<Longrightarrow> \<not> x_lock s e \<Longrightarrow> 4 \<le> v \<Longrightarrow> \<not> x_end s e \<Longrightarrow>
    \<not> pend (other_side r s e) \<Longrightarrow>
    astep s (setth t (HE e None False) ((set_side r e v s)\<lparr>x_lock := (x_lock s)(e := True)\<rparr>))"
| create_ok: "x_th s t = HE e None l \<Longrightarrow>
    astep s (setth t (HE e (Some (y_next s)) False) (new_sess e stateStarted s))"
| create_fails: "x_th s t = HE e None l \<Longrightarrow> astep s (fail_end t e (new_sess e stateClosed s))"
| lock_ok: "x_th s t = HE e (Some i) False \<Longrightarrow> \<not> y_lock s i \<Longrightarrow> y_st s i = stateStarted \<Longrightarrow>
    astep s (setth t (HE e (Some i) True) (s\<lparr>y_lock := (y_lock s)(i := True)\<rparr>))"
| lock_fails: "x_th s t = HE e (Some i) False \<Longrightarrow> y_st s i \<noteq> stateStarted \<Longrightarrow> astep s (fail_end t e s)"
| commit_ok: "x_th s t = HE e (Some i) True \<Longrightarrow> x_svc s = stateStarted \<Longrightarrow>
    astep s (setth t (HFin e i) (uncur e (s\<lparr>y_lock := (y_lock s)(i := False),
      x_map := (x_map s)(y_rid s i \<mapsto> SRemote i)\<rparr>)))"
| commit_fails: "x_th s t = HE e (Some i) True \<Longrightarrow> x_svc s \<noteq> stateStarted \<Longrightarrow>
    astep s (fail_end t e (close_sess i (s\<lparr>y_lock := (y_lock s)(i := False)\<rparr>)))"
| commit_closed: "x_th s t = HE e (Some i) True \<Longrightarrow> x_svc s \<noteq> stateStarted \<Longrightarrow> y_st s i = stateClosed \<Longrightarrow>
    astep s (fail_end t e (s\<lparr>y_lock := (y_lock s)(i := False)\<rparr>))"
| finish: "x_th s t = HFin e i \<Longrightarrow>
    astep s (setth t (HWait e) (s\<lparr>x_end := (x_end s)(e := True), x_lock := (x_lock s)(e := False)\<rparr>))"
| sess_closes: "i < y_next s \<Longrightarrow> astep s (close_sess i s)"
| svc_starts: "x_svc s = stateInit \<Longrightarrow> astep s (s\<lparr>x_svc := stateStarted\<rparr>)"
| svc_marks: "x_svc s = stateStarted \<Longrightarrow> astep s (s\<lparr>x_svc := stateClosed\<rparr>)"
| svc_closes: "x_svc s = stateClosed \<Longrightarrow>
    astep s (s\<lparr>x_cClosed := True, x_map := Map.empty,
      y_st := (\<lambda>i. if x_map s (y_rid s i) = Some (SRemote i) then stateClosed else y_st s i)\<rparr>)"

section \<open>The invariant\<close>

text \<open>What each goroutine relies on.\<close>

fun hold_ok :: "ast \<Rightarrow> hold \<Rightarrow> bool" where
  "hold_ok s HNone = True"
| "hold_ok s (HWait e) = (known s e \<and> (x_end s e \<or> begun s e))"
| "hold_ok s (HStart e) = known s e"
| "hold_ok s (HA e lo hi c) = (known s e \<and> 1 \<le> lo \<and> lo \<le> x_a s e \<and> x_a s e \<le> hi \<and> hi \<le> 3)"
| "hold_ok s (HP e c) = (known s e \<and> x_p s e = 2)"
| "hold_ok s (HE e r l) =
     (known s e \<and> x_lock s e \<and> \<not> x_end s e \<and> \<not> pend (x_a s e) \<and> \<not> pend (x_p s e) \<and> begun s e \<and>
      (case r of None \<Rightarrow> \<not> l
       | Some i \<Rightarrow> i < y_next s \<and> y_rid s i = x_rid s e \<and> y_lock s i = l))"
| "hold_ok s (HFin e i) =
     (known s e \<and> x_lock s e \<and> \<not> x_end s e \<and> \<not> pend (x_a s e) \<and> \<not> pend (x_p s e) \<and> begun s e)"

definition j_holds :: "ast \<Rightarrow> bool" where
  "j_holds s \<longleftrightarrow> (\<forall>t. hold_ok s (x_th s t))"

definition j_unique :: "ast \<Rightarrow> bool" where
  "j_unique s \<longleftrightarrow> (\<forall>t t'. t \<noteq> t' \<longrightarrow> \<not> clash (x_th s t) (x_th s t'))"

text \<open>Somebody is responsible for every establishment that has begun and not ended.\<close>

definition j_driven :: "ast \<Rightarrow> bool" where
  "j_driven s \<longleftrightarrow> (\<forall>e<x_next s.
     (\<not> x_end s e \<longrightarrow>
        (pend (x_a s e) \<longrightarrow> ex_th (isA e) (x_th s)) \<and>
        (pend (x_p s e) \<longrightarrow> ex_th (isP e) (x_th s)) \<and>
        (begun s e \<longrightarrow> \<not> pend (x_a s e) \<longrightarrow> \<not> pend (x_p s e) \<longrightarrow> ex_th (isE e) (x_th s))) \<and>
     (x_lock s e \<longrightarrow> ex_th (isE e) (x_th s)))"

text \<open>An establishment that has not ended is the current one of its node, or its session is
  already in the map.\<close>

definition j_current :: "ast \<Rightarrow> bool" where
  "j_current s \<longleftrightarrow>
     (\<forall>e. known s e \<longrightarrow> \<not> x_end s e \<longrightarrow> x_cur s (x_rid s e) = Some e \<or> ex_th (isFin e) (x_th s)) \<and>
     (\<forall>n e. x_cur s n = Some e \<longrightarrow> known s e \<and> x_rid s e = n)"

text \<open>A started session is in the map, or it is being handed over.\<close>

definition j_sessions :: "ast \<Rightarrow> bool" where
  "j_sessions s \<longleftrightarrow>
     (\<forall>i<y_next s. y_st s i = stateStarted \<longrightarrow>
        x_map s (y_rid s i) = Some (SRemote i) \<or> ex_th (isMade i) (x_th s)) \<and>
     (\<forall>i<y_next s. y_st s i \<in> {stateStarted, stateClosed}) \<and>
     (\<forall>i<y_next s. y_lock s i \<longrightarrow> ex_th (isLocked i) (x_th s)) \<and>
     (\<forall>n i. x_map s n = Some (SRemote i) \<longrightarrow> i < y_next s \<and> y_rid s i = n)"

text \<open>While the service runs, nobody works for a node that has a session.\<close>

definition j_checked :: "ast \<Rightarrow> bool" where
  "j_checked s \<longleftrightarrow> (x_svc s = stateStarted \<longrightarrow>
     (\<forall>t e. isChecked e (x_th s t) \<longrightarrow> \<not> x_end s e \<longrightarrow> \<not> busy s (x_rid s e)))"

definition j_service :: "ast \<Rightarrow> bool" where
  "j_service s \<longleftrightarrow> x_svc s \<in> {stateInit, stateStarted, stateClosed} \<and>
     (x_cClosed s \<longrightarrow> x_svc s = stateClosed \<and> x_map s = Map.empty) \<and>
     (x_svc s = stateInit \<longrightarrow> (\<forall>t. x_th s t = HNone))"

definition ainv :: "ast \<Rightarrow> bool" where
  "ainv s \<longleftrightarrow> j_holds s \<and> j_unique s \<and> j_driven s \<and> j_current s \<and> j_sessions s \<and> j_checked s \<and>
     j_service s"

lemma drivesE:
  assumes "drives r e h"
  obtains lo hi where "r = ActiveSide" "h = HA e lo hi True" | "r = PassiveSide" "h = HP e True"
  using assms by (cases r; cases h) auto

end
