(* ===== verification/Protocol_Invariant.thy ===== *)
theory Protocol_Invariant
  imports Establish_Protocol
begin

text \<open>
  The invariant of the protocol of theory Establish_Protocol is kept by every step, and what
  follows from it.
\<close>

section \<open>The invariant is kept\<close>

lemmas upd_defs = uncur_def fail_end_def close_sess_def new_sess_def new_est_def map_compareAndDelete_def

lemma ainvD:
  assumes "ainv s"
  shows "hold_ok s (x_th s t)" and "t \<noteq> t' \<Longrightarrow> \<not> clash (x_th s t) (x_th s t')"
  using assms by (simp_all add: ainv_def j_holds_def j_unique_def)

text \<open>To keep \<open>j_holds\<close>, a step of \<open>t\<close> needs to look at the others only through \<open>clash\<close>.\<close>

lemma j_holdsI:
  assumes inv: "ainv s" and th: "x_th s' = (x_th s)(t := h)" and own: "hold_ok s' h"
    and known: "\<And>e. known s e \<Longrightarrow> known s' e"
    and wait: "\<And>e. known s e \<Longrightarrow> x_end s e \<or> begun s e \<Longrightarrow> x_end s' e \<or> begun s' e"
    and a: "\<And>e lo hi c. hold_ok s (HA e lo hi c) \<Longrightarrow> \<not> isA e (x_th s t) \<Longrightarrow> x_a s' e = x_a s e"
    and p: "\<And>e c. hold_ok s (HP e c) \<Longrightarrow> \<not> isP e (x_th s t) \<Longrightarrow> x_p s' e = x_p s e"
    and e: "\<And>e r l. hold_ok s (HE e r l) \<Longrightarrow> \<not> isE e (x_th s t) \<Longrightarrow>
      (\<And>i. r = Some i \<Longrightarrow> \<not> isMade i (x_th s t)) \<Longrightarrow> hold_ok s' (HE e r l)"
    and f: "\<And>e i. hold_ok s (HFin e i) \<Longrightarrow> \<not> isE e (x_th s t) \<Longrightarrow> hold_ok s' (HFin e i)"
  shows "j_holds s'"
  unfolding j_holds_def
proof
  fix t'
  show "hold_ok s' (x_th s' t')"
  proof (cases "t' = t")
    case False
    have nc: "\<not> clash (x_th s t) (x_th s t')" using ainvD(2) [OF inv, of t t'] False by auto
    have ok: "hold_ok s (x_th s t')" using inv by (rule ainvD)
    have "hold_ok s' (x_th s t')"
    proof (cases "x_th s t'")
      case (HWait e') then show ?thesis using ok known [of e'] wait [of e'] by simp
    next
      case (HStart e') then show ?thesis using ok known [of e'] by simp
    next
      case (HA e' lo hi c)
      then have "\<not> isA e' (x_th s t)" using nc by (auto simp: clash_def)
      then show ?thesis using HA ok known [of e'] a [of e' lo hi c] by simp
    next
      case (HP e' c)
      then have "\<not> isP e' (x_th s t)" using nc by (auto simp: clash_def)
      then show ?thesis using HP ok known [of e'] p [of e' c] by simp
    next
      case (HE e' r l)
      then have "\<not> isE e' (x_th s t)" "\<And>i. r = Some i \<Longrightarrow> \<not> isMade i (x_th s t)"
        using nc by (auto simp: clash_def)
      moreover have "hold_ok s (HE e' r l)" using ok unfolding HE .
      ultimately show ?thesis unfolding HE by (intro e)
    next
      case (HFin e' i)
      then have "\<not> isE e' (x_th s t)" using nc by (auto simp: clash_def)
      moreover have "hold_ok s (HFin e' i)" using ok unfolding HFin .
      ultimately show ?thesis unfolding HFin by (intro f)
    qed simp
    then show ?thesis using False th by simp
  qed (use th own in simp)
qed

lemma j_holdsI_same:
  assumes inv: "ainv s" and "x_th s' = x_th s" and "\<And>h. hold_ok s h \<Longrightarrow> hold_ok s' h"
  shows "j_holds s'"
  using assms by (simp add: j_holds_def ainvD)

lemmas ast_defs = begun_def pend_def known_def upd_defs

lemma j_holds_step:
  assumes "astep s s'" and inv: "ainv s"
  shows "j_holds s'"
proof -
  have inv_cur: "\<And>n e. x_cur s n = Some e \<Longrightarrow> known s e"
    using inv by (simp add: ainv_def j_current_def)
  from assms(1) show ?thesis
  proof cases
  case stutter
  then show ?thesis using inv by (simp add: ainv_def)
next
  case (leave t e)
  then show ?thesis
    using ainvD(1) [OF inv, of t]
    by (intro j_holdsI [OF inv, of _ t]) (auto simp: ast_defs split: option.splits if_splits)
next
  case (obtain_old t n e)
  then show ?thesis
    using ainvD(1) [OF inv, of t] inv_cur [of n e]
    by (intro j_holdsI [OF inv, of _ t]) (auto simp: ast_defs split: option.splits if_splits)
next
  case (obtain_miss t n e)
  then show ?thesis
    using ainvD(1) [OF inv, of t] inv_cur [of n e]
    by (intro j_holdsI [OF inv, of _ t]) (auto simp: ast_defs split: option.splits if_splits)
next
  case (obtain_new t n)
  then show ?thesis
    using ainvD(1) [OF inv, of t]
    by (intro j_holdsI [OF inv, of _ t]) (auto simp: ast_defs split: option.splits if_splits)
next
  case (start_active t e)
  then show ?thesis
    using ainvD(1) [OF inv, of t]
    by (intro j_holdsI [OF inv, of _ t]) (auto simp: ast_defs split: option.splits if_splits)
next
  case (start_passive t e)
  then show ?thesis
    using ainvD(1) [OF inv, of t]
    by (intro j_holdsI [OF inv, of _ t]) (auto simp: ast_defs split: option.splits if_splits)
next
  case (start_not t e)
  then show ?thesis
    using ainvD(1) [OF inv, of t]
    by (intro j_holdsI [OF inv, of _ t]) (auto simp: ast_defs split: option.splits if_splits)
next
  case (check_active t e lo hi)
  then show ?thesis
    using ainvD(1) [OF inv, of t]
    by (intro j_holdsI [OF inv, of _ t]) (auto simp: ast_defs split: option.splits if_splits)
next
  case (check_passive t e)
  then show ?thesis
    using ainvD(1) [OF inv, of t]
    by (intro j_holdsI [OF inv, of _ t]) (auto simp: ast_defs split: option.splits if_splits)
next
  case (end_with t e lo hi)
  then show ?thesis
    using ainvD(1) [OF inv, of t]
    by (intro j_holdsI [OF inv, of _ t]) (auto simp: ast_defs split: option.splits if_splits)
next
  case (advance t e lo hi lo' v hi')
  then show ?thesis
    using ainvD(1) [OF inv, of t]
    by (intro j_holdsI [OF inv, of _ t]) (auto simp: ast_defs split: option.splits if_splits)
next
  case (give_up t e lo hi)
  then show ?thesis
    using ainvD(1) [OF inv, of t]
    by (intro j_holdsI [OF inv, of _ t]) (auto simp: ast_defs split: option.splits if_splits)
next
  case (side_waits r e t v)
  from side_waits(2) show ?thesis
    using ainvD(1) [OF inv, of t] side_waits
    by (cases rule: drivesE; intro j_holdsI [OF inv, of _ t]) (auto simp: ast_defs split: option.splits)
next
  case (side_fails r e t v)
  from side_fails(2) show ?thesis
    using ainvD(1) [OF inv, of t] side_fails
    by (cases rule: drivesE; intro j_holdsI [OF inv, of _ t]) (auto simp: ast_defs split: option.splits)
next
  case (side_creates r e t v)
  from side_creates(2) show ?thesis
    using ainvD(1) [OF inv, of t] side_creates
    by (cases rule: drivesE; intro j_holdsI [OF inv, of _ t]) (auto simp: ast_defs split: option.splits)
next
  case (create_ok t e l)
  then show ?thesis
    using ainvD(1) [OF inv, of t]
    by (intro j_holdsI [OF inv, of _ t]) (auto simp: ast_defs split: option.splits if_splits)
next
  case (create_fails t e l)
  then show ?thesis
    using ainvD(1) [OF inv, of t]
    by (intro j_holdsI [OF inv, of _ t]) (auto simp: ast_defs split: option.splits if_splits)
next
  case (lock_ok t e i)
  then show ?thesis
    using ainvD(1) [OF inv, of t]
    by (intro j_holdsI [OF inv, of _ t]) (auto simp: ast_defs split: option.splits if_splits)
next
  case (lock_fails t e i)
  then show ?thesis
    using ainvD(1) [OF inv, of t]
    by (intro j_holdsI [OF inv, of _ t]) (auto simp: ast_defs split: option.splits if_splits)
next
  case (commit_ok t e i)
  then show ?thesis
    using ainvD(1) [OF inv, of t]
    by (intro j_holdsI [OF inv, of _ t]) (auto simp: ast_defs split: option.splits if_splits)
next
  case (commit_fails t e i)
  then show ?thesis
    using ainvD(1) [OF inv, of t]
    by (intro j_holdsI [OF inv, of _ t]) (auto simp: ast_defs split: option.splits if_splits)
next
  case (commit_closed t e i)
  then show ?thesis
    using ainvD(1) [OF inv, of t]
    by (intro j_holdsI [OF inv, of _ t]) (auto simp: ast_defs split: option.splits if_splits)
next
  case (finish t e i)
  then show ?thesis
    using ainvD(1) [OF inv, of t]
    by (intro j_holdsI [OF inv, of _ t]) (auto simp: ast_defs split: option.splits if_splits)
next
  case (sess_closes i)
  show ?thesis
  proof (rule j_holdsI_same [OF inv])
    show "hold_ok s' h" if "hold_ok s h" for h
      using that sess_closes by (cases h) (auto simp: ast_defs split: option.splits)
  qed (use sess_closes in \<open>simp add: upd_defs\<close>)
next
  case svc_starts
  show ?thesis
  proof (rule j_holdsI_same [OF inv])
    show "hold_ok s' h" if "hold_ok s h" for h
      using that svc_starts by (cases h) (auto simp: ast_defs split: option.splits)
  qed (use svc_starts in \<open>simp add: upd_defs\<close>)
next
  case svc_marks
  show ?thesis
  proof (rule j_holdsI_same [OF inv])
    show "hold_ok s' h" if "hold_ok s h" for h
      using that svc_marks by (cases h) (auto simp: ast_defs split: option.splits)
  qed (use svc_marks in \<open>simp add: upd_defs\<close>)
next
  case svc_closes
  show ?thesis
  proof (rule j_holdsI_same [OF inv])
    show "hold_ok s' h" if "hold_ok s h" for h
      using that svc_closes by (cases h) (auto simp: ast_defs split: option.splits)
  qed (use svc_closes in \<open>simp add: upd_defs\<close>)
qed
qed

section \<open>Uniqueness\<close>

lemma clash_sym: "clash h h' = clash h' h"
  by (auto simp: clash_def)

lemma isA_ok: "isA e h \<Longrightarrow> hold_ok s h \<Longrightarrow> pend (x_a s e)"
  by (cases h) (auto simp: pend_def)

lemma isP_ok: "isP e h \<Longrightarrow> hold_ok s h \<Longrightarrow> x_p s e = 2"
  by (cases h) auto

lemma isE_ok: "isE e h \<Longrightarrow> hold_ok s h \<Longrightarrow> x_lock s e \<and> \<not> x_end s e \<and> \<not> pend (x_a s e) \<and> \<not> pend (x_p s e)"
  by (cases h) auto

lemma isMade_ok: "isMade i h \<Longrightarrow> hold_ok s h \<Longrightarrow> i < y_next s"
  by (cases "(i, h)" rule: isMade.cases) auto

lemma j_uniqueI:
  assumes inv: "ainv s" and th: "x_th s' = (x_th s)(t := h)"
    and "\<And>e. isA e h \<Longrightarrow> \<not> isA e (x_th s t) \<Longrightarrow> \<not> pend (x_a s e)"
    and "\<And>e. isP e h \<Longrightarrow> \<not> isP e (x_th s t) \<Longrightarrow> x_p s e \<noteq> 2"
    and "\<And>e. isE e h \<Longrightarrow> \<not> isE e (x_th s t) \<Longrightarrow> \<not> x_lock s e"
    and "\<And>i. isMade i h \<Longrightarrow> \<not> isMade i (x_th s t) \<Longrightarrow> \<not> i < y_next s"
  shows "j_unique s'"
proof -
  have new: "\<not> clash h (x_th s t')" if "t' \<noteq> t" for t'
  proof -
    have "\<not> clash (x_th s t) (x_th s t')" "hold_ok s (x_th s t')"
      using ainvD [OF inv] that by auto
    then show ?thesis using assms(3-6) unfolding clash_def by (meson isA_ok isP_ok isE_ok isMade_ok)
  qed
  show ?thesis
    unfolding j_unique_def th
  proof (intro allI impI)
    fix u u' :: nat assume "u \<noteq> u'"
    then show "\<not> clash (((x_th s)(t := h)) u) (((x_th s)(t := h)) u')"
      using new [of u] new [of u'] ainvD(2) [OF inv, of u u'] clash_sym by (auto simp: fun_upd_def)
  qed
qed

lemma j_unique_step:
  assumes "astep s s'" and inv: "ainv s"
  shows "j_unique s'"
proof -
  have old: "j_unique s" using inv by (simp add: ainv_def)
  from assms(1) show ?thesis
  proof cases
    case stutter
    then show ?thesis using old by simp
  next
    case (leave t e)
    then show ?thesis by (intro j_uniqueI [OF inv, of _ t]) (auto simp: upd_defs pend_def)
  next
    case (obtain_old t n e)
    then show ?thesis by (intro j_uniqueI [OF inv, of _ t]) (auto simp: upd_defs pend_def)
  next
    case (obtain_miss t n e)
    then show ?thesis by (intro j_uniqueI [OF inv, of _ t]) (auto simp: upd_defs pend_def)
  next
    case (obtain_new t n)
    then show ?thesis by (intro j_uniqueI [OF inv, of _ t]) (auto simp: upd_defs pend_def)
  next
    case (start_active t e)
    then show ?thesis by (intro j_uniqueI [OF inv, of _ t]) (auto simp: upd_defs pend_def)
  next
    case (start_passive t e)
    then show ?thesis by (intro j_uniqueI [OF inv, of _ t]) (auto simp: upd_defs pend_def)
  next
    case (start_not t e)
    then show ?thesis by (intro j_uniqueI [OF inv, of _ t]) (auto simp: upd_defs pend_def)
  next
    case (check_active t e lo hi)
    then show ?thesis by (intro j_uniqueI [OF inv, of _ t]) (auto simp: upd_defs pend_def)
  next
    case (check_passive t e)
    then show ?thesis by (intro j_uniqueI [OF inv, of _ t]) (auto simp: upd_defs pend_def)
  next
    case (end_with t e lo hi)
    then show ?thesis by (intro j_uniqueI [OF inv, of _ t]) (auto simp: upd_defs pend_def)
  next
    case (advance t e lo hi lo' v hi')
    then show ?thesis by (intro j_uniqueI [OF inv, of _ t]) (auto simp: upd_defs pend_def)
  next
    case (give_up t e lo hi)
    then show ?thesis by (intro j_uniqueI [OF inv, of _ t]) (auto simp: upd_defs pend_def)
  next
    case (side_waits r e t v)
    from side_waits(2) show ?thesis
      using side_waits by (cases rule: drivesE; intro j_uniqueI [OF inv, of _ t]) (auto simp: upd_defs)
  next
    case (side_fails r e t v)
    from side_fails(2) show ?thesis
      using side_fails by (cases rule: drivesE; intro j_uniqueI [OF inv, of _ t]) (auto simp: upd_defs)
  next
    case (side_creates r e t v)
    from side_creates(2) show ?thesis
      using side_creates by (cases rule: drivesE; intro j_uniqueI [OF inv, of _ t]) (auto simp: upd_defs)
  next
    case (create_ok t e l)
    then show ?thesis by (intro j_uniqueI [OF inv, of _ t]) (auto simp: upd_defs pend_def)
  next
    case (create_fails t e l)
    then show ?thesis by (intro j_uniqueI [OF inv, of _ t]) (auto simp: upd_defs pend_def)
  next
    case (lock_ok t e i)
    then show ?thesis by (intro j_uniqueI [OF inv, of _ t]) (auto simp: upd_defs pend_def)
  next
    case (lock_fails t e i)
    then show ?thesis by (intro j_uniqueI [OF inv, of _ t]) (auto simp: upd_defs pend_def)
  next
    case (commit_ok t e i)
    then show ?thesis by (intro j_uniqueI [OF inv, of _ t]) (auto simp: upd_defs pend_def)
  next
    case (commit_fails t e i)
    then show ?thesis by (intro j_uniqueI [OF inv, of _ t]) (auto simp: upd_defs pend_def)
  next
    case (commit_closed t e i)
    then show ?thesis by (intro j_uniqueI [OF inv, of _ t]) (auto simp: upd_defs pend_def)
  next
    case (finish t e i)
    then show ?thesis by (intro j_uniqueI [OF inv, of _ t]) (auto simp: upd_defs pend_def)
  next
    case (sess_closes i)
    then show ?thesis using old by (simp add: j_unique_def upd_defs)
  qed (use old in \<open>simp_all add: j_unique_def\<close>)
qed

end
