(* ===== verification/Protocol_Sessions.thy ===== *)
theory Protocol_Sessions
  imports Protocol_Invariant
begin

text \<open>
  The rest of the invariant: every establishment that has begun has a goroutine that works for it,
  it is the current one of its node, and a started session is in the map or being handed over.
\<close>

section \<open>Somebody is responsible\<close>

lemma isLocked_iff: "isLocked i h \<longleftrightarrow> (\<exists>e. h = HE e (Some i) True)"
  by (cases "(i, h)" rule: isLocked.cases) auto

lemma isMade_iff: "isMade i h \<longleftrightarrow> (\<exists>e l. h = HE e (Some i) l)"
  by (cases "(i, h)" rule: isMade.cases) auto

text \<open>What is to be shown for the establishments a step does not touch follows from the old state;
  \<open>t\<close> may stop being responsible only for establishment \<open>e0\<close>.\<close>

lemma j_drivenI:
  assumes "j_driven s" and th: "x_th s' = (x_th s)(t := h)"
    and "\<And>e. e < x_next s' \<Longrightarrow> pend (x_a s' e) \<Longrightarrow> \<not> x_end s' e \<Longrightarrow>
      isA e h \<or> \<not> isA e (x_th s t) \<and> e < x_next s \<and> pend (x_a s e) \<and> \<not> x_end s e"
    and "\<And>e. e < x_next s' \<Longrightarrow> pend (x_p s' e) \<Longrightarrow> \<not> x_end s' e \<Longrightarrow>
      isP e h \<or> \<not> isP e (x_th s t) \<and> e < x_next s \<and> pend (x_p s e) \<and> \<not> x_end s e"
    and "\<And>e. e < x_next s' \<Longrightarrow> \<not> pend (x_a s' e) \<Longrightarrow> \<not> pend (x_p s' e) \<Longrightarrow> begun s' e \<Longrightarrow> \<not> x_end s' e \<Longrightarrow>
      isE e h \<or> \<not> isE e (x_th s t) \<and> e < x_next s \<and> \<not> pend (x_a s e) \<and> \<not> pend (x_p s e) \<and>
        begun s e \<and> \<not> x_end s e"
    and "\<And>e. e < x_next s' \<Longrightarrow> x_lock s' e \<Longrightarrow>
      isE e h \<or> \<not> isE e (x_th s t) \<and> e < x_next s \<and> x_lock s e"
  shows "j_driven s'"
proof -
  have tr: "ex_th P (x_th s')" if "P h \<or> \<not> P (x_th s t) \<and> ex_th P (x_th s)" for P
    using that unfolding th by (cases "P h") auto
  show ?thesis
    unfolding j_driven_def
  proof (intro allI impI conjI)
    fix e assume e: "e < x_next s'"
    show "ex_th (isA e) (x_th s')" if "\<not> x_end s' e" "pend (x_a s' e)"
      using assms(3) [OF e that(2,1)] assms(1) by (intro tr) (auto simp: j_driven_def)
    show "ex_th (isP e) (x_th s')" if "\<not> x_end s' e" "pend (x_p s' e)"
      using assms(4) [OF e that(2,1)] assms(1) by (intro tr) (auto simp: j_driven_def)
    show "ex_th (isE e) (x_th s')"
      if "\<not> x_end s' e" "begun s' e" "\<not> pend (x_a s' e)" "\<not> pend (x_p s' e)"
      using assms(5) [OF e that(3,4,2,1)] assms(1) by (intro tr) (auto simp: j_driven_def)
    show "ex_th (isE e) (x_th s')" if "x_lock s' e"
      using assms(6) [OF e that] assms(1) by (intro tr) (auto simp: j_driven_def)
  qed
qed

lemma j_driven_step:
  assumes "astep s s'" and inv: "ainv s"
  shows "j_driven s'"
proof -
  have old: "j_driven s" and cur: "\<And>n e. x_cur s n = Some e \<Longrightarrow> known s e"
    using inv by (simp_all add: ainv_def j_current_def)
  note own = ainvD(1) [OF inv]
  from assms(1) show ?thesis
  proof cases
    case stutter
    then show ?thesis using old by simp
  next
    case (leave t e)
    then show ?thesis using own [of t]
      by (intro j_drivenI [OF old, of _ t]) (auto simp: ast_defs split: if_splits)
  next
    case (obtain_old t n e)
    then show ?thesis using own [of t]
      by (intro j_drivenI [OF old, of _ t]) (auto simp: ast_defs split: if_splits)
  next
    case (obtain_miss t n e)
    then show ?thesis using own [of t]
      by (intro j_drivenI [OF old, of _ t]) (auto simp: ast_defs split: if_splits)
  next
    case (obtain_new t n)
    then show ?thesis using own [of t]
      by (intro j_drivenI [OF old, of _ t]) (auto simp: ast_defs split: if_splits)
  next
    case (start_active t e)
    then show ?thesis using own [of t]
      by (intro j_drivenI [OF old, of _ t]) (auto simp: ast_defs split: if_splits)
  next
    case (start_passive t e)
    then show ?thesis using own [of t]
      by (intro j_drivenI [OF old, of _ t]) (auto simp: ast_defs split: if_splits)
  next
    case (start_not t e)
    then show ?thesis using own [of t]
      by (intro j_drivenI [OF old, of _ t]) (auto simp: ast_defs split: if_splits)
  next
    case (check_active t e lo hi)
    then show ?thesis using own [of t]
      by (intro j_drivenI [OF old, of _ t]) (auto simp: ast_defs split: if_splits)
  next
    case (check_passive t e)
    then show ?thesis using own [of t]
      by (intro j_drivenI [OF old, of _ t]) (auto simp: ast_defs split: if_splits)
  next
    case (end_with t e lo hi)
    then show ?thesis using own [of t]
      by (intro j_drivenI [OF old, of _ t]) (auto simp: ast_defs split: if_splits)
  next
    case (advance t e lo hi lo' v hi')
    then show ?thesis using own [of t]
      by (intro j_drivenI [OF old, of _ t]) (auto simp: ast_defs split: if_splits)
  next
    case (give_up t e lo hi)
    then show ?thesis using own [of t]
      by (intro j_drivenI [OF old, of _ t]) (auto simp: ast_defs split: if_splits)
  next
    case (side_waits r e t v)
    from side_waits(2) show ?thesis
      using side_waits own [of t] by (cases rule: drivesE; intro j_drivenI [OF old, of _ t])
        (auto simp: ast_defs split: if_splits)
  next
    case (side_fails r e t v)
    from side_fails(2) show ?thesis
      using side_fails own [of t] by (cases rule: drivesE; intro j_drivenI [OF old, of _ t])
        (auto simp: ast_defs split: if_splits)
  next
    case (side_creates r e t v)
    from side_creates(2) show ?thesis
      using side_creates own [of t] by (cases rule: drivesE; intro j_drivenI [OF old, of _ t])
        (auto simp: ast_defs split: if_splits)
  next
    case (create_ok t e l)
    then show ?thesis using own [of t]
      by (intro j_drivenI [OF old, of _ t]) (auto simp: ast_defs split: if_splits)
  next
    case (create_fails t e l)
    then show ?thesis using own [of t]
      by (intro j_drivenI [OF old, of _ t]) (auto simp: ast_defs split: if_splits)
  next
    case (lock_ok t e i)
    then show ?thesis using own [of t]
      by (intro j_drivenI [OF old, of _ t]) (auto simp: ast_defs split: if_splits)
  next
    case (lock_fails t e i)
    then show ?thesis using own [of t]
      by (intro j_drivenI [OF old, of _ t]) (auto simp: ast_defs split: if_splits)
  next
    case (commit_ok t e i)
    then show ?thesis using own [of t]
      by (intro j_drivenI [OF old, of _ t]) (auto simp: ast_defs split: if_splits)
  next
    case (commit_fails t e i)
    then show ?thesis using own [of t]
      by (intro j_drivenI [OF old, of _ t]) (auto simp: ast_defs split: if_splits)
  next
    case (commit_closed t e i)
    then show ?thesis using own [of t]
      by (intro j_drivenI [OF old, of _ t]) (auto simp: ast_defs split: if_splits)
  next
    case (finish t e i)
    then show ?thesis using own [of t]
      by (intro j_drivenI [OF old, of _ t]) (auto simp: ast_defs split: if_splits)
  next
    case (sess_closes i)
    then show ?thesis using old by (auto simp: j_driven_def upd_defs begun_def)
  next
    case svc_starts
    then show ?thesis using old by (auto simp: j_driven_def upd_defs begun_def)
  next
    case svc_marks
    then show ?thesis using old by (auto simp: j_driven_def upd_defs begun_def)
  next
    case svc_closes
    then show ?thesis using old by (auto simp: j_driven_def upd_defs begun_def)
  qed
qed

section \<open>The current establishment\<close>

lemma j_currentI:
  assumes "j_current s" and th: "x_th s' = (x_th s)(t := h)"
    and cur: "\<And>e. known s' e \<Longrightarrow> \<not> x_end s' e \<Longrightarrow>
      isFin e h \<or> x_cur s' (x_rid s' e) = Some e \<or>
      \<not> isFin e (x_th s t) \<and> known s e \<and> \<not> x_end s e \<and>
        (x_cur s (x_rid s e) = Some e \<longrightarrow> x_cur s' (x_rid s' e) = Some e)"
    and wf: "\<And>n e. x_cur s' n = Some e \<Longrightarrow> known s' e \<and> x_rid s' e = n"
  shows "j_current s'"
proof -
  have tr: "ex_th P (x_th s')" if "P h \<or> \<not> P (x_th s t) \<and> ex_th P (x_th s)" for P
    using that unfolding th by (cases "P h") auto
  have "x_cur s' (x_rid s' e) = Some e \<or> ex_th (isFin e) (x_th s')" if "known s' e" "\<not> x_end s' e" for e
    using cur [OF that] assms(1) tr [of "isFin e"] unfolding j_current_def by blast
  then show ?thesis using wf unfolding j_current_def by blast
qed

lemma j_current_step:
  assumes "astep s s'" and inv: "ainv s"
  shows "j_current s'"
proof -
  have old: "j_current s" and cur: "\<And>n e. x_cur s n = Some e \<Longrightarrow> known s e \<and> x_rid s e = n"
    using inv by (simp_all add: ainv_def j_current_def)
  from assms(1) show ?thesis
  proof cases
    case stutter
    then show ?thesis using old by simp
  next
    case (leave t e)
    then show ?thesis
      by (intro j_currentI [OF old, of _ t]) (auto simp: ast_defs dest: cur split: if_splits)
  next
    case (obtain_old t n e)
    then show ?thesis
      by (intro j_currentI [OF old, of _ t]) (auto simp: ast_defs dest: cur split: if_splits)
  next
    case (obtain_miss t n e)
    then show ?thesis
      by (intro j_currentI [OF old, of _ t]) (auto simp: ast_defs dest: cur split: if_splits)
  next
    case (obtain_new t n)
    then show ?thesis
      by (intro j_currentI [OF old, of _ t]) (auto simp: ast_defs dest: cur split: if_splits)
  next
    case (start_active t e)
    then show ?thesis
      by (intro j_currentI [OF old, of _ t]) (auto simp: ast_defs dest: cur split: if_splits)
  next
    case (start_passive t e)
    then show ?thesis
      by (intro j_currentI [OF old, of _ t]) (auto simp: ast_defs dest: cur split: if_splits)
  next
    case (start_not t e)
    then show ?thesis
      by (intro j_currentI [OF old, of _ t]) (auto simp: ast_defs dest: cur split: if_splits)
  next
    case (check_active t e lo hi)
    then show ?thesis
      by (intro j_currentI [OF old, of _ t]) (auto simp: ast_defs dest: cur split: if_splits)
  next
    case (check_passive t e)
    then show ?thesis
      by (intro j_currentI [OF old, of _ t]) (auto simp: ast_defs dest: cur split: if_splits)
  next
    case (end_with t e lo hi)
    then show ?thesis
      by (intro j_currentI [OF old, of _ t]) (auto simp: ast_defs dest: cur split: if_splits)
  next
    case (advance t e lo hi lo' v hi')
    then show ?thesis
      by (intro j_currentI [OF old, of _ t]) (auto simp: ast_defs dest: cur split: if_splits)
  next
    case (give_up t e lo hi)
    then show ?thesis
      by (intro j_currentI [OF old, of _ t]) (auto simp: ast_defs dest: cur split: if_splits)
  next
    case (side_waits r e t v)
    from side_waits(2) show ?thesis
      using side_waits by (cases rule: drivesE; intro j_currentI [OF old, of _ t])
        (auto simp: ast_defs dest: cur split: if_splits)
  next
    case (side_fails r e t v)
    from side_fails(2) show ?thesis
      using side_fails by (cases rule: drivesE; intro j_currentI [OF old, of _ t])
        (auto simp: ast_defs dest: cur split: if_splits)
  next
    case (side_creates r e t v)
    from side_creates(2) show ?thesis
      using side_creates by (cases rule: drivesE; intro j_currentI [OF old, of _ t])
        (auto simp: ast_defs dest: cur split: if_splits)
  next
    case (create_ok t e l)
    then show ?thesis
      by (intro j_currentI [OF old, of _ t]) (auto simp: ast_defs dest: cur split: if_splits)
  next
    case (create_fails t e l)
    then show ?thesis
      by (intro j_currentI [OF old, of _ t]) (auto simp: ast_defs dest: cur split: if_splits)
  next
    case (lock_ok t e i)
    then show ?thesis
      by (intro j_currentI [OF old, of _ t]) (auto simp: ast_defs dest: cur split: if_splits)
  next
    case (lock_fails t e i)
    then show ?thesis
      by (intro j_currentI [OF old, of _ t]) (auto simp: ast_defs dest: cur split: if_splits)
  next
    case (commit_ok t e i)
    then show ?thesis
      by (intro j_currentI [OF old, of _ t]) (auto simp: ast_defs dest: cur split: if_splits)
  next
    case (commit_fails t e i)
    then show ?thesis
      by (intro j_currentI [OF old, of _ t]) (auto simp: ast_defs dest: cur split: if_splits)
  next
    case (commit_closed t e i)
    then show ?thesis
      by (intro j_currentI [OF old, of _ t]) (auto simp: ast_defs dest: cur split: if_splits)
  next
    case (finish t e i)
    then show ?thesis
      by (intro j_currentI [OF old, of _ t]) (auto simp: ast_defs dest: cur split: if_splits)
  next
    case (sess_closes i)
    then show ?thesis using old by (auto simp: j_current_def upd_defs known_def)
  next
    case svc_starts
    then show ?thesis using old by (auto simp: j_current_def upd_defs known_def)
  next
    case svc_marks
    then show ?thesis using old by (auto simp: j_current_def upd_defs known_def)
  next
    case svc_closes
    then show ?thesis using old by (auto simp: j_current_def upd_defs known_def)
  qed
qed

section \<open>Sessions\<close>

lemma j_sessionsI:
  assumes "j_sessions s" and th: "x_th s' = (x_th s)(t := h)"
    and st: "\<And>i. i < y_next s' \<Longrightarrow> y_st s' i = stateStarted \<Longrightarrow>
      isMade i h \<or> x_map s' (y_rid s' i) = Some (SRemote i) \<or>
      \<not> isMade i (x_th s t) \<and> i < y_next s \<and> y_st s i = stateStarted \<and>
        (x_map s (y_rid s i) = Some (SRemote i) \<longrightarrow> x_map s' (y_rid s' i) = Some (SRemote i))"
    and lk: "\<And>i. i < y_next s' \<Longrightarrow> y_lock s' i \<Longrightarrow>
      isLocked i h \<or> \<not> isLocked i (x_th s t) \<and> i < y_next s \<and> y_lock s i"
    and rng: "\<And>i. i < y_next s' \<Longrightarrow> y_st s' i \<in> {stateStarted, stateClosed}"
    and mp: "\<And>n i. x_map s' n = Some (SRemote i) \<Longrightarrow> i < y_next s' \<and> y_rid s' i = n"
  shows "j_sessions s'"
proof -
  have tr: "ex_th P (x_th s')" if "P h \<or> \<not> P (x_th s t) \<and> ex_th P (x_th s)" for P
    using that unfolding th by (cases "P h") auto
  have "x_map s' (y_rid s' i) = Some (SRemote i) \<or> ex_th (isMade i) (x_th s')"
    if "i < y_next s'" "y_st s' i = stateStarted" for i
    using st [OF that] assms(1) tr [of "isMade i"] unfolding j_sessions_def by blast
  moreover have "ex_th (isLocked i) (x_th s')" if "i < y_next s'" "y_lock s' i" for i
    using lk [OF that] assms(1) tr [of "isLocked i"] unfolding j_sessions_def by blast
  ultimately show ?thesis using rng mp unfolding j_sessions_def by blast
qed

lemma j_sessionsI_env:
  assumes "j_sessions s" and "x_th s' = x_th s" and "y_next s' = y_next s" and "y_rid s' = y_rid s"
    and "y_lock s' = y_lock s"
    and st: "\<And>i. i < y_next s \<Longrightarrow> y_st s' i = y_st s i \<or> y_st s' i = stateClosed"
    and mp: "\<And>n i. x_map s' n = Some (SRemote i) \<Longrightarrow> x_map s n = Some (SRemote i)"
    and keep: "\<And>i. i < y_next s \<Longrightarrow> x_map s (y_rid s i) = Some (SRemote i) \<Longrightarrow> y_st s' i = stateStarted \<Longrightarrow>
      x_map s' (y_rid s i) = Some (SRemote i)"
  shows "j_sessions s'"
proof -
  have old: "y_st s i = stateStarted" if "i < y_next s" "y_st s' i = stateStarted" for i
    using st [OF that(1)] that(2) by (auto simp: state_simps)
  show ?thesis
    unfolding j_sessions_def assms(2-5)
  proof (intro conjI allI impI)
    fix i assume i: "i < y_next s"
    show "x_map s' (y_rid s i) = Some (SRemote i) \<or> ex_th (isMade i) (x_th s)" if "y_st s' i = stateStarted"
      using assms(1) old [OF i that] keep [OF i _ that] i unfolding j_sessions_def by blast
    show "y_st s' i \<in> {stateStarted, stateClosed}"
      using assms(1) st [OF i] i unfolding j_sessions_def by auto
    show "ex_th (isLocked i) (x_th s)" if "y_lock s i"
      using assms(1) i that unfolding j_sessions_def by blast
  next
    fix n i assume "x_map s' n = Some (SRemote i)"
    then show "i < y_next s" "y_rid s i = n"
      using assms(1) mp unfolding j_sessions_def by blast+
  qed
qed

lemma not_busy:
  "ainv s \<Longrightarrow> isChecked e (x_th s t) \<Longrightarrow> x_svc s = stateStarted \<Longrightarrow> \<not> x_end s e \<Longrightarrow>
     \<not> busy s (x_rid s e)"
  by (auto simp: ainv_def j_checked_def)

lemma j_sessions_step:
  assumes "astep s s'" and inv: "ainv s"
  shows "j_sessions s'"
proof -
  have old: "j_sessions s" and rng: "\<And>i. i < y_next s \<Longrightarrow> y_st s i = stateStarted \<or> y_st s i = stateClosed"
    and mp: "\<And>n i. x_map s n = Some (SRemote i) \<Longrightarrow> i < y_next s \<and> y_rid s i = n"
    using inv by (auto simp: ainv_def j_sessions_def)
  note own = ainvD(1) [OF inv]
  from assms(1) show ?thesis
  proof cases
    case stutter
    then show ?thesis using old by simp
  next
    case (leave t e)
    then show ?thesis using own [of t]
      by (intro j_sessionsI [OF old, of _ t])
        (auto simp: ast_defs state_simps less_Suc_eq dest: rng mp split: if_splits)
  next
    case (obtain_old t n e)
    then show ?thesis using own [of t]
      by (intro j_sessionsI [OF old, of _ t])
        (auto simp: ast_defs state_simps less_Suc_eq dest: rng mp split: if_splits)
  next
    case (obtain_miss t n e)
    then show ?thesis using own [of t]
      by (intro j_sessionsI [OF old, of _ t])
        (auto simp: ast_defs state_simps less_Suc_eq dest: rng mp split: if_splits)
  next
    case (obtain_new t n)
    then show ?thesis using own [of t]
      by (intro j_sessionsI [OF old, of _ t])
        (auto simp: ast_defs state_simps less_Suc_eq dest: rng mp split: if_splits)
  next
    case (start_active t e)
    then show ?thesis using own [of t]
      by (intro j_sessionsI [OF old, of _ t])
        (auto simp: ast_defs state_simps less_Suc_eq dest: rng mp split: if_splits)
  next
    case (start_passive t e)
    then show ?thesis using own [of t]
      by (intro j_sessionsI [OF old, of _ t])
        (auto simp: ast_defs state_simps less_Suc_eq dest: rng mp split: if_splits)
  next
    case (start_not t e)
    then show ?thesis using own [of t]
      by (intro j_sessionsI [OF old, of _ t])
        (auto simp: ast_defs state_simps less_Suc_eq dest: rng mp split: if_splits)
  next
    case (check_active t e lo hi)
    then show ?thesis using own [of t]
      by (intro j_sessionsI [OF old, of _ t])
        (auto simp: ast_defs state_simps less_Suc_eq dest: rng mp split: if_splits)
  next
    case (check_passive t e)
    then show ?thesis using own [of t]
      by (intro j_sessionsI [OF old, of _ t])
        (auto simp: ast_defs state_simps less_Suc_eq dest: rng mp split: if_splits)
  next
    case (end_with t e lo hi)
    then show ?thesis using own [of t]
      by (intro j_sessionsI [OF old, of _ t])
        (auto simp: ast_defs state_simps less_Suc_eq dest: rng mp split: if_splits)
  next
    case (advance t e lo hi lo' v hi')
    then show ?thesis using own [of t]
      by (intro j_sessionsI [OF old, of _ t])
        (auto simp: ast_defs state_simps less_Suc_eq dest: rng mp split: if_splits)
  next
    case (give_up t e lo hi)
    then show ?thesis using own [of t]
      by (intro j_sessionsI [OF old, of _ t])
        (auto simp: ast_defs state_simps less_Suc_eq dest: rng mp split: if_splits)
  next
    case (side_waits r e t v)
    from side_waits(2) show ?thesis
      using side_waits by (cases rule: drivesE; intro j_sessionsI [OF old, of _ t])
        (auto simp: ast_defs state_simps dest: rng mp split: if_splits)
  next
    case (side_fails r e t v)
    from side_fails(2) show ?thesis
      using side_fails by (cases rule: drivesE; intro j_sessionsI [OF old, of _ t])
        (auto simp: ast_defs state_simps dest: rng mp split: if_splits)
  next
    case (side_creates r e t v)
    from side_creates(2) show ?thesis
      using side_creates by (cases rule: drivesE; intro j_sessionsI [OF old, of _ t])
        (auto simp: ast_defs state_simps dest: rng mp split: if_splits)
  next
    case (create_ok t e l)
    then show ?thesis using own [of t]
      by (intro j_sessionsI [OF old, of _ t])
        (auto simp: ast_defs state_simps less_Suc_eq dest: rng mp split: if_splits)
  next
    case (create_fails t e l)
    then show ?thesis using own [of t]
      by (intro j_sessionsI [OF old, of _ t])
        (auto simp: ast_defs state_simps less_Suc_eq dest: rng mp split: if_splits)
  next
    case (lock_ok t e i)
    then show ?thesis using own [of t]
      by (intro j_sessionsI [OF old, of _ t])
        (auto simp: ast_defs state_simps less_Suc_eq dest: rng mp split: if_splits)
  next
    case (lock_fails t e i)
    then show ?thesis using own [of t]
      by (intro j_sessionsI [OF old, of _ t])
        (auto simp: ast_defs state_simps less_Suc_eq dest: rng mp split: if_splits)
  next
    case (commit_ok t e i)
    have "\<not> busy s (x_rid s e)"
      using not_busy [OF inv, of e t] own [of t] commit_ok by simp
    then have nb: "\<And>j. y_st s j = 1 \<Longrightarrow> x_map s (x_rid s e) \<noteq> Some (SRemote j)"
      by (auto simp: busy_def state_simps)
    show ?thesis using own [of t] commit_ok
      by (intro j_sessionsI [OF old, of _ t])
        (auto simp: ast_defs state_simps nb dest: rng mp split: if_splits)
  next
    case (commit_fails t e i)
    then show ?thesis using own [of t]
      by (intro j_sessionsI [OF old, of _ t])
        (auto simp: ast_defs state_simps less_Suc_eq dest: rng mp split: if_splits)
  next
    case (commit_closed t e i)
    then show ?thesis using own [of t]
      by (intro j_sessionsI [OF old, of _ t])
        (auto simp: ast_defs state_simps less_Suc_eq dest: rng mp split: if_splits)
  next
    case (finish t e i)
    then show ?thesis using own [of t]
      by (intro j_sessionsI [OF old, of _ t])
        (auto simp: ast_defs state_simps less_Suc_eq dest: rng mp split: if_splits)
  next
    case (sess_closes i)
    then show ?thesis
      by (intro j_sessionsI_env [OF old]) (auto simp: upd_defs state_simps split: if_splits)
  next
    case svc_starts
    then show ?thesis
      by (intro j_sessionsI_env [OF old]) (auto simp: upd_defs state_simps split: if_splits)
  next
    case svc_marks
    then show ?thesis
      by (intro j_sessionsI_env [OF old]) (auto simp: upd_defs state_simps split: if_splits)
  next
    case svc_closes
    then show ?thesis
      by (intro j_sessionsI_env [OF old]) (auto simp: upd_defs state_simps split: if_splits)
  qed
qed

section \<open>Nobody works for a node that has a session\<close>

text \<open>The goroutine that puts a session into the map is the only one that works for its node.\<close>

lemma checked_known: "isChecked e h \<Longrightarrow> hold_ok s h \<Longrightarrow> known s e"
  by (cases h) auto

lemma commit_alone:
  assumes inv: "ainv s" and t: "x_th s t = HE e r l" and t': "isChecked e' (x_th s t')" "t' \<noteq> t"
    and end': "\<not> x_end s e'"
  shows "x_rid s e' \<noteq> x_rid s e"
proof
  assume same: "x_rid s e' = x_rid s e"
  note ok = ainvD(1) [OF inv] and nc = ainvD(2) [OF inv]
  have no_fin: "\<not> isFin d (x_th s u)" if "isChecked d (x_th s v)" for d u v
  proof
    assume "isFin d (x_th s u)"
    then obtain i where u: "x_th s u = HFin d i" by (cases "(d, x_th s u)" rule: isFin.cases) auto
    have "v \<noteq> u" using that u by auto
    then have "\<not> clash (x_th s v) (x_th s u)" using nc by blast
    then show False
      using that u ok [of u] ok [of v] by (cases "x_th s v") (auto simp: clash_def pend_def)
  qed
  have cur: "x_cur s (x_rid s d) = Some d" if "isChecked d (x_th s v)" "\<not> x_end s d" for d v
  proof -
    have "known s d" using checked_known [OF that(1) ok] .
    then have "x_cur s (x_rid s d) = Some d \<or> ex_th (isFin d) (x_th s)"
      using inv that(2) unfolding ainv_def j_current_def by blast
    then show ?thesis using no_fin [OF that(1)] by (auto simp: ex_th_def)
  qed
  have "\<not> x_end s e" using ok [of t] t by simp
  then have "x_cur s (x_rid s e) = Some e" using cur [of e t] t by simp
  moreover have "x_cur s (x_rid s e') = Some e'" using cur [OF t'(1) end'] .
  ultimately have "e = e'" using same by simp
  moreover have "\<not> clash (x_th s t) (x_th s t')" using nc t'(2) by (metis)
  ultimately show False
    using t' t ok [of t] ok [of t'] by (cases "x_th s t'") (auto simp: clash_def pend_def)
qed

lemma j_checkedI:
  assumes "j_checked s" and th: "x_th s' = (x_th s)(t := h)" and "x_svc s' = x_svc s"
    and "\<And>e. x_svc s = stateStarted \<Longrightarrow> isChecked e h \<Longrightarrow> \<not> x_end s' e \<Longrightarrow> \<not> busy s' (x_rid s' e)"
    and "\<And>t' e. x_svc s = stateStarted \<Longrightarrow> t' \<noteq> t \<Longrightarrow> isChecked e (x_th s t') \<Longrightarrow> \<not> x_end s' e \<Longrightarrow>
      \<not> x_end s e \<and> (\<not> busy s (x_rid s e) \<longrightarrow> \<not> busy s' (x_rid s' e))"
  shows "j_checked s'"
  unfolding j_checked_def th
proof (intro impI allI)
  fix u e assume svc: "x_svc s' = stateStarted" and c: "isChecked e (((x_th s)(t := h)) u)"
    and e: "\<not> x_end s' e"
  show "\<not> busy s' (x_rid s' e)"
  proof (cases "u = t")
    case True
    then show ?thesis using assms(3,4) svc c e by simp
  next
    case False
    then have "isChecked e (x_th s u)" using c by simp
    then show ?thesis using assms(1,3) assms(5) [of u e] False svc e unfolding j_checked_def by simp
  qed
qed

lemma j_checked_step:
  assumes "astep s s'" and inv: "ainv s"
  shows "j_checked s'"
proof -
  have old: "j_checked s" and mp: "\<And>n i. x_map s n = Some (SRemote i) \<Longrightarrow> i < y_next s \<and> y_rid s i = n"
    using inv by (auto simp: ainv_def j_sessions_def)
  note own = ainvD(1) [OF inv]
  have nb: "\<not> busy s (x_rid s e)"
    if "isChecked e (x_th s t)" "x_svc s = stateStarted" "\<not> x_end s e" for e t
    using not_busy [OF inv that] .
  have kn: "known s e" if "isChecked e (x_th s t)" for e t
    using checked_known [OF that own] .
  from assms(1) show ?thesis
  proof cases
    case stutter
    then show ?thesis using old by simp
  next
    case (leave t e)
    then show ?thesis using own [of t] nb [of _ t]
      by (intro j_checkedI [OF old, of _ t])
        (auto simp: ast_defs busy_def dest: kn mp split: if_splits)
  next
    case (obtain_old t n e)
    then show ?thesis using own [of t] nb [of _ t]
      by (intro j_checkedI [OF old, of _ t])
        (auto simp: ast_defs busy_def dest: kn mp split: if_splits)
  next
    case (obtain_miss t n e)
    then show ?thesis using own [of t] nb [of _ t]
      by (intro j_checkedI [OF old, of _ t])
        (auto simp: ast_defs busy_def dest: kn mp split: if_splits)
  next
    case (obtain_new t n)
    then show ?thesis using own [of t] nb [of _ t]
      by (intro j_checkedI [OF old, of _ t])
        (auto simp: ast_defs busy_def dest: kn mp split: if_splits)
  next
    case (start_active t e)
    then show ?thesis using own [of t] nb [of _ t]
      by (intro j_checkedI [OF old, of _ t])
        (auto simp: ast_defs busy_def dest: kn mp split: if_splits)
  next
    case (start_passive t e)
    then show ?thesis using own [of t] nb [of _ t]
      by (intro j_checkedI [OF old, of _ t])
        (auto simp: ast_defs busy_def dest: kn mp split: if_splits)
  next
    case (start_not t e)
    then show ?thesis using own [of t] nb [of _ t]
      by (intro j_checkedI [OF old, of _ t])
        (auto simp: ast_defs busy_def dest: kn mp split: if_splits)
  next
    case (check_active t e lo hi)
    then show ?thesis using own [of t] nb [of _ t]
      by (intro j_checkedI [OF old, of _ t])
        (auto simp: ast_defs busy_def dest: kn mp split: if_splits)
  next
    case (check_passive t e)
    then show ?thesis using own [of t] nb [of _ t]
      by (intro j_checkedI [OF old, of _ t])
        (auto simp: ast_defs busy_def dest: kn mp split: if_splits)
  next
    case (end_with t e lo hi)
    then show ?thesis using own [of t] nb [of _ t]
      by (intro j_checkedI [OF old, of _ t])
        (auto simp: ast_defs busy_def dest: kn mp split: if_splits)
  next
    case (advance t e lo hi lo' v hi')
    then show ?thesis using own [of t] nb [of _ t]
      by (intro j_checkedI [OF old, of _ t])
        (auto simp: ast_defs busy_def dest: kn mp split: if_splits)
  next
    case (give_up t e lo hi)
    then show ?thesis using own [of t] nb [of _ t]
      by (intro j_checkedI [OF old, of _ t])
        (auto simp: ast_defs busy_def dest: kn mp split: if_splits)
  next
    case (side_waits r e t v)
    from side_waits(2) show ?thesis
      using side_waits own [of t] nb [of _ t] by (cases rule: drivesE; intro j_checkedI [OF old, of _ t])
        (auto simp: ast_defs busy_def split: if_splits)
  next
    case (side_fails r e t v)
    from side_fails(2) show ?thesis
      using side_fails own [of t] nb [of _ t] by (cases rule: drivesE; intro j_checkedI [OF old, of _ t])
        (auto simp: ast_defs busy_def split: if_splits)
  next
    case (side_creates r e t v)
    from side_creates(2) show ?thesis
      using side_creates own [of t] nb [of _ t] by (cases rule: drivesE; intro j_checkedI [OF old, of _ t])
        (auto simp: ast_defs busy_def split: if_splits)
  next
    case (create_ok t e l)
    then show ?thesis using own [of t] nb [of _ t]
      by (intro j_checkedI [OF old, of _ t])
        (auto simp: ast_defs busy_def dest: kn mp split: if_splits)
  next
    case (create_fails t e l)
    then show ?thesis using own [of t] nb [of _ t]
      by (intro j_checkedI [OF old, of _ t])
        (auto simp: ast_defs busy_def dest: kn mp split: if_splits)
  next
    case (lock_ok t e i)
    then show ?thesis using own [of t] nb [of _ t]
      by (intro j_checkedI [OF old, of _ t])
        (auto simp: ast_defs busy_def dest: kn mp split: if_splits)
  next
    case (lock_fails t e i)
    then show ?thesis using own [of t] nb [of _ t]
      by (intro j_checkedI [OF old, of _ t])
        (auto simp: ast_defs busy_def dest: kn mp split: if_splits)
  next
    case (commit_ok t e i)
    then show ?thesis
      using commit_alone [OF inv, of t e "Some i" True] own [of t]
      by (intro j_checkedI [OF old, of _ t])
        (auto simp: uncur_def busy_def split: if_splits)
  next
    case (commit_fails t e i)
    then show ?thesis using own [of t] nb [of _ t]
      by (intro j_checkedI [OF old, of _ t])
        (auto simp: ast_defs busy_def dest: kn mp split: if_splits)
  next
    case (commit_closed t e i)
    then show ?thesis using own [of t] nb [of _ t]
      by (intro j_checkedI [OF old, of _ t])
        (auto simp: ast_defs busy_def dest: kn mp split: if_splits)
  next
    case (finish t e i)
    then show ?thesis using own [of t] nb [of _ t]
      by (intro j_checkedI [OF old, of _ t])
        (auto simp: ast_defs busy_def dest: kn mp split: if_splits)
  next
    case (sess_closes i)
    then show ?thesis using old inv
      by (auto simp: j_checked_def upd_defs busy_def ainv_def j_service_def state_simps split: if_splits)
  next
    case svc_starts
    then show ?thesis using old inv
      by (auto simp: j_checked_def upd_defs busy_def ainv_def j_service_def state_simps split: if_splits)
  next
    case svc_marks
    then show ?thesis using old inv
      by (auto simp: j_checked_def upd_defs busy_def ainv_def j_service_def state_simps split: if_splits)
  next
    case svc_closes
    then show ?thesis using old inv
      by (auto simp: j_checked_def upd_defs busy_def ainv_def j_service_def state_simps split: if_splits)
  qed
qed

lemma j_service_step:
  assumes "astep s s'" and inv: "ainv s"
  shows "j_service s'"
proof -
  have old: "j_service s" using inv by (simp add: ainv_def)
  have init: "x_th s t = HNone" if "x_svc s = stateInit" for t
    using old that by (simp add: j_service_def)
  from assms(1) show ?thesis
  proof cases
    case stutter
    then show ?thesis using old by simp
  next
    case (leave t e)
    then show ?thesis using old init [of t]
      by (auto simp: j_service_def upd_defs state_simps)
  next
    case (obtain_old t n e)
    then show ?thesis using old init [of t]
      by (auto simp: j_service_def upd_defs state_simps)
  next
    case (obtain_miss t n e)
    then show ?thesis using old init [of t]
      by (auto simp: j_service_def upd_defs state_simps)
  next
    case (obtain_new t n)
    then show ?thesis using old init [of t]
      by (auto simp: j_service_def upd_defs state_simps)
  next
    case (start_active t e)
    then show ?thesis using old init [of t]
      by (auto simp: j_service_def upd_defs state_simps)
  next
    case (start_passive t e)
    then show ?thesis using old init [of t]
      by (auto simp: j_service_def upd_defs state_simps)
  next
    case (start_not t e)
    then show ?thesis using old init [of t]
      by (auto simp: j_service_def upd_defs state_simps)
  next
    case (check_active t e lo hi)
    then show ?thesis using old init [of t]
      by (auto simp: j_service_def upd_defs state_simps)
  next
    case (check_passive t e)
    then show ?thesis using old init [of t]
      by (auto simp: j_service_def upd_defs state_simps)
  next
    case (end_with t e lo hi)
    then show ?thesis using old init [of t]
      by (auto simp: j_service_def upd_defs state_simps)
  next
    case (advance t e lo hi lo' v hi')
    then show ?thesis using old init [of t]
      by (auto simp: j_service_def upd_defs state_simps)
  next
    case (give_up t e lo hi)
    then show ?thesis using old init [of t]
      by (auto simp: j_service_def upd_defs state_simps)
  next
    case (side_waits r e t v)
    from side_waits(2) show ?thesis
      using old init [of t] side_waits by (cases rule: drivesE) (auto simp: j_service_def upd_defs)
  next
    case (side_fails r e t v)
    from side_fails(2) show ?thesis
      using old init [of t] side_fails by (cases rule: drivesE) (auto simp: j_service_def upd_defs)
  next
    case (side_creates r e t v)
    from side_creates(2) show ?thesis
      using old init [of t] side_creates by (cases rule: drivesE) (auto simp: j_service_def upd_defs)
  next
    case (create_ok t e l)
    then show ?thesis using old init [of t]
      by (auto simp: j_service_def upd_defs state_simps)
  next
    case (create_fails t e l)
    then show ?thesis using old init [of t]
      by (auto simp: j_service_def upd_defs state_simps)
  next
    case (lock_ok t e i)
    then show ?thesis using old init [of t]
      by (auto simp: j_service_def upd_defs state_simps)
  next
    case (lock_fails t e i)
    then show ?thesis using old init [of t]
      by (auto simp: j_service_def upd_defs state_simps)
  next
    case (commit_ok t e i)
    then show ?thesis using old init [of t]
      by (auto simp: j_service_def upd_defs state_simps)
  next
    case (commit_fails t e i)
    then show ?thesis using old init [of t]
      by (auto simp: j_service_def upd_defs state_simps)
  next
    case (commit_closed t e i)
    then show ?thesis using old init [of t]
      by (auto simp: j_service_def upd_defs state_simps)
  next
    case (finish t e i)
    then show ?thesis using old init [of t]
      by (auto simp: j_service_def upd_defs state_simps)
  next
    case (sess_closes i)
    then show ?thesis using old by (auto simp: j_service_def upd_defs state_simps)
  next
    case svc_starts
    then show ?thesis using old by (auto simp: j_service_def upd_defs state_simps)
  next
    case svc_marks
    then show ?thesis using old by (auto simp: j_service_def upd_defs state_simps)
  next
    case svc_closes
    then show ?thesis using old by (auto simp: j_service_def upd_defs state_simps)
  qed
qed

theorem ainv_step: "astep s s' \<Longrightarrow> ainv s \<Longrightarrow> ainv s'"
  unfolding ainv_def [of s']
  by (intro conjI j_holds_step j_unique_step j_driven_step j_current_step j_sessions_step
      j_checked_step j_service_step)

section \<open>What follows\<close>

text \<open>While the service runs there is at most one started session per node.\<close>

lemma made_holder:
  assumes "ex_th (isMade i) (x_th s)"
  obtains t e l where "x_th s t = HE e (Some i) l"
  using assms by (auto simp: ex_th_def isMade_iff)

lemma one_session_per_node:
  assumes inv: "ainv s" and svc: "x_svc s = stateStarted"
    and i: "i < y_next s" "y_st s i = stateStarted" and j: "j < y_next s" "y_st s j = stateStarted"
    and same: "y_rid s i = y_rid s j"
  shows "i = j"
proof -
  note ok = ainvD(1) [OF inv]
  have plc: "x_map s (y_rid s k) = Some (SRemote k) \<or> ex_th (isMade k) (x_th s)"
    if "k < y_next s" "y_st s k = stateStarted" for k
    using inv that unfolding ainv_def j_sessions_def by blast
  have apart: "x_map s (y_rid s k) \<noteq> Some (SRemote k)"
    if made: "ex_th (isMade l) (x_th s)" and st: "y_rid s k = y_rid s l" "y_st s k = stateStarted" for k l
  proof -
    obtain t e b where t: "x_th s t = HE e (Some l) b" using made by (rule made_holder)
    then have "\<not> busy s (x_rid s e)" using not_busy [OF inv, of e t] ok [of t] svc by simp
    moreover have "x_rid s e = y_rid s l" using ok [of t] t by simp
    ultimately show ?thesis using st by (auto simp: busy_def)
  qed
  show ?thesis
  proof (cases "ex_th (isMade i) (x_th s) \<and> ex_th (isMade j) (x_th s)")
    case True
    obtain t e b where t: "x_th s t = HE e (Some i) b" using True made_holder by blast
    obtain t' e' b' where t': "x_th s t' = HE e' (Some j) b'" using True made_holder by blast
    have "x_rid s e = x_rid s e'" using ok [of t] ok [of t'] t t' same by simp
    moreover have "\<not> x_end s e'" using ok [of t'] t' by simp
    ultimately have "t' = t" using commit_alone [OF inv t, of e' t'] t' by auto
    then show ?thesis using t t' by simp
  next
    case False
    moreover have "\<not> ex_th (isMade j) (x_th s)" if "x_map s (y_rid s i) = Some (SRemote i)"
      using apart [of j i] that same i(2) by blast
    moreover have "\<not> ex_th (isMade i) (x_th s)" if "x_map s (y_rid s j) = Some (SRemote j)"
      using apart [of i j] that same [symmetric] j(2) by blast
    ultimately have "x_map s (y_rid s i) = Some (SRemote i)" "x_map s (y_rid s j) = Some (SRemote j)"
      using plc [OF i] plc [OF j] by blast+
    then show ?thesis unfolding same by simp
  qed
qed

text \<open>Whoever waits for an establishment that has not ended waits for another goroutine, and so
  does whoever finds its lock taken.\<close>

lemma waits_for_somebody:
  assumes inv: "ainv s" and t: "x_th s t = HWait e" and "\<not> x_end s e"
  obtains t' where "isA e (x_th s t') \<or> isP e (x_th s t') \<or> isE e (x_th s t')"
proof -
  have "known s e" "begun s e" using ainvD(1) [OF inv, of t] t assms(3) by auto
  then have "ex_th (isA e) (x_th s) \<or> ex_th (isP e) (x_th s) \<or> ex_th (isE e) (x_th s)"
    using inv assms(3) unfolding ainv_def j_driven_def known_def by blast
  then show thesis using that by (auto simp: ex_th_def)
qed

lemma lock_has_holder:
  assumes inv: "ainv s" and "known s e" and "x_lock s e"
  obtains t where "isE e (x_th s t)"
  using assms unfolding ainv_def j_driven_def known_def ex_th_def by blast

text \<open>Once the service has closed its sessions, only a session that is being handed over is still
  open.\<close>

lemma closed_leaves_none:
  assumes "ainv s" and "x_cClosed s" and "i < y_next s" and "y_st s i = stateStarted"
  obtains t where "isMade i (x_th s t)"
  using assms unfolding ainv_def j_service_def j_sessions_def ex_th_def by fastforce

end
