(* ===== verification/Establish_Steps.thy ===== *)
theory Establish_Steps
  imports Protocol_Sessions
begin

text \<open>
  The service with all its goroutines: any number of calls of \<open>Connect\<close>, connections accepted by
  \<open>listen\<close>, packets, sends, ticks and closes, interleaved in any order. The abstraction \<open>abs\<close>
  forgets everything but what the protocol of theory Establish_Protocol speaks about.
\<close>

section \<open>The system\<close>

record ('q, 't) system =
  sys_svc :: "('q, 't) service"
  sys_th :: "nat \<Rightarrow> (node_id \<times> pc) option"

text \<open>
  \<open>tok\<close> and \<open>room\<close> describe the timer system; it may change on its own within \<open>tok\<close> (its loop
  runs). \<open>Close\<close> is two steps, since it releases the mutex in between; the second belongs to the
  one call that made the first succeed, and its \<open>Range\<close> visits every key the map holds, because
  no session is added any more. \<open>i < sv_sessNext\<close>: the event is one of an existing session.
\<close>

inductive sys_step ::
    "('q, 't) svc_env \<Rightarrow> ('t \<Rightarrow> bool) \<Rightarrow> ('t \<Rightarrow> bool) \<Rightarrow> ('q, 't) system \<Rightarrow> ('q, 't) system \<Rightarrow> bool"
  for E tok room where
  Connect_called: "sys_th S t = None \<Longrightarrow>
    sys_step E tok room S (S\<lparr>sys_th := (sys_th S)(t \<mapsto> (n, C_Enter))\<rparr>)"
| Conn_accepted: "sys_th S t = None \<Longrightarrow> listen_turn ans (sys_svc S) = (go, Some pc, w) \<Longrightarrow>
    sys_step E tok room S (S\<lparr>sys_svc := w, sys_th := (sys_th S)(t \<mapsto> ([], pc))\<rparr>)"
| Goroutine: "sys_th S t = Some (me, pc) \<Longrightarrow> sane_clock now \<Longrightarrow> room (sv_timers (sys_svc S)) \<Longrightarrow>
    thread_step E now missed ans me pc (sys_svc S) = Normal (pc', w) \<Longrightarrow>
    sys_step E tok room S (S\<lparr>sys_svc := w, sys_th := (sys_th S)(t \<mapsto> (me, pc'))\<rparr>)"
| Start_called: "service_Start listenErr (sys_svc S) = Normal (e, w) \<Longrightarrow>
    sys_step E tok room S (S\<lparr>sys_svc := w\<rparr>)"
| Close_called: "service_Close_mark (sys_svc S) = Normal (e, w) \<Longrightarrow>
    sys_step E tok room S (S\<lparr>sys_svc := w\<rparr>)"
| Close_goes_on: "sv_state (sys_svc S) = stateClosed \<Longrightarrow> dom (sv_sessions (sys_svc S)) \<subseteq> set order \<Longrightarrow>
    service_Close_rest E now order (sys_svc S) = Normal w \<Longrightarrow>
    sys_step E tok room S (S\<lparr>sys_svc := w\<rparr>)"
| Packet_arrives: "i < sv_sessNext (sys_svc S) \<Longrightarrow>
    SessionOnPacket E now handlerErr p i (sys_svc S) = Normal (e, w) \<Longrightarrow>
    sys_step E tok room S (S\<lparr>sys_svc := w\<rparr>)"
| Core_closed: "i < sv_sessNext (sys_svc S) \<Longrightarrow> SessionOnClosed E now err i (sys_svc S) = Normal w \<Longrightarrow>
    sys_step E tok room S (S\<lparr>sys_svc := w\<rparr>)"
| Send_called: "(\<And>i. r = SRemote i \<Longrightarrow> i < sv_sessNext (sys_svc S)) \<Longrightarrow>
    sref_Send E now handlerErr b r (sys_svc S) = Normal (e, w) \<Longrightarrow>
    sys_step E tok room S (S\<lparr>sys_svc := w\<rparr>)"
| GetSession_called: "service_GetSession now n (sys_svc S) = Normal (r, w) \<Longrightarrow>
    sys_step E tok room S (S\<lparr>sys_svc := w\<rparr>)"
| Tick_due: "onSessionTicker preferClosed n (sys_svc S) = Normal w \<Longrightarrow>
    sys_step E tok room S (S\<lparr>sys_svc := w\<rparr>)"
| Loop_turns: "service_loop_turn E preferClosed now (sys_svc S) = Normal (Some w) \<Longrightarrow>
    sys_step E tok room S (S\<lparr>sys_svc := w\<rparr>)"
| Timers_run: "tok t \<Longrightarrow> sys_step E tok room S (S\<lparr>sys_svc := (sys_svc S)\<lparr>sv_timers := t\<rparr>\<rparr>)"

text \<open>A service just made, with a timer system and a tick interval it can use.\<close>

definition sys_init :: "('t \<Rightarrow> bool) \<Rightarrow> ('q, 't) system \<Rightarrow> bool" where
  "sys_init tok S \<longleftrightarrow>
     (\<exists>cfg options timers sess0 est0.
        CreateService (Some cfg) False options timers sess0 est0 = Inr (sys_svc S) \<and> tok timers \<and>
        3 \<le> sc_ReadWriteTimeout (cfg_Session cfg) \<and> sc_ReadWriteTimeout (cfg_Session cfg) < 2 ^ 62) \<and>
     sys_th S = Map.empty"

definition reachable ::
    "('q, 't) svc_env \<Rightarrow> ('t \<Rightarrow> bool) \<Rightarrow> ('t \<Rightarrow> bool) \<Rightarrow> ('q, 't) system \<Rightarrow> bool" where
  "reachable E tok room S \<longleftrightarrow> (\<exists>S0. sys_init tok S0 \<and> (sys_step E tok room)\<^sup>*\<^sup>* S0 S)"

section \<open>The abstraction\<close>

fun hold_of :: "pc \<Rightarrow> hold" where
  "hold_of (C_Wait e) = HWait e"
| "hold_of (A_Start e) = HStart e"
| "hold_of (A_Check e) = HA e 1 1 False"
| "hold_of (A_EndWith e _) = HA e 1 1 False"
| "hold_of (A_Dial e) = HA e 1 1 True"
| "hold_of (A_Handshake e _) = HA e 1 1 True"
| "hold_of (A_WriteApply e _) = HA e 2 2 True"
| "hold_of (A_ReadResp e _) = HA e 2 2 True"
| "hold_of (A_About e _) = HA e 2 2 True"
| "hold_of (A_WriteCompleted e _) = HA e 3 3 True"
| "hold_of (A_ReadAck e _) = HA e 3 3 True"
| "hold_of (A_Success e _) = HA e 3 3 True"
| "hold_of (A_Fail e _ _) = HA e 1 3 True"
| "hold_of (P_Start e _ _) = HStart e"
| "hold_of (P_Check e _) = HP e False"
| "hold_of (P_EndWith e _) = HP e False"
| "hold_of (P_WriteAccepted e _) = HP e True"
| "hold_of (P_ReadReply e _) = HP e True"
| "hold_of (P_WriteAck e _) = HP e True"
| "hold_of (P_Success e _) = HP e True"
| "hold_of (P_Fail e _ _) = HP e True"
| "hold_of (P_Wait e) = HWait e"
| "hold_of (E_Create _ e _ _) = HE e None False"
| "hold_of (E_Check _ e i) = HE e (Some i) False"
| "hold_of (E_Commit _ e i) = HE e (Some i) True"
| "hold_of (E_Finish _ e i) = HFin e i"
| "hold_of _ = HNone"

text \<open>An establishment in use: the channel is closed exactly if it has ended.\<close>

definition em_ok :: "establishment \<Rightarrow> bool" where
  "em_ok es \<longleftrightarrow> em_chEnd es = em_isEnd es \<and> 0 \<le> em_state es \<and> em_state es \<le> 2 \<and>
     dir_wf (em_active es) \<and> dir_wf (em_passive es)"

definition abs_svc :: "('q, 't) service \<Rightarrow> (nat \<Rightarrow> hold) \<Rightarrow> ast" where
  "abs_svc w th = \<lparr>
     x_svc = sv_state w, x_cClosed = sv_cClosed w, x_next = sv_estNext w,
     x_rid = (\<lambda>e. em_remoteNodeId (sv_est w e)), x_lock = (\<lambda>e. em_locked (sv_est w e)),
     x_end = (\<lambda>e. em_isEnd (sv_est w e)), x_a = (\<lambda>e. em_activeState (sv_est w e)),
     x_p = (\<lambda>e. em_passiveState (sv_est w e)), x_ok = (\<lambda>e. em_ok (sv_est w e)),
     x_cur = sv_establishments w, y_next = sv_sessNext w,
     y_rid = (\<lambda>i. ss_remoteNodeId (sv_sess w i)), y_st = (\<lambda>i. ss_state (sv_sess w i)),
     y_lock = (\<lambda>i. ss_wlocked (sv_sess w i)), x_map = sv_sessions w, x_th = th\<rparr>"

definition holds_of :: "(nat \<Rightarrow> (node_id \<times> pc) option) \<Rightarrow> nat \<Rightarrow> hold" where
  "holds_of th = (\<lambda>t. case th t of None \<Rightarrow> HNone | Some (_, pc) \<Rightarrow> hold_of pc)"

definition abs_sys :: "('q, 't) system \<Rightarrow> ast" where
  "abs_sys S = abs_svc (sys_svc S) (holds_of (sys_th S))"

text \<open>What the abstraction forgets but the code relies on.\<close>

definition svc_ok :: "('t \<Rightarrow> bool) \<Rightarrow> ('q, 't) service \<Rightarrow> bool" where
  "svc_ok tok w \<longleftrightarrow> (\<forall>i < sv_sessNext w. session_wf (sv_sess w i)) \<and> tok (sv_timers w) \<and>
     sane_delay (word_of_int (sc_TickInterval (cfg_Session (sv_cfg w))))"

definition sys_ok :: "('t \<Rightarrow> bool) \<Rightarrow> ('q, 't) system \<Rightarrow> bool" where
  "sys_ok tok S \<longleftrightarrow> ainv (abs_sys S) \<and> svc_ok tok (sys_svc S)"

lemma holds_of_upd [simp]: "holds_of (th(t \<mapsto> (me, pc))) = (holds_of th)(t := hold_of pc)"
  by (auto simp: holds_of_def fun_eq_iff)

lemma abs_svc_simps [simp]:
  "x_svc (abs_svc w th) = sv_state w" "x_cClosed (abs_svc w th) = sv_cClosed w"
  "x_next (abs_svc w th) = sv_estNext w" "x_rid (abs_svc w th) e = em_remoteNodeId (sv_est w e)"
  "x_lock (abs_svc w th) e = em_locked (sv_est w e)" "x_end (abs_svc w th) e = em_isEnd (sv_est w e)"
  "x_a (abs_svc w th) e = em_activeState (sv_est w e)"
  "x_p (abs_svc w th) e = em_passiveState (sv_est w e)" "x_ok (abs_svc w th) e = em_ok (sv_est w e)"
  "x_cur (abs_svc w th) = sv_establishments w" "y_next (abs_svc w th) = sv_sessNext w"
  "y_rid (abs_svc w th) i = ss_remoteNodeId (sv_sess w i)" "y_st (abs_svc w th) i = ss_state (sv_sess w i)"
  "y_lock (abs_svc w th) i = ss_wlocked (sv_sess w i)" "x_map (abs_svc w th) = sv_sessions w"
  "x_th (abs_svc w th) = th"
  by (simp_all add: abs_svc_def)

end
