(* ===== verification/Establish_Ops.thy ===== *)
theory Establish_Ops
  imports Establish_Steps
begin

text \<open>
  What the methods of \<open>establishment\<close> and the operations of the service do to the abstraction:
  one lemma per operation, used by the simulation.
\<close>

section \<open>Methods of an establishment\<close>

named_theorems em_methods \<open>definitions of the methods that change an establishment\<close>

lemmas [em_methods] =
  em_startActive_def em_startPassive_def em_startActiveHandshake_def em_activeAboutSuccess_def
  em_activeSuccess_def em_activeFail_def em_passiveSuccess_def em_passiveFail_def em_end_def

text \<open>The fields the methods of a direction leave alone.\<close>

definition same_rest :: "establishment \<Rightarrow> establishment \<Rightarrow> bool" where
  "same_rest es es' \<longleftrightarrow> em_remoteNodeId es' = em_remoteNodeId es \<and> em_locked es' = em_locked es \<and>
     em_isEnd es' = em_isEnd es \<and> em_ok es'"

lemmas em_unfold = em_methods em_defs ing_defs state_simps em_ok_def same_rest_def Let_def

lemma isStarted_state:
  "em_isPassiveStarted es \<longleftrightarrow> 1 \<le> em_passiveState es"
  "em_isActiveStarted es \<longleftrightarrow> 1 \<le> em_activeState es"
  by (auto simp: em_defs ing_defs split: option.splits)

lemma state_nonneg:
  assumes "em_ok es" shows "0 \<le> em_passiveState es" and "0 \<le> em_activeState es"
  using assms by (auto simp: em_ok_def em_defs ing_defs split: option.splits)

lemma startActive_cases:
  assumes "em_ok es" and "em_startActive t es = (ok, es')"
  shows "same_rest es es' \<and> em_passiveState es' = em_passiveState es \<and>
    (if ok then \<not> em_isEnd es \<and> em_passiveState es = 0 \<and> em_activeState es = 0 \<and> em_activeState es' = 1
     else em_activeState es' = em_activeState es \<and>
       (em_isEnd es \<or> 1 \<le> em_passiveState es \<or> 1 \<le> em_activeState es))"
proof (cases "em_isEnd es \<or> em_isPassiveStarted es")
  case True
  then show ?thesis using assms by (auto simp: em_startActive_def same_rest_def isStarted_state)
next
  case False
  then have p: "em_passiveState es = 0" and ne: "\<not> em_isEnd es"
    using state_nonneg(1) [OF assms(1)] by (auto simp: isStarted_state)
  have "dir_wf (em_active es)" "dir_wf (em_passive es)" "em_chEnd es = em_isEnd es"
    "0 \<le> em_state es" "em_state es \<le> 2"
    using assms(1) by (simp_all add: em_ok_def)
  then show ?thesis
    using assms(2) False p ne
    by (cases "em_active es")
      (auto simp: em_startActive_def em_activeState_def em_passiveState_def em_isEnd_def em_ok_def
        same_rest_def Let_def em_changeState_def ing_changeState_def new_establishing_def ing_wf_def
        dir_wf_def ing_isSuccess_def ing_isFail_def state_simps split: if_splits)
qed

lemma startPassive_cases:
  assumes "em_ok es" and "em_startPassive t es = (ok, es')"
  shows "same_rest es es' \<and> em_activeState es' = em_activeState es \<and>
    (if ok then \<not> em_isEnd es \<and> 0 \<le> em_passiveState es \<and> em_passiveState es \<le> 1 \<and> em_passiveState es' = 2
     else em_passiveState es' = em_passiveState es)"
proof -
  have "dir_wf (em_active es)" "dir_wf (em_passive es)" "em_chEnd es = em_isEnd es"
    "0 \<le> em_state es" "em_state es \<le> 2" "0 \<le> em_passiveState es"
    using assms(1) state_nonneg [OF assms(1)] by (simp_all add: em_ok_def)
  then show ?thesis
    using assms(2)
    by (cases "em_passive es")
      (auto simp: em_startPassive_def em_activeState_def em_passiveState_def em_isEnd_def em_ok_def
        same_rest_def Let_def em_changeState_def ing_changeState_def new_establishing_def ing_wf_def
        dir_wf_def ing_isSuccess_def ing_isFail_def state_simps split: if_splits)
qed

lemma startActiveHandshake_cases:
  assumes "em_ok es" and "em_startActiveHandshake es = (ok, es')" and "em_activeState es = 1"
  shows "same_rest es es' \<and> em_passiveState es' = em_passiveState es \<and>
    (if ok then em_activeState es' = 2 else em_isEnd es \<and> em_activeState es' = 1)"
  using assms by (cases "em_active es") (auto simp: em_unfold split: if_splits)

lemma activeAboutSuccess_cases:
  assumes "em_ok es" and "em_activeState es = 2"
  shows "same_rest es (snd (em_activeAboutSuccess es)) \<and>
    em_passiveState (snd (em_activeAboutSuccess es)) = em_passiveState es \<and>
    em_activeState (snd (em_activeAboutSuccess es)) = 3"
  using assms by (cases "em_active es"; cases "em_passive es") (auto simp: em_unfold split: if_splits)

lemma activeSuccess_cases:
  assumes "em_ok es" and "1 \<le> em_activeState es" and "em_activeState es \<le> 3"
    and "em_activeSuccess c es = (ok, es')"
  shows "ok \<and> same_rest es es' \<and> em_passiveState es' = em_passiveState es \<and> em_activeState es' = 4"
  using assms by (cases "em_active es") (auto simp: em_unfold split: if_splits)

lemma activeFail_cases:
  assumes "em_ok es" and "1 \<le> em_activeState es" and "em_activeState es \<le> 3"
    and "em_activeFail e es = (ok, es')"
  shows "ok \<and> same_rest es es' \<and> em_passiveState es' = em_passiveState es \<and> em_activeState es' = 5"
  using assms by (cases "em_active es") (auto simp: em_unfold split: if_splits)

lemma passiveSuccess_cases:
  assumes "em_ok es" and "em_passiveState es = 2" and "em_passiveSuccess c es = (ok, es')"
  shows "ok \<and> same_rest es es' \<and> em_activeState es' = em_activeState es \<and> em_passiveState es' = 4"
  using assms by (cases "em_passive es") (auto simp: em_unfold split: if_splits)

lemma passiveFail_cases:
  assumes "em_ok es" and "em_passiveState es = 2" and "em_passiveFail e es = (ok, es')"
  shows "ok \<and> same_rest es es' \<and> em_activeState es' = em_activeState es \<and> em_passiveState es' = 5"
  using assms by (cases "em_passive es") (auto simp: em_unfold split: if_splits)

lemma end_cases:
  assumes "em_ok es"
  obtains es' where "em_end r err es = Normal es'" "em_ok es'" "em_isEnd es'"
    "em_remoteNodeId es' = em_remoteNodeId es" "em_locked es' = em_locked es"
    "em_activeState es' = em_activeState es" "em_passiveState es' = em_passiveState es"
  using assms by (cases "em_isEnd es") (auto simp: em_unfold intro!: that)

lemma isEstablishing_pend:
  "em_isPassiveEstablishing es \<longleftrightarrow> pend (em_passiveState es)"
  "em_isActiveEstablishing es \<longleftrightarrow> pend (em_activeState es)"
  by (auto simp: em_defs ing_defs state_simps pend_def split: option.splits)

lemma abs_side_state:
  assumes "dir_wf d"
  shows "abs_side d = Pending \<longleftrightarrow> pend (case d of None \<Rightarrow> 0 | Some a \<Rightarrow> ing_state a)"
    and "abs_side d = NotStarted \<longleftrightarrow> (case d of None \<Rightarrow> 0 | Some a \<Rightarrow> ing_state a) = 0"
  using assms
  by (cases d; auto simp: abs_side_def ing_defs state_simps pend_def)+

text \<open>What \<open>establishEnd\<close> finds when no direction is running: a connection for the session, or an
  error; the branch for an unknown status is not taken.\<close>

lemma choice_decided:
  assumes "em_ok es" and "\<not> pend (em_activeState es)" and "\<not> pend (em_passiveState es)"
    and "1 \<le> em_activeState es \<or> 1 \<le> em_passiveState es"
  obtains v where "establishEnd_choice self es = choice_of v"
    "spec_end (self < em_remoteNodeId es) (abs_side (em_active es)) (abs_side (em_passive es)) = Some v"
proof -
  let ?a = "abs_side (em_active es)" and ?p = "abs_side (em_passive es)"
  have "?a \<noteq> Pending" "?p \<noteq> Pending" "\<not> (?a = NotStarted \<and> ?p = NotStarted)"
    using assms by (auto simp: em_ok_def em_activeState_def em_passiveState_def abs_side_state)
  then have "spec_end (self < em_remoteNodeId es) ?a ?p \<noteq> None"
    by (simp only: spec_end_defined not_False_eq_True simp_thms)
  then obtain v where "spec_end (self < em_remoteNodeId es) ?a ?p = Some v" by blast
  then show thesis
    using assms(1) by (intro that [of v] establishEnd_choice_spec) (simp_all add: em_ok_def)
qed

section \<open>Operations of the service\<close>

text \<open>Changes the abstraction does not see.\<close>

lemma abs_unseen [simp]:
  "abs_svc (close_conn c w) th = abs_svc w th" "svc_ok tok (close_conn c w) = svc_ok tok w"
  "abs_svc (hs_write c m w) th = abs_svc w th" "svc_ok tok (hs_write c m w) = svc_ok tok w"
  "abs_svc (write_rejected c r w) th = abs_svc w th" "svc_ok tok (write_rejected c r w) = svc_ok tok w"
  "abs_svc (w\<lparr>sv_delivered := d\<rparr>) th = abs_svc w th" "svc_ok tok (w\<lparr>sv_delivered := d\<rparr>) = svc_ok tok w"
  "abs_svc (w\<lparr>sv_cTickSessions := k\<rparr>) th = abs_svc w th"
  "svc_ok tok (w\<lparr>sv_cTickSessions := k\<rparr>) = svc_ok tok w"
  "abs_svc (w\<lparr>sv_listener := l\<rparr>) th = abs_svc w th" "svc_ok tok (w\<lparr>sv_listener := l\<rparr>) = svc_ok tok w"
  "abs_svc (w\<lparr>sv_timers := t\<rparr>) th = abs_svc w th"
  by (simp_all add: abs_svc_def svc_ok_def close_conn_def hs_write_def write_rejected_def)

lemma abs_sess_unseen:
  assumes "ss_remoteNodeId s = ss_remoteNodeId (sv_sess w i)" and "ss_state s = ss_state (sv_sess w i)"
    and "ss_wlocked s = ss_wlocked (sv_sess w i)"
  shows "abs_svc (w\<lparr>sv_sess := (sv_sess w)(i := s)\<rparr>) th = abs_svc w th"
  using assms by (auto simp: abs_svc_def fun_eq_iff)

lemma svc_ok_sess:
  assumes "svc_ok tok w" and "session_wf s"
  shows "svc_ok tok (w\<lparr>sv_sess := (sv_sess w)(i := s)\<rparr>)"
  using assms by (auto simp: svc_ok_def)

text \<open>A new record of an establishment.\<close>

definition abs_em :: "nat \<Rightarrow> establishment \<Rightarrow> ast \<Rightarrow> ast" where
  "abs_em e es s = s\<lparr>x_rid := (x_rid s)(e := em_remoteNodeId es), x_lock := (x_lock s)(e := em_locked es),
     x_end := (x_end s)(e := em_isEnd es), x_a := (x_a s)(e := em_activeState es),
     x_p := (x_p s)(e := em_passiveState es), x_ok := (x_ok s)(e := em_ok es)\<rparr>"

lemma abs_est_update [simp]: "abs_svc (est_update e f w) th = abs_em e (f (sv_est w e)) (abs_svc w th)"
  by (auto simp: abs_svc_def abs_em_def est_update_def fun_eq_iff)

lemma svc_ok_est [simp]: "svc_ok tok (est_update e f w) = svc_ok tok w"
  by (simp add: svc_ok_def est_update_def)

lemma abs_svc_th: "(abs_svc w th)\<lparr>x_th := th'\<rparr> = abs_svc w th'"
  by (simp add: abs_svc_def)

lemma establishEndFailed_step:
  assumes "em_ok (sv_est w e)" and "svc_ok tok w"
  obtains w' where "establishEndFailed err e w = Normal w'" "svc_ok tok w'"
    "\<And>th. abs_svc w' th = (uncur e (abs_svc w th))\<lparr>x_end := (x_end (abs_svc w th))(e := True)\<rparr>"
    "sv_est w' = (sv_est w)(e := sv_est w' e)" "em_ok (sv_est w' e)"
proof -
  obtain es where es: "em_end None (Some err) (sv_est w e) = Normal es" "em_ok es" "em_isEnd es"
    "em_remoteNodeId es = em_remoteNodeId (sv_est w e)" "em_locked es = em_locked (sv_est w e)"
    "em_activeState es = em_activeState (sv_est w e)" "em_passiveState es = em_passiveState (sv_est w e)"
    using assms(1) by (rule end_cases)
  let ?w = "est_update e (\<lambda>_. es) w"
  let ?w' = "?w\<lparr>sv_establishments :=
      snd (map_compareAndDelete (em_remoteNodeId es) e (sv_establishments ?w))\<rparr>"
  have "abs_svc ?w' th = (uncur e (abs_svc w th))\<lparr>x_end := (x_end (abs_svc w th))(e := True)\<rparr>" for th
    using es assms(1) by (auto simp: abs_svc_def uncur_def est_update_def fun_eq_iff)
  moreover have "svc_ok tok ?w'" using assms(2) by (simp add: svc_ok_def est_update_def)
  ultimately show thesis
    using es(1,2) by (intro that [of ?w']) (simp_all add: establishEndFailed_def est_update_def)
qed

lemma getOrCreateEstablishment_step:
  assumes "getOrCreateEstablishment missed n w = (e, w')"
  shows "(case sv_establishments w n of
      Some e' \<Rightarrow> e = e' \<and> (\<forall>th. abs_svc w' th = (if missed then new_est n False (abs_svc w th) else abs_svc w th))
    | None \<Rightarrow> e = sv_estNext w \<and>
        (\<forall>th. abs_svc w' th = (new_est n True (abs_svc w th))\<lparr>x_cur := (sv_establishments w)(n \<mapsto> e)\<rparr>)) \<and>
    (svc_ok tok w \<longrightarrow> svc_ok tok w')"
proof -
  have st: "em_isEnd (new_establishment n) = False" "em_activeState (new_establishment n) = 0"
    "em_passiveState (new_establishment n) = 0" "em_locked (new_establishment n) = False"
    "em_remoteNodeId (new_establishment n) = n" "em_ok (new_establishment n)"
    by (simp_all add: new_establishment_def em_unfold)
  have st': "em_isEnd (es\<lparr>em_chEnd := True\<rparr>) = em_isEnd es"
    "em_activeState (es\<lparr>em_chEnd := True\<rparr>) = em_activeState es"
    "em_passiveState (es\<lparr>em_chEnd := True\<rparr>) = em_passiveState es"
    "em_ok ((new_establishment n)\<lparr>em_chEnd := True\<rparr>) = False" for es
    by (simp_all add: new_establishment_def em_unfold)
  show ?thesis
    using assms
    by (auto simp: getOrCreateEstablishment_def abs_svc_def new_est_def fun_eq_iff svc_ok_def st st'
        split: option.splits if_splits)
qed

lemma svc_state_okI: "ainv (abs_svc w th) \<Longrightarrow> svc_state_ok w"
  by (simp add: ainv_def j_service_def svc_state_ok_def)

lemma map_sids: "ainv (abs_svc w th) \<Longrightarrow> sv_sessions w n = Some (SRemote i) \<Longrightarrow> i < sv_sessNext w"
  by (auto simp: ainv_def j_sessions_def)

lemma getSession_step:
  assumes ok: "svc_ok tok w" and sids: "\<forall>i. sv_sessions w n = Some (SRemote i) \<longrightarrow> i < sv_sessNext w"
  obtains r w' where "service_getSession now n w = Normal (r, w')" "svc_ok tok w'"
    "\<And>th. abs_svc w' th = abs_svc w th" "r = None \<Longrightarrow> \<not> busy (abs_svc w th) n"
proof (cases "sv_sessions w n")
  case None
  then show thesis
    using ok by (intro that) (simp_all add: service_getSession_def sessionMap_get_def busy_def)
next
  case (Some r)
  show thesis
  proof (cases r)
    case SLocal
    then show thesis
      using ok Some
      by (intro that [of "Some SLocal" w])
        (simp_all add: service_getSession_def sessionMap_get_def sref_keepActive_def)
  next
    case (SRemote i)
    let ?s = "sv_sess w i"
    have wf: "session_wf ?s" using ok sids Some SRemote by (simp add: svc_ok_def)
    show thesis
    proof (cases "ss_state ?s = stateStarted")
      case True
      then show thesis
        using ok Some SRemote wf
        by (intro that [of "Some r" "sess_update i (\<lambda>_. refreshActiveTime now ?s) w"])
          (auto simp: service_getSession_def sessionMap_get_def sref_keepActive_def session_keepActive_def
            checkState_wf sess_update_def session_simps intro: abs_sess_unseen svc_ok_sess)
    next
      case False
      then show thesis
        using ok Some SRemote wf
        by (intro that [of None w])
          (auto simp: service_getSession_def sessionMap_get_def sref_keepActive_def session_keepActive_def
            checkState_wf sess_update_def busy_def)
    qed
  qed
qed

lemma GetSession_step:
  assumes inv: "ainv (abs_svc w th)" and ok: "svc_ok tok w"
  obtains r w' where "service_GetSession now n w = Normal (r, w')" "svc_ok tok w'"
    "\<And>th. abs_svc w' th = abs_svc w th" "r = None \<Longrightarrow> sv_state w = stateStarted \<Longrightarrow> \<not> busy (abs_svc w th) n"
proof (cases "sv_state w = stateStarted")
  case True
  obtain r w' where "service_getSession now n w = Normal (r, w')" "svc_ok tok w'"
    "\<And>th. abs_svc w' th = abs_svc w th" "r = None \<Longrightarrow> \<not> busy (abs_svc w th) n"
    using getSession_step [OF ok] map_sids [OF inv] by metis
  then show thesis
    using True by (intro that [of r w']) (auto simp: service_GetSession_def lockState_ok [OF svc_state_okI [OF inv]])
next
  case False
  then show thesis
    using ok False by (intro that [of None w]) (auto simp: service_GetSession_def lockState_ok [OF svc_state_okI [OF inv]])
qed

section \<open>Sessions and timers\<close>

text \<open>The service relies on its timer system only through the contract.\<close>

locale svc_timers = timer_system "env_T E" tok room live
  for E :: "('q, 't) svc_env" and tok room and live :: "'t \<Rightarrow> timer_id \<rightharpoonup> node_id"
begin

lemma stopped_timers_total:
  assumes "tok (sv_timers w)"
  obtains t where "stopped_timers E now tid w = Normal t" "tok t"
proof (cases "sv_state w = stateStarted")
  case True
  obtain t where "ts_StopTimer (env_T E) tid now (sv_timers w) = Normal t"
    using stop_total [OF assms] by blast
  then show thesis using True stop_inv [OF assms] by (intro that [of t]) (auto simp: stopped_timers_def)
qed (use assms in \<open>auto simp: stopped_timers_def intro: that\<close>)

lemma close_step:
  assumes ok: "svc_ok tok w" and st: "svc_state_ok w" and i: "i < sv_sessNext w"
  obtains w' where "session_closeBaseLocked E now err l i w = Normal w'" "svc_ok tok w'"
    "\<And>th. abs_svc w' th = (if ss_state (sv_sess w i) = stateClosed then abs_svc w th
       else (close_sess i (abs_svc w th))\<lparr>y_lock := (\<lambda>j. ss_wlocked (sv_sess w' j))\<rparr>)"
    "sv_est w' = sv_est w"
    "\<And>j. ss_wlocked (sv_sess w' j) =
       (ss_wlocked (sv_sess w j) \<and> \<not> (l \<and> j = i \<and> ss_state (sv_sess w i) \<noteq> stateClosed))"
proof -
  have wf: "session_wf (sv_sess w i)" using ok i by (simp add: svc_ok_def)
  obtain t where t: "stopped_timers E now (ss_tickTimerId (sv_sess w i)) w = Normal t" "tok t"
    using stopped_timers_total ok unfolding svc_ok_def by blast
  show thesis
  proof (cases "ss_state (sv_sess w i) = stateClosed")
    case True
    then show thesis
      using ok closeBaseLocked_eq [OF st wf] by (intro that [of w]) auto
  next
    case False
    let ?w' = "after_close (env_Q E) l i t w"
    have "abs_svc ?w' th = (close_sess i (abs_svc w th))\<lparr>y_lock := (\<lambda>j. ss_wlocked (sv_sess ?w' j))\<rparr>" for th
      by (auto simp: abs_svc_def after_close_def close_sess_def fun_eq_iff)
    moreover have "svc_ok tok ?w'" using ok t(2) by (auto simp: svc_ok_def after_close_def)
    ultimately show thesis
      using False t(1) closeBaseLocked_eq [OF st wf] by (intro that [of ?w']) (auto simp: after_close_def)
  qed
qed

text \<open>The session made for establishment \<open>e\<close> is started, or its start fails and it is closed.\<close>

lemma start_step:
  assumes ok: "svc_ok tok w" and st: "svc_state_ok w" and now: "sane_clock now"
    and room: "room (sv_timers w)" and free: "\<And>n. sv_sessions w n \<noteq> Some (SRemote (sv_sessNext w))"
    and s: "s = newSession (env_Q E) cfg n a c"
  obtains w' where
    "session_start E now coreErr (sv_sessNext w)
       (w\<lparr>sv_sess := (sv_sess w)(sv_sessNext w := s), sv_sessNext := Suc (sv_sessNext w)\<rparr>) =
       Normal (coreErr, w')" "svc_ok tok w'" "sv_est w' = sv_est w"
    "\<And>th e. em_remoteNodeId (sv_est w e) = n \<Longrightarrow>
       abs_svc w' th = new_sess e (if coreErr = None then stateStarted else stateClosed) (abs_svc w th)"
proof -
  let ?i = "sv_sessNext w"
  let ?s1 = "refreshActiveTime now (s\<lparr>ss_wlocked := True\<rparr>)"
  let ?w1 = "w\<lparr>sv_sess := (sv_sess w)(?i := ?s1), sv_sessNext := Suc ?i\<rparr>"
  have lock: "session_lockState stateInit s = Normal (None, s\<lparr>ss_wlocked := True\<rparr>)"
    by (simp add: s newSession_def session_lockState_def session_checkState_def)
  have "\<exists>tid t. startSessionTicker E now n ?w1 = Normal (tid, ?w1\<lparr>sv_timers := t\<rparr>) \<and> tok t"
  proof (cases "sv_state w = stateStarted")
    case True
    have tok: "tok (sv_timers w)" and dl: "sane_delay (word_of_int (sc_TickInterval (cfg_Session (sv_cfg w))))"
      using ok by (simp_all add: svc_ok_def)
    obtain tid t where "ts_StartTimer (env_T E) (word_of_int (sc_TickInterval (cfg_Session (sv_cfg w))))
        True n now (sv_timers w) = Normal (tid, t)"
      using start_total [OF tok now dl] by blast
    then show ?thesis
      using True start_inv [OF tok room now dl]
      by (auto simp: startSessionTicker_def service_lockState_def Let_def)
  next
    case False
    then have "startSessionTicker E now n ?w1 = Normal (TimerIdNone, ?w1)"
      using st lockState_ok [of ?w1 stateStarted]
      by (simp add: startSessionTicker_def svc_state_ok_def)
    then show ?thesis using ok by (intro exI [of _ TimerIdNone] exI [of _ "sv_timers w"]) (simp add: svc_ok_def)
  qed
  then obtain tid t where tick: "startSessionTicker E now n ?w1 = Normal (tid, ?w1\<lparr>sv_timers := t\<rparr>)" "tok t"
    by blast
  let ?s2 = "?s1\<lparr>ss_tickTimerId := tid, ss_state := stateStarted\<rparr>"
  let ?w2 = "w\<lparr>sv_sess := (sv_sess w)(?i := ?s2), sv_sessNext := Suc ?i, sv_timers := t\<rparr>"
  have fields: "ss_remoteNodeId s = n" "ss_core s" "\<not> ss_chClose s" "\<not> ss_wlocked s"
    by (simp_all add: s newSession_def)
  have comm: "w\<lparr>sv_sessNext := x, sv_sess := y\<rparr> = w\<lparr>sv_sess := y, sv_sessNext := x\<rparr>" for x y
    by simp
  have comm': "w\<lparr>sv_sessNext := x, sv_timers := z, sv_sess := y\<rparr> =
      w\<lparr>sv_sess := y, sv_sessNext := x, sv_timers := z\<rparr>" for x y z
    by simp
  have start: "session_start E now coreErr ?i (w\<lparr>sv_sess := (sv_sess w)(?i := s), sv_sessNext := Suc ?i\<rparr>) =
      (case coreErr of None \<Rightarrow> Normal (None, sess_update ?i session_unlockState ?w2)
       | Some e \<Rightarrow> obind (session_close E now e ?i ?w2)
           (\<lambda>w4. Normal (Some e, sess_update ?i session_unlockState w4)))"
    using tick(1) fields
    by (cases coreErr) (simp_all add: session_start_def lock sess_update_def session_simps Let_def comm comm')
  have ok2: "svc_ok tok ?w2"
    using ok tick(2) fields
    by (auto simp: svc_ok_def session_wf_def session_simps state_simps less_Suc_eq)
  show thesis
  proof (cases coreErr)
    case None
    let ?w' = "sess_update ?i session_unlockState ?w2"
    have "abs_svc ?w' th = new_sess e stateStarted (abs_svc w th)" if "em_remoteNodeId (sv_est w e) = n" for th e
      using that fields
      by (auto simp: abs_svc_def new_sess_def sess_update_def session_unlockState_def session_simps fun_eq_iff)
    moreover have "svc_ok tok ?w'"
    proof -
      have "session_wf (sv_sess ?w2 ?i)" using ok2 unfolding svc_ok_def by (auto dest: spec [of _ ?i])
      then show ?thesis
        unfolding sess_update_def by (intro svc_ok_sess [OF ok2]) (simp only: session_simps)
    qed
    ultimately show thesis
      using None start by (intro that [of ?w']) (simp_all add: sess_update_def)
  next
    case (Some e)
    obtain w4 where w4: "session_closeBaseLocked E now e False ?i ?w2 = Normal w4" "svc_ok tok w4"
      "\<And>th. abs_svc w4 th = (close_sess ?i (abs_svc ?w2 th))\<lparr>y_lock := (\<lambda>j. ss_wlocked (sv_sess w4 j))\<rparr>"
      "sv_est w4 = sv_est w"
      "\<And>j. ss_wlocked (sv_sess w4 j) = ss_wlocked (sv_sess ?w2 j)"
      using close_step [OF ok2, of ?i now e False] st by (auto simp: svc_state_ok_def state_simps)
    have next4: "sv_sessNext w4 = Suc ?i"
      using arg_cong [OF w4(3), of y_next] by (simp add: close_sess_def)
    let ?w' = "sess_update ?i session_unlockState w4"
    have "abs_svc ?w' th = (abs_svc w4 th)\<lparr>y_lock := (y_lock (abs_svc w4 th))(?i := False)\<rparr>" for th
      by (auto simp: abs_svc_def sess_update_def session_unlockState_def fun_eq_iff)
    moreover have "(abs_svc w4 th)\<lparr>y_lock := (y_lock (abs_svc w4 th))(?i := False)\<rparr> =
        new_sess d stateClosed (abs_svc w th)" if "em_remoteNodeId (sv_est w d) = n" for th d
      unfolding w4(3) w4(5) using that fields free
      by (auto simp: abs_svc_def new_sess_def close_sess_def map_compareAndDelete_def session_simps fun_eq_iff)
    moreover have "svc_ok tok ?w'"
    proof -
      have "session_wf (sv_sess w4 ?i)" using w4(2) next4 unfolding svc_ok_def by simp
      then show ?thesis
        unfolding sess_update_def by (intro svc_ok_sess [OF w4(2)]) (simp only: session_simps)
    qed
    ultimately show thesis
      using Some start w4(1,4) by (intro that [of ?w']) (simp_all add: sess_update_def session_close_def)
  qed
qed

end

end
