(* ===== verification/Establish_Sim.thy ===== *)
theory Establish_Sim
  imports Establish_Ops
begin

text \<open>
  Every step of a goroutine is a step of the protocol, and none panics.
\<close>

section \<open>Simulation\<close>

definition sim_ok ::
    "('t \<Rightarrow> bool) \<Rightarrow> nat \<Rightarrow> (nat \<Rightarrow> hold) \<Rightarrow> ('q, 't) service \<Rightarrow> (pc \<times> ('q, 't) service) outcome \<Rightarrow> bool" where
  "sim_ok tok t th w r = (case r of
     Normal (pc', w') \<Rightarrow> svc_ok tok w' \<and> astep (abs_svc w th) (abs_svc w' (th(t := hold_of pc')))
   | Panic m \<Rightarrow> False
   | Blocked \<Rightarrow> True)"

lemma sim_Blocked [simp]: "sim_ok tok t th w Blocked"
  by (simp add: sim_ok_def)

lemma abs_setth: "abs_svc w (th(t := h)) = setth t h (abs_svc w th)"
  by (simp add: abs_svc_def)

lemma simI:
  assumes "svc_ok tok w'" and "astep (abs_svc w th) s'" and "setth t (hold_of pc') (abs_svc w' th) = s'"
  shows "sim_ok tok t th w (Normal (pc', w'))"
  using assms by (simp add: sim_ok_def abs_setth)

lemma sim_stay:
  assumes "svc_ok tok w'" and "abs_svc w' th = abs_svc w th" and "th t = hold_of pc'"
  shows "sim_ok tok t th w (Normal (pc', w'))"
proof (rule simI [OF assms(1) astep.stutter])
  show "setth t (hold_of pc') (abs_svc w' th) = abs_svc w th"
    using assms(2,3) abs_setth [of w th t "hold_of pc'"] by (metis fun_upd_triv)
qed

text \<open>Only the bounds on the active state change.\<close>

lemma sim_relax:
  assumes "svc_ok tok w'" and "abs_svc w' th = abs_svc w th" and inv: "ainv (abs_svc w th)"
    and t: "th t = HA e lo hi True" and pc: "hold_of pc' = HA e 1 3 True"
  shows "sim_ok tok t th w (Normal (pc', w'))"
proof (rule simI [OF assms(1)])
  let ?s = "abs_svc w th"
  have "hold_ok ?s (th t)" using ainvD(1) [OF inv, of t] by simp
  then show "astep ?s (setth t (HA e 1 3 True) (?s\<lparr>x_a := (x_a ?s)(e := x_a ?s e)\<rparr>))"
    using t by (intro astep.advance [where lo = lo and hi = hi]) auto
  show "setth t (hold_of pc') (abs_svc w' th) = setth t (HA e 1 3 True) (?s\<lparr>x_a := (x_a ?s)(e := x_a ?s e)\<rparr>)"
    using assms(2) pc by (simp only: fun_upd_triv) simp
qed

text \<open>An update of the establishment that leaves all but one direction alone.\<close>

lemma abs_em_active:
  assumes "same_rest (sv_est w e) es" and "em_passiveState es = em_passiveState (sv_est w e)"
    and "em_ok (sv_est w e)"
  shows "abs_em e es (abs_svc w th) = (abs_svc w th)\<lparr>x_a := (x_a (abs_svc w th))(e := em_activeState es)\<rparr>"
  using assms by (auto simp: abs_em_def abs_svc_def same_rest_def fun_eq_iff)

lemma abs_em_passive:
  assumes "same_rest (sv_est w e) es" and "em_activeState es = em_activeState (sv_est w e)"
    and "em_ok (sv_est w e)"
  shows "abs_em e es (abs_svc w th) = (abs_svc w th)\<lparr>x_p := (x_p (abs_svc w th))(e := em_passiveState es)\<rparr>"
  using assms by (auto simp: abs_em_def abs_svc_def same_rest_def fun_eq_iff)

context svc_timers
begin

lemma em_ok_of:
  assumes "ainv (abs_svc w th)" and "known (abs_svc w th) e"
  shows "em_ok (sv_est w e)"
  using assms by (simp add: known_def)

lemma sim_Connect_enter:
  assumes inv: "ainv (abs_svc w th)" and ok: "svc_ok tok w" and t: "th t = HNone"
  shows "sim_ok tok t th w (Connect_enter now n w)"
proof -
  obtain r w1 where "service_GetSession now n w = Normal (r, w1)" "svc_ok tok w1"
    "\<And>th. abs_svc w1 th = abs_svc w th"
    using GetSession_step [OF inv ok] by metis
  then show ?thesis using t by (auto simp: Connect_enter_def intro!: sim_stay split: option.split)
qed

lemma sim_obtained:
  assumes ok: "svc_ok tok w" and t: "th t = HNone" and st: "sv_state w = stateStarted"
    and get: "getOrCreateEstablishment missed n w = (e, w')" and pc: "hold_of pc' = HStart e"
  shows "sim_ok tok t th w (Normal (pc', w'))"
proof -
  note step = getOrCreateEstablishment_step [OF get]
  let ?s = "abs_svc w th"
  have th: "x_th ?s t = HNone" and svc: "x_svc ?s = stateStarted" using t st by simp_all
  show ?thesis
  proof (cases "sv_establishments w n")
    case None
    then show ?thesis
      using step ok pc
      by (intro simI [OF _ astep.obtain_new [OF svc th, of n]]) (auto simp: abs_svc_def new_est_def)
  next
    case (Some e')
    then have cur: "x_cur ?s n = Some e'" by simp
    show ?thesis
    proof (cases missed)
      case True
      then show ?thesis
        using step ok pc Some by (intro simI [OF _ astep.obtain_miss [OF svc th cur]]) auto
    next
      case False
      then show ?thesis
        using step ok pc Some by (intro simI [OF _ astep.obtain_old [OF svc th cur]]) auto
    qed
  qed
qed

lemma sim_Connect_obtain:
  assumes inv: "ainv (abs_svc w th)" and ok: "svc_ok tok w" and t: "th t = HNone"
  shows "sim_ok tok t th w (Connect_obtain missed n w)"
proof (cases "sv_state w = stateStarted")
  case True
  obtain e w' where get: "getOrCreateEstablishment missed n w = (e, w')" by fastforce
  then show ?thesis
    using True lockState_ok [OF svc_state_okI [OF inv], of stateStarted]
    by (simp add: Connect_obtain_def sim_obtained [where th = th and t = t, OF ok t True get])
next
  case False
  then show ?thesis
    using ok t lockState_ok [OF svc_state_okI [OF inv], of stateStarted]
    by (auto simp: Connect_obtain_def intro!: sim_stay)
qed

lemma sim_Connect_wait:
  assumes inv: "ainv (abs_svc w th)" and ok: "svc_ok tok w" and t: "th t = HWait e"
  shows "sim_ok tok t th w (Connect_wait now n e w)"
proof (cases "em_chEnd (sv_est w e)")
  case True
  have leave: "sim_ok tok t th w (Normal (C_Done r err, w'))"
    if "svc_ok tok w'" "abs_svc w' th = abs_svc w th" for r err w'
    using that t by (intro simI [OF _ astep.leave [where e = e]]) auto
  obtain r w1 where "service_GetSession now n w = Normal (r, w1)" "svc_ok tok w1"
    "\<And>th. abs_svc w1 th = abs_svc w th"
    using GetSession_step [OF inv ok] by metis
  then show ?thesis
    using True ok leave by (auto simp: Connect_wait_def em_wait_def split: option.split)
qed (simp add: Connect_wait_def em_wait_def)

lemma sim_onPassiveConn_read:
  assumes "svc_ok tok w" and "th t = HNone"
  shows "sim_ok tok t th w (onPassiveConn_read ans c w)"
  using assms
  by (auto simp: onPassiveConn_read_def intro!: sim_stay split: answer.split hs_message.split)

lemma sim_onPassiveConn_obtain:
  assumes inv: "ainv (abs_svc w th)" and ok: "svc_ok tok w" and t: "th t = HNone"
  shows "sim_ok tok t th w (onPassiveConn_obtain now missed c n time w)"
proof (cases "sv_state w = stateStarted")
  case True
  obtain r w1 where g: "service_getSession now n w = Normal (r, w1)" "svc_ok tok w1"
    "\<And>th. abs_svc w1 th = abs_svc w th"
    using getSession_step [OF ok] map_sids [OF inv] by metis
  obtain e w' where get: "getOrCreateEstablishment missed n w1 = (e, w')" by fastforce
  have st: "sv_state w1 = stateStarted" using arg_cong [OF g(3), of x_svc] True by simp
  have "sim_ok tok t th w1 (Normal (P_Start e c time, w'))"
    using sim_obtained [where th = th and t = t, OF g(2) t st get] by simp
  then have "sim_ok tok t th w (Normal (P_Start e c time, w'))"
    by (simp add: sim_ok_def g(3))
  then show ?thesis
    using True g get t lockState_ok [OF svc_state_okI [OF inv], of stateStarted]
    by (auto simp: onPassiveConn_obtain_def intro!: sim_stay split: option.split)
next
  case False
  then show ?thesis
    using ok t lockState_ok [OF svc_state_okI [OF inv], of stateStarted]
    by (auto simp: onPassiveConn_obtain_def intro!: sim_stay)
qed

lemma sim_onPassiveConn_wait:
  assumes "svc_ok tok w" and "th t = HWait e"
  shows "sim_ok tok t th w (onPassiveConn_wait e w)"
  using assms
  by (cases "em_chEnd (sv_est w e)")
    (auto simp: onPassiveConn_wait_def em_wait_def intro!: simI [OF _ astep.leave [where e = e]])

lemma sim_startActiveEstablish:
  assumes inv: "ainv (abs_svc w th)" and ok: "svc_ok tok w" and t: "th t = HStart e"
  shows "sim_ok tok t th w (startActiveEstablish now e w)"
proof (cases "em_locked (sv_est w e)")
  case False
  have known: "known (abs_svc w th) e" using ainvD(1) [OF inv, of t] t by simp
  obtain b es where sa: "em_startActive (sint now) (sv_est w e) = (b, es)" by fastforce
  note c = startActive_cases [OF em_ok_of [OF inv known] sa]
  note eq = abs_em_active [OF _ _ em_ok_of [OF inv known], of es]
  show ?thesis
  proof (cases b)
    case True
    then show ?thesis
      using False sa c ok t
      by (auto simp: startActiveEstablish_def eq
          intro!: simI [OF _ astep.start_active [where e = e and t = t]])
  next
    case nb: False
    have "abs_em e es (abs_svc w th) = abs_svc w th"
      using c nb eq by (auto simp: abs_svc_def fun_eq_iff)
    then show ?thesis
      using False nb sa c ok t
      by (auto simp: startActiveEstablish_def begun_def
          intro!: simI [OF _ astep.start_not [where e = e and t = t]])
  qed
qed (simp add: startActiveEstablish_def)

lemma sim_startPassiveEstablish:
  assumes inv: "ainv (abs_svc w th)" and ok: "svc_ok tok w" and t: "th t = HStart e"
  shows "sim_ok tok t th w (startPassiveEstablish e c time w)"
proof (cases "em_locked (sv_est w e)")
  case False
  have known: "known (abs_svc w th) e" using ainvD(1) [OF inv, of t] t by simp
  obtain b es where sa: "em_startPassive time (sv_est w e) = (b, es)" by fastforce
  note c = startPassive_cases [OF em_ok_of [OF inv known] sa]
  note eq = abs_em_passive [OF _ _ em_ok_of [OF inv known], of es]
  show ?thesis
  proof (cases b)
    case True
    have "em_passiveState (sv_est w e) \<noteq> 1"
    proof
      assume p: "em_passiveState (sv_est w e) = 1"
      then have "ex_th (isP e) th"
        using inv known c True by (auto simp: ainv_def j_driven_def known_def pend_def)
      then obtain t' where "isP e (th t')" by (auto simp: ex_th_def)
      then show False using isP_ok ainvD(1) [OF inv, of t'] p by fastforce
    qed
    then show ?thesis
      using True False sa c ok t
      by (auto simp: startPassiveEstablish_def eq
          intro!: simI [OF _ astep.start_passive [where e = e and t = t]])
  next
    case nb: False
    have "abs_em e es (abs_svc w th) = abs_svc w th"
      using c nb eq by (auto simp: abs_svc_def fun_eq_iff)
    then show ?thesis
      using False nb sa ok t
      by (auto simp: startPassiveEstablish_def Let_def
          intro!: simI [OF _ astep.leave [where e = e and t = t]])
  qed
qed (simp add: startPassiveEstablish_def)

lemma sim_check:
  assumes inv: "ainv (abs_svc w th)" and ok: "svc_ok tok w"
    and t: "th t = HA e lo hi False" and pcs: "hold_of pc1 = HA e lo hi True"
      "\<And>r. hold_of (pc2 r) = HA e lo hi False"
  shows "sim_ok tok t th w (obind (service_GetSession now (em_remoteNodeId (sv_est w e)) w)
     (\<lambda>(session, w1). case session of Some r \<Rightarrow> Normal (pc2 r, w1) | None \<Rightarrow> Normal (pc1, w1)))"
proof -
  obtain r w1 where g: "service_GetSession now (em_remoteNodeId (sv_est w e)) w = Normal (r, w1)"
    "svc_ok tok w1" "\<And>th. abs_svc w1 th = abs_svc w th"
    "r = None \<Longrightarrow> sv_state w = stateStarted \<Longrightarrow> \<not> busy (abs_svc w th) (em_remoteNodeId (sv_est w e))"
    using GetSession_step [OF inv ok] by metis
  have at: "x_th (abs_svc w th) t = HA e lo hi False" using t by simp
  show ?thesis
  proof (cases r)
    case None
    then show ?thesis
      using g pcs by (auto intro!: simI [OF _ astep.check_active [OF at]])
  next
    case (Some r')
    then show ?thesis using g pcs t by (auto intro!: sim_stay)
  qed
qed

lemma sim_check_passive:
  assumes inv: "ainv (abs_svc w th)" and ok: "svc_ok tok w" and t: "th t = HP e False"
  shows "sim_ok tok t th w (startPassiveEstablish_check now e c w)"
proof -
  obtain r w1 where g: "service_GetSession now (em_remoteNodeId (sv_est w e)) w = Normal (r, w1)"
    "svc_ok tok w1" "\<And>th. abs_svc w1 th = abs_svc w th"
    "r = None \<Longrightarrow> sv_state w = stateStarted \<Longrightarrow> \<not> busy (abs_svc w th) (em_remoteNodeId (sv_est w e))"
    using GetSession_step [OF inv ok] by metis
  have at: "x_th (abs_svc w th) t = HP e False" using t by simp
  show ?thesis
  proof (cases r)
    case None
    then show ?thesis
      using g by (auto simp: startPassiveEstablish_check_def intro!: simI [OF _ astep.check_passive [OF at]])
  next
    case (Some r')
    then show ?thesis using g t by (auto simp: startPassiveEstablish_check_def intro!: sim_stay)
  qed
qed

lemma sim_check_active:
  assumes "ainv (abs_svc w th)" and "svc_ok tok w" and "th t = HA e 1 1 False"
  shows "sim_ok tok t th w (startActiveEstablish_check now e w)"
  unfolding startActiveEstablish_check_def using assms by (rule sim_check) simp_all

lemma sim_end_with:
  assumes inv: "ainv (abs_svc w th)" and ok: "svc_ok tok w"
    and t: "th t = HA e lo hi False \<or> th t = HP e False" and pc: "hold_of pc' = HWait e"
  shows "sim_ok tok t th w (obind (establish_end_with e r w) (\<lambda>w1. Normal (pc', w1)))"
proof (cases "em_locked (sv_est w e)")
  case False
  have "known (abs_svc w th) e" using ainvD(1) [OF inv, of t] t by auto
  then have "em_ok (sv_est w e)" using em_ok_of [OF inv] by simp
  then obtain es where es: "em_end (Some r) None (sv_est w e) = Normal es" "em_ok es" "em_isEnd es"
    "em_remoteNodeId es = em_remoteNodeId (sv_est w e)" "em_locked es = em_locked (sv_est w e)"
    "em_activeState es = em_activeState (sv_est w e)" "em_passiveState es = em_passiveState (sv_est w e)"
    by (rule end_cases)
  have "abs_em e es (abs_svc w th) = (abs_svc w th)\<lparr>x_end := (x_end (abs_svc w th))(e := True)\<rparr>"
    using es \<open>em_ok (sv_est w e)\<close> by (auto simp: abs_em_def abs_svc_def fun_eq_iff)
  then show ?thesis
    using False es(1) ok t pc
    by (auto simp: establish_end_with_def intro!: simI [OF _ astep.end_with [where e = e and t = t]])
qed (simp add: establish_end_with_def)

lemma sim_dial:
  assumes inv: "ainv (abs_svc w th)" and ok: "svc_ok tok w" and t: "th t = HA e 1 1 True"
  shows "sim_ok tok t th w (activeEstablishConnect ans e w)"
  using assms
  by (cases ans) (auto simp: activeEstablishConnect_def intro: sim_stay sim_relax)

lemma sim_handshake:
  assumes inv: "ainv (abs_svc w th)" and ok: "svc_ok tok w" and t: "th t = HA e 1 1 True"
  shows "sim_ok tok t th w (activeEstablishHandshake_begin e c w)"
proof (cases "em_locked (sv_est w e)")
  case False
  have known: "known (abs_svc w th) e" and a: "em_activeState (sv_est w e) = 1"
    using ainvD(1) [OF inv, of t] t by simp_all
  obtain b es where sa: "em_startActiveHandshake (sv_est w e) = (b, es)" by fastforce
  note c = startActiveHandshake_cases [OF em_ok_of [OF inv known] sa a]
  note eq = abs_em_active [OF _ _ em_ok_of [OF inv known], of es]
  show ?thesis
  proof (cases b)
    case True
    then show ?thesis
      using False sa c ok t
      by (auto simp: activeEstablishHandshake_begin_def eq
          intro!: simI [OF _ astep.advance [where e = e and t = t and v = 2 and lo' = 2 and hi' = 2]])
  next
    case nb: False
    have "abs_em e es (abs_svc w th) = abs_svc w th"
      using c nb eq a by (auto simp: abs_svc_def fun_eq_iff)
    then show ?thesis
      using False nb sa c ok t
      by (auto simp: activeEstablishHandshake_begin_def
          intro!: simI [OF _ astep.give_up [where e = e and t = t]])
  qed
qed (simp add: activeEstablishHandshake_begin_def)

lemma sim_apply:
  assumes inv: "ainv (abs_svc w th)" and ok: "svc_ok tok w" and t: "th t = HA e 2 2 True"
  shows "sim_ok tok t th w (activeEstablishHandshake_apply ans e c w)"
  using assms
  by (cases ans) (auto simp: activeEstablishHandshake_apply_def intro: sim_stay sim_relax)

lemma sim_resp:
  assumes inv: "ainv (abs_svc w th)" and ok: "svc_ok tok w" and t: "th t = HA e 2 2 True"
  shows "sim_ok tok t th w (activeEstablishHandshake_resp ans e c w)"
proof (cases ans)
  case (Recv m)
  then show ?thesis
    using assms
    by (cases m) (auto simp: activeEstablishHandshake_resp_def intro: sim_stay sim_relax)
qed (use assms in \<open>auto simp: activeEstablishHandshake_resp_def intro: sim_stay sim_relax\<close>)

lemma sim_about:
  assumes inv: "ainv (abs_svc w th)" and ok: "svc_ok tok w" and t: "th t = HA e 2 2 True"
  shows "sim_ok tok t th w (activeEstablishAboutSuccess_begin e c w)"
proof (cases "em_locked (sv_est w e)")
  case False
  have known: "known (abs_svc w th) e" and a: "em_activeState (sv_est w e) = 2"
    using ainvD(1) [OF inv, of t] t by simp_all
  note c = activeAboutSuccess_cases [OF em_ok_of [OF inv known] a]
  note eq = abs_em_active [OF _ _ em_ok_of [OF inv known]]
  show ?thesis
    using False c ok t
    by (auto simp: activeEstablishAboutSuccess_begin_def eq
        intro!: simI [OF _ astep.advance [where e = e and t = t and v = 3 and lo' = 3 and hi' = 3]])
qed (simp add: activeEstablishAboutSuccess_begin_def)

lemma sim_completed:
  assumes inv: "ainv (abs_svc w th)" and ok: "svc_ok tok w" and t: "th t = HA e 3 3 True"
  shows "sim_ok tok t th w (activeEstablishAboutSuccess_write ans e c w)"
  using assms
  by (cases ans) (auto simp: activeEstablishAboutSuccess_write_def intro: sim_stay sim_relax)

lemma sim_ack:
  assumes inv: "ainv (abs_svc w th)" and ok: "svc_ok tok w" and t: "th t = HA e 3 3 True"
  shows "sim_ok tok t th w (activeEstablishAboutSuccess_ack ans e c w)"
proof (cases ans)
  case (Recv m)
  then show ?thesis
    using assms
    by (cases m) (auto simp: activeEstablishAboutSuccess_ack_def intro: sim_stay sim_relax)
qed (use assms in \<open>auto simp: activeEstablishAboutSuccess_ack_def intro: sim_stay sim_relax\<close>)

lemma sim_passive_handshake:
  assumes "svc_ok tok w" and "th t = HP e True"
  shows "sim_ok tok t th w (passiveEstablishHandshake_accept ans e c w)"
    and "sim_ok tok t th w (passiveEstablishHandshake_reply ans e c w)"
    and "sim_ok tok t th w (passiveEstablishHandshake_ack ans e c w)"
  using assms
  by (auto simp: passiveEstablishHandshake_accept_def passiveEstablishHandshake_reply_def
      passiveEstablishHandshake_ack_def intro!: sim_stay split: answer.split hs_message.split)

text \<open>The end of a direction.\<close>

lemma hold_wait_pc [simp]: "hold_of (wait_pc r e) = HWait e"
  by (cases r) simp_all

lemma em_ok_locked [simp]: "em_ok (es\<lparr>em_locked := b\<rparr>) = em_ok es"
  by (simp add: em_ok_def em_isEnd_def)

lemma em_locked_fields [simp]:
  "em_isEnd (es\<lparr>em_locked := b\<rparr>) = em_isEnd es"
  "em_activeState (es\<lparr>em_locked := b\<rparr>) = em_activeState es"
  "em_passiveState (es\<lparr>em_locked := b\<rparr>) = em_passiveState es"
  by (simp_all add: em_isEnd_def em_activeState_def em_passiveState_def)

lemma abs_lock:
  "abs_svc (es_lock e w) th = (abs_svc w th)\<lparr>x_lock := (x_lock (abs_svc w th))(e := True)\<rparr>"
  "abs_svc (es_unlock e w) th = (abs_svc w th)\<lparr>x_lock := (x_lock (abs_svc w th))(e := False)\<rparr>"
  by (auto simp: es_lock_def es_unlock_def est_update_def abs_svc_def fun_eq_iff simp del: abs_est_update)

lemma sv_est_update [simp]: "sv_est (est_update e f w) = (sv_est w)(e := f (sv_est w e))"
  by (simp add: est_update_def)

lemma svc_ok_lock [simp]: "svc_ok tk (es_lock e w) = svc_ok tk w" "svc_ok tk (es_unlock e w) = svc_ok tk w"
  by (simp_all add: es_lock_def es_unlock_def)

lemma set_side_fields [simp]:
  "x_end (set_side r e v s) = x_end s" "x_lock (set_side r e v s) = x_lock s"
  "x_rid (set_side r e v s) = x_rid s" "x_cur (set_side r e v s) = x_cur s"
  "x_th (set_side r e v s) = x_th s" "other_side r (set_side r e v s) = other_side r s"
  by (cases r; simp add: fun_eq_iff)+

lemma sim_enter:
  assumes dr: "drives r e (th t)" and lk: "\<not> em_locked (sv_est w e)" and v: "4 \<le> v"
    and np: "\<not> pend (other_side r (abs_svc w th) e)"
    and ok: "svc_ok tok w1" and em: "em_ok (sv_est w1 e)"
    and abs: "\<And>th. abs_svc w1 th = set_side r e v (abs_svc w th)"
  shows "sim_ok tok t th w (establishEnd_enter role e w1)"
proof -
  let ?es = "sv_est w1 e" and ?s = "abs_svc w th"
  have at: "drives r e (x_th ?s t)" "\<not> x_lock ?s e" using dr lk by simp_all
  have same: "em_isEnd ?es = em_isEnd (sv_est w e)"
    "em_locked ?es = em_locked (sv_est w e)"
    using fun_cong [OF arg_cong [OF abs, of x_end], of th e]
      fun_cong [OF arg_cong [OF abs, of x_lock], of th e] by simp_all
  have sides: "em_activeState ?es = x_a (set_side r e v ?s) e"
    "em_passiveState ?es = x_p (set_side r e v ?s) e"
    unfolding abs [symmetric] by simp_all
  show ?thesis
  proof (cases "em_isEnd ?es")
    case True
    then show ?thesis
      using same ok abs v
      by (auto simp: establishEnd_enter_def Let_def intro!: simI [OF _ astep.side_waits [OF at, of v]])
  next
    case False
    have "\<not> pend (em_activeState ?es)" "\<not> pend (em_passiveState ?es)"
      "1 \<le> em_activeState ?es \<or> 1 \<le> em_passiveState ?es"
      using sides v np by (cases r; auto simp: pend_def)+
    then obtain vd where ch: "establishEnd_choice (cfg_NodeId (sv_cfg w1)) ?es = choice_of vd"
      using choice_decided [OF em] by metis
    have alive: "\<not> x_end ?s e" using False same by simp
    note at = at(1,2) v alive np
    show ?thesis
    proof (cases vd)
      case (GiveUp err)
      obtain w2 where w2: "establishEndFailed err e w1 = Normal w2" "svc_ok tok w2"
        "\<And>th. abs_svc w2 th = (uncur e (abs_svc w1 th))\<lparr>x_end := (x_end (abs_svc w1 th))(e := True)\<rparr>"
        using establishEndFailed_step [OF em ok] by metis
      have "setth t (hold_of (wait_pc role e)) (abs_svc w2 th) = fail_end t e (set_side r e v ?s)"
        using at(2) by (simp add: w2(3) abs fail_end_def uncur_def fun_upd_idem)
      then show ?thesis
        using False ch GiveUp w2 at
        by (auto simp: establishEnd_enter_def Let_def intro!: simI [OF _ astep.side_fails [of r e ?s t v]])
    next
      case (KeepActive c l)
      then show ?thesis
        using False ch at ok
        by (auto simp: establishEnd_enter_def Let_def abs_lock abs
            intro!: simI [OF _ astep.side_creates [of r e ?s t v]] split: option.split)
    next
      case (KeepPassive c l)
      then show ?thesis
        using False ch at ok
        by (auto simp: establishEnd_enter_def Let_def abs_lock abs
            intro!: simI [OF _ astep.side_creates [of r e ?s t v]] split: option.split)
    qed
  qed
qed

lemma sim_side_waits:
  assumes "drives r e (th t)" and "\<not> em_locked (sv_est w e)" and "4 \<le> v"
    and "pend (other_side r (abs_svc w th) e)" and "svc_ok tok w1"
    and "\<And>th. abs_svc w1 th = set_side r e v (abs_svc w th)" and "hold_of pc' = HWait e"
  shows "sim_ok tok t th w (Normal (pc', w1))"
  using assms by (intro simI [OF _ astep.side_waits [of r e "abs_svc w th" t v]]) auto

lemma sim_activeEstablishSuccess:
  assumes inv: "ainv (abs_svc w th)" and ok: "svc_ok tok w" and t: "th t = HA e 3 3 True"
  shows "sim_ok tok t th w (activeEstablishSuccess e c w)"
proof (cases "em_locked (sv_est w e)")
  case False
  have known: "known (abs_svc w th) e" and a: "1 \<le> em_activeState (sv_est w e)" "em_activeState (sv_est w e) \<le> 3"
    using ainvD(1) [OF inv, of t] t by simp_all
  obtain b es where sa: "em_activeSuccess c (sv_est w e) = (b, es)" by fastforce
  note emok = em_ok_of [OF inv known]
  note cs = activeSuccess_cases [OF emok a sa]
  let ?w1 = "est_update e (\<lambda>_. es) w"
  have dr: "drives ActiveSide e (th t)" using t by simp
  have abs: "abs_svc ?w1 th = set_side ActiveSide e 4 (abs_svc w th)" for th
    using abs_em_active [OF _ _ emok, of es] cs by simp
  have ok1: "svc_ok tok ?w1" "em_ok (sv_est ?w1 e)" using ok cs by (simp_all add: same_rest_def)
  show ?thesis
  proof (cases "pend (em_passiveState (sv_est w e))")
    case True
    then show ?thesis
      using False sa cs sim_side_waits [where th = th and t = t, OF dr False _ _ ok1(1) abs, of "C_Wait e"]
      by (simp add: activeEstablishSuccess_def isEstablishing_pend)
  next
    case np: False
    then show ?thesis
      using False sa cs sim_enter [where th = th and t = t, OF dr False _ _ ok1 abs]
      by (simp add: activeEstablishSuccess_def isEstablishing_pend)
  qed
qed (simp add: activeEstablishSuccess_def)

lemma sim_activeEstablishFail:
  assumes inv: "ainv (abs_svc w th)" and ok: "svc_ok tok w" and t: "th t = HA e 1 3 True"
  shows "sim_ok tok t th w (activeEstablishFail e co err w)"
proof (cases "em_locked (sv_est w e)")
  case False
  have known: "known (abs_svc w th) e" and a: "1 \<le> em_activeState (sv_est w e)" "em_activeState (sv_est w e) \<le> 3"
    using ainvD(1) [OF inv, of t] t by simp_all
  obtain b es where sa: "em_activeFail err (sv_est w e) = (b, es)" by fastforce
  note emok = em_ok_of [OF inv known]
  note cs = activeFail_cases [OF emok a sa]
  let ?w0 = "case co of None \<Rightarrow> w | Some c \<Rightarrow> close_conn c w"
  let ?w1 = "est_update e (\<lambda>_. es) ?w0"
  have w0: "sv_est ?w0 = sv_est w" "abs_svc ?w0 th = abs_svc w th" "svc_ok tok ?w0" for th
    using ok by (cases co; simp add: close_conn_def svc_ok_def abs_svc_def)+
  have dr: "drives ActiveSide e (th t)" using t by simp
  have abs: "abs_svc ?w1 th = set_side ActiveSide e 5 (abs_svc w th)" for th
    using abs_em_active [OF _ _ emok, of es] cs w0 by simp
  have ok1: "svc_ok tok ?w1" "em_ok (sv_est ?w1 e)" using w0 cs by (simp_all add: same_rest_def)
  show ?thesis
  proof (cases "pend (em_passiveState (sv_est w e))")
    case True
    then show ?thesis
      using False sa cs w0 sim_side_waits [where th = th and t = t, OF dr False _ _ ok1(1) abs, of "C_Wait e"]
      by (simp add: activeEstablishFail_def Let_def isEstablishing_pend)
  next
    case np: False
    then show ?thesis
      using False sa cs w0 sim_enter [where th = th and t = t, OF dr False _ _ ok1 abs]
      by (simp add: activeEstablishFail_def Let_def isEstablishing_pend)
  qed
qed (simp add: activeEstablishFail_def)

lemma sim_passiveEstablishSuccess:
  assumes inv: "ainv (abs_svc w th)" and ok: "svc_ok tok w" and t: "th t = HP e True"
  shows "sim_ok tok t th w (passiveEstablishSuccess e c w)"
proof (cases "em_locked (sv_est w e)")
  case False
  have known: "known (abs_svc w th) e" and p: "em_passiveState (sv_est w e) = 2"
    using ainvD(1) [OF inv, of t] t by simp_all
  obtain b es where sa: "em_passiveSuccess c (sv_est w e) = (b, es)" by fastforce
  note emok = em_ok_of [OF inv known]
  note cs = passiveSuccess_cases [OF emok p sa]
  let ?w1 = "est_update e (\<lambda>_. es) w"
  have dr: "drives PassiveSide e (th t)" using t by simp
  have abs: "abs_svc ?w1 th = set_side PassiveSide e 4 (abs_svc w th)" for th
    using abs_em_passive [OF _ _ emok, of es] cs by simp
  have ok1: "svc_ok tok ?w1" "em_ok (sv_est ?w1 e)" using ok cs by (simp_all add: same_rest_def)
  show ?thesis
  proof (cases "pend (em_activeState (sv_est w e))")
    case True
    then show ?thesis
      using False sa cs sim_side_waits [where th = th and t = t, OF dr False _ _ ok1(1) abs, of "P_Wait e"]
      by (simp add: passiveEstablishSuccess_def isEstablishing_pend)
  next
    case np: False
    then show ?thesis
      using False sa cs sim_enter [where th = th and t = t, OF dr False _ _ ok1 abs]
      by (simp add: passiveEstablishSuccess_def isEstablishing_pend)
  qed
qed (simp add: passiveEstablishSuccess_def)

lemma sim_passiveEstablishFail:
  assumes inv: "ainv (abs_svc w th)" and ok: "svc_ok tok w" and t: "th t = HP e True"
  shows "sim_ok tok t th w (passiveEstablishFail e c err w)"
proof (cases "em_locked (sv_est w e)")
  case False
  have known: "known (abs_svc w th) e" and p: "em_passiveState (sv_est w e) = 2"
    using ainvD(1) [OF inv, of t] t by simp_all
  obtain b es where sa: "em_passiveFail err (sv_est w e) = (b, es)" by fastforce
  note emok = em_ok_of [OF inv known]
  note cs = passiveFail_cases [OF emok p sa]
  let ?w1 = "est_update e (\<lambda>_. es) (close_conn c w)"
  have w0: "sv_est (close_conn c w) = sv_est w" by (simp add: close_conn_def)
  have dr: "drives PassiveSide e (th t)" using t by simp
  have abs: "abs_svc ?w1 th = set_side PassiveSide e 5 (abs_svc w th)" for th
    using abs_em_passive [OF _ _ emok, of es] cs by simp
  have ok1: "svc_ok tok ?w1" "em_ok (sv_est ?w1 e)" using ok cs by (simp_all add: same_rest_def)
  show ?thesis
  proof (cases "pend (em_activeState (sv_est w e))")
    case True
    then show ?thesis
      using False sa cs w0 sim_side_waits [where th = th and t = t, OF dr False _ _ ok1(1) abs, of "P_Wait e"]
      by (simp add: passiveEstablishFail_def Let_def isEstablishing_pend)
  next
    case np: False
    then show ?thesis
      using False sa cs w0 sim_enter [where th = th and t = t, OF dr False _ _ ok1 abs]
      by (simp add: passiveEstablishFail_def Let_def isEstablishing_pend)
  qed
qed (simp add: passiveEstablishFail_def)

section \<open>Making the session\<close>

lemma fail_end_step:
  assumes "em_ok (sv_est w1 e)" and "svc_ok tok w1"
  obtains w2 where "establishEndFailed err e w1 = Normal w2" "svc_ok tok (es_unlock e w2)"
    "\<And>th. setth t (HWait e) (abs_svc (es_unlock e w2) th) = fail_end t e (abs_svc w1 th)"
proof -
  obtain w2 where w2: "establishEndFailed err e w1 = Normal w2" "svc_ok tok w2"
    "\<And>th. abs_svc w2 th = (uncur e (abs_svc w1 th))\<lparr>x_end := (x_end (abs_svc w1 th))(e := True)\<rparr>"
    using establishEndFailed_step [OF assms] by metis
  then show thesis
    by (intro that [of w2]) (simp_all add: abs_lock fail_end_def uncur_def)
qed

lemma sim_end_create:
  assumes inv: "ainv (abs_svc w th)" and ok: "svc_ok tok w" and t: "th t = HE e None l"
    and now: "sane_clock now" and room: "room (sv_timers w)"
  shows "sim_ok tok t th w (end_create E now ans r e c active w)"
proof (cases ans)
  case (CoreStart coreErr)
  have known: "known (abs_svc w th) e" using ainvD(1) [OF inv, of t] t by simp
  have at: "x_th (abs_svc w th) t = HE e None l" using t by simp
  have free: "sv_sessions w n \<noteq> Some (SRemote (sv_sessNext w))" for n
    using map_sids [OF inv, of n "sv_sessNext w"] by auto
  obtain w2 where w2: "session_start E now coreErr (sv_sessNext w)
      (w\<lparr>sv_sess := (sv_sess w)(sv_sessNext w := newSession (env_Q E) (cfg_Session (sv_cfg w))
         (em_remoteNodeId (sv_est w e)) active c), sv_sessNext := Suc (sv_sessNext w)\<rparr>) = Normal (coreErr, w2)"
    "svc_ok tok w2" "sv_est w2 = sv_est w"
    "\<And>th. abs_svc w2 th = new_sess e (if coreErr = None then stateStarted else stateClosed) (abs_svc w th)"
    using start_step [OF ok svc_state_okI [OF inv] now room free refl] by metis
  show ?thesis
  proof (cases coreErr)
    case None
    then show ?thesis
      using w2 CoreStart
      by (auto simp: end_create_def end_continue_def ecs_start_def Let_def
          intro!: simI [OF _ astep.create_ok [OF at]])
  next
    case (Some err)
    have em: "em_ok (sv_est (close_conn c w2) e)"
      using em_ok_of [OF inv known] w2(3) by (simp add: close_conn_def)
    obtain w3 where w3: "establishEndFailed err e (close_conn c w2) = Normal w3"
      "svc_ok tok (es_unlock e w3)"
      "\<And>th. setth t (HWait e) (abs_svc (es_unlock e w3) th) = fail_end t e (abs_svc (close_conn c w2) th)"
      using fail_end_step [OF em] w2(2) by (metis abs_unseen(2))
    then show ?thesis
      using w2 CoreStart Some
      by (auto simp: end_create_def end_continue_def ecs_start_def Let_def
          intro!: simI [OF _ astep.create_fails [OF at]])
  qed
qed (simp_all add: end_create_def)

lemma sim_ecs_check:
  assumes inv: "ainv (abs_svc w th)" and ok: "svc_ok tok w" and t: "th t = HE e (Some i) False"
  shows "sim_ok tok t th w (end_continue r e (\<lambda>_. E_Commit r e i) (ecs_check e i w))"
proof -
  have h: "known (abs_svc w th) e" "i < sv_sessNext w" "\<not> ss_wlocked (sv_sess w i)"
    using ainvD(1) [OF inv, of t] t by simp_all
  have wf: "session_wf (sv_sess w i)" using ok h(2) by (simp add: svc_ok_def)
  have at: "x_th (abs_svc w th) t = HE e (Some i) False" using t by simp
  show ?thesis
  proof (cases "ss_state (sv_sess w i) = stateStarted")
    case True
    let ?w' = "sess_update i (\<lambda>_. (sv_sess w i)\<lparr>ss_wlocked := True\<rparr>) w"
    have "abs_svc ?w' th = (abs_svc w th)\<lparr>y_lock := (y_lock (abs_svc w th))(i := True)\<rparr>"
      by (auto simp: abs_svc_def sess_update_def fun_eq_iff)
    moreover have "svc_ok tok ?w'"
      using svc_ok_sess [OF ok, of "(sv_sess w i)\<lparr>ss_wlocked := True\<rparr>" i] wf
      by (simp add: sess_update_def session_simps)
    ultimately show ?thesis
      using True h wf
      by (auto simp: end_continue_def ecs_check_def session_lockState_def checkState_wf
          intro!: simI [OF _ astep.lock_ok [OF at]])
  next
    case False
    obtain err where err: "session_lockState stateStarted (sv_sess w i) = Normal (Some err, sv_sess w i)"
      using False h(3) wf by (auto simp: session_lockState_def checkState_wf)
    obtain w3 where w3: "establishEndFailed err e w = Normal w3" "svc_ok tok (es_unlock e w3)"
      "\<And>th. setth t (HWait e) (abs_svc (es_unlock e w3) th) = fail_end t e (abs_svc w th)"
      using fail_end_step [OF em_ok_of [OF inv h(1)] ok] by metis
    then show ?thesis
      using False err
      by (auto simp: end_continue_def ecs_check_def intro!: simI [OF _ astep.lock_fails [OF at]])
  qed
qed

lemma sim_ecs_commit:
  assumes inv: "ainv (abs_svc w th)" and ok: "svc_ok tok w" and t: "th t = HE e (Some i) True"
  shows "sim_ok tok t th w (end_continue r e (\<lambda>_. E_Finish r e i) (ecs_commit E now e i w))"
proof -
  have h: "known (abs_svc w th) e" "i < sv_sessNext w"
    "ss_remoteNodeId (sv_sess w i) = em_remoteNodeId (sv_est w e)"
    using ainvD(1) [OF inv, of t] t by simp_all
  have wf: "session_wf (sv_sess w i)" using ok h(2) by (simp add: svc_ok_def)
  have at: "x_th (abs_svc w th) t = HE e (Some i) True" using t by simp
  note st = svc_state_okI [OF inv]
  show ?thesis
  proof (cases "sv_state w = stateStarted")
    case True
    let ?w1 = "sess_update i session_unlockState (sessionMap_add (SRemote i) w)"
    let ?w' = "?w1\<lparr>sv_establishments :=
        snd (map_compareAndDelete (em_remoteNodeId (sv_est ?w1 e)) e (sv_establishments ?w1))\<rparr>"
    have "setth t (HFin e i) (abs_svc ?w' th) = setth t (HFin e i) (uncur e ((abs_svc w th)
        \<lparr>y_lock := (y_lock (abs_svc w th))(i := False), x_map := (sv_sessions w)(ss_remoteNodeId (sv_sess w i) \<mapsto> SRemote i)\<rparr>))"
      by (auto simp: abs_svc_def sess_update_def sessionMap_add_def session_unlockState_def uncur_def
          sref_RemoteNodeId_def fun_eq_iff)
    moreover have "svc_ok tok ?w'"
      using ok wf by (auto simp: svc_ok_def sess_update_def sessionMap_add_def session_simps)
    moreover have "end_continue r e (\<lambda>_. E_Finish r e i) (ecs_commit E now e i w) = Normal (E_Finish r e i, ?w')"
      using True lockState_ok [OF st, of stateStarted] by (simp add: end_continue_def ecs_commit_def Let_def)
    ultimately show ?thesis
      using True by (auto intro!: simI [OF _ astep.commit_ok [OF at]])
  next
    case False
    obtain err where err: "service_lockState stateStarted w = Normal (Some err)"
      using False lockState_ok [OF st, of stateStarted] by auto
    let ?w0 = "sess_update i session_unlockState w"
    have w0: "svc_ok tok ?w0" "svc_state_ok ?w0" "i < sv_sessNext ?w0" "sv_est ?w0 = sv_est w"
      "ss_state (sv_sess ?w0 i) = ss_state (sv_sess w i)"
      "abs_svc ?w0 th = (abs_svc w th)\<lparr>y_lock := (y_lock (abs_svc w th))(i := False)\<rparr>" for th
      using svc_ok_sess [OF ok, of "session_unlockState (sv_sess w i)" i] wf st h(2)
      by (auto simp: sess_update_def session_simps svc_state_ok_def session_unlockState_def abs_svc_def fun_eq_iff)
    obtain w1 where w1: "session_closeBaseLocked E now err False i ?w0 = Normal w1" "svc_ok tok w1"
      "\<And>th. abs_svc w1 th = (if ss_state (sv_sess ?w0 i) = stateClosed then abs_svc ?w0 th
         else (close_sess i (abs_svc ?w0 th))\<lparr>y_lock := (\<lambda>j. ss_wlocked (sv_sess w1 j))\<rparr>)"
      "sv_est w1 = sv_est ?w0" "\<And>j. ss_wlocked (sv_sess w1 j) = ss_wlocked (sv_sess ?w0 j)"
      using close_step [OF w0(1-3), of now err False] by auto
    have em: "em_ok (sv_est w1 e)" using em_ok_of [OF inv h(1)] w1(4) w0(4) by simp
    obtain w2 where w2: "establishEndFailed err e w1 = Normal w2" "svc_ok tok (es_unlock e w2)"
      "\<And>th. setth t (HWait e) (abs_svc (es_unlock e w2) th) = fail_end t e (abs_svc w1 th)"
      using fail_end_step [OF em w1(2)] by metis
    have eq: "end_continue r e (\<lambda>_. E_Finish r e i) (ecs_commit E now e i w) =
        Normal (wait_pc r e, es_unlock e w2)"
      using err w1(1) w2(1) by (simp add: end_continue_def ecs_commit_def session_close_def)
    show ?thesis
    proof (cases "ss_state (sv_sess w i) = stateClosed")
      case True
      then show ?thesis
        using False w0 w1(3) w2(2,3) unfolding eq
        by (intro simI [OF _ astep.commit_closed [OF at]]) simp_all
    next
      case op: False
      have "(close_sess i (abs_svc ?w0 th))\<lparr>y_lock := (\<lambda>j. ss_wlocked (sv_sess w1 j))\<rparr> =
          close_sess i (abs_svc ?w0 th)" for th
        unfolding w1(5) by (simp add: close_sess_def abs_svc_def)
      then show ?thesis
        using False op w0 w1(3) w2(2,3) unfolding eq
        by (intro simI [OF _ astep.commit_fails [OF at]]) simp_all
    qed
  qed
qed

lemma sim_end_finish:
  assumes inv: "ainv (abs_svc w th)" and ok: "svc_ok tok w" and t: "th t = HFin e i"
  shows "sim_ok tok t th w (end_finish r e i w)"
proof -
  have known: "known (abs_svc w th) e" using ainvD(1) [OF inv, of t] t by simp
  have at: "x_th (abs_svc w th) t = HFin e i" using t by simp
  obtain es where es: "em_end (Some (SRemote i)) None (sv_est w e) = Normal es" "em_ok es" "em_isEnd es"
    "em_remoteNodeId es = em_remoteNodeId (sv_est w e)" "em_locked es = em_locked (sv_est w e)"
    "em_activeState es = em_activeState (sv_est w e)" "em_passiveState es = em_passiveState (sv_est w e)"
    using em_ok_of [OF inv known] by (rule end_cases)
  have "setth t (HWait e) (abs_svc (es_unlock e (est_update e (\<lambda>_. es) w)) th) =
      setth t (HWait e) ((abs_svc w th)\<lparr>x_end := (x_end (abs_svc w th))(e := True),
        x_lock := (x_lock (abs_svc w th))(e := False)\<rparr>)"
    using es em_ok_of [OF inv known]
    by (auto simp: es_unlock_def est_update_def abs_svc_def fun_eq_iff simp del: abs_est_update)
  then show ?thesis
    using es(1) ok by (auto simp: end_finish_def ecs_finish_def intro!: simI [OF _ astep.finish [OF at]])
qed

end

end
