(* ===== verification/Establish_Safety.thy ===== *)
theory Establish_Safety
  imports Establish_Sim
begin

text \<open>
  The invariant of the whole service: it holds of a new service and is kept by every step, so the
  facts of theory Protocol_Sessions hold in every reachable state.
\<close>

section \<open>Steps of the goroutines\<close>

context svc_timers
begin

lemma sim_thread:
  assumes inv: "ainv (abs_svc w th)" and ok: "svc_ok tok w" and t: "th t = hold_of pc"
    and now: "sane_clock now" and room: "room (sv_timers w)"
  shows "sim_ok tok t th w (thread_step E now missed ans me pc w)"
proof (cases pc)
  case (A_EndWith e r)
  then show ?thesis
    using inv ok t by (simp add: startActiveEstablish_end_def sim_end_with [where lo = 1 and hi = 1])
next
  case (P_EndWith e r)
  then show ?thesis
    using inv ok t by (simp add: startPassiveEstablish_end_def sim_end_with)
next
  case (E_Create r e c a)
  then show ?thesis
    using t sim_end_create [OF inv ok _ now room, where l = False] by simp
qed (use assms in \<open>simp_all add: sim_Connect_enter sim_Connect_obtain sim_Connect_wait
    sim_startActiveEstablish sim_check_active sim_dial sim_handshake sim_apply sim_resp sim_about
    sim_completed sim_ack sim_activeEstablishSuccess sim_activeEstablishFail sim_onPassiveConn_read
    sim_onPassiveConn_obtain sim_startPassiveEstablish sim_check_passive sim_passive_handshake
    sim_passiveEstablishSuccess sim_passiveEstablishFail sim_onPassiveConn_wait sim_ecs_check sim_ecs_commit sim_end_finish\<close>)

section \<open>Steps of the environment\<close>

text \<open>A step that is one of the protocol and leaves the goroutines alone.\<close>

definition env_ok :: "(nat \<Rightarrow> hold) \<Rightarrow> ('q, 't) service \<Rightarrow> ('q, 't) service \<Rightarrow> bool" where
  "env_ok th w w' \<longleftrightarrow> svc_ok tok w' \<and> astep (abs_svc w th) (abs_svc w' th)"

lemma env_unseen: "svc_ok tok w' \<Longrightarrow> abs_svc w' th = abs_svc w th \<Longrightarrow> env_ok th w w'"
  by (simp add: env_ok_def astep.stutter)

lemma env_sess:
  assumes ok: "svc_ok tok w" and i: "i < sv_sessNext w"
    and "ss_remoteNodeId s = ss_remoteNodeId (sv_sess w i)" and "ss_state s = ss_state (sv_sess w i)"
    and "ss_wlocked s = ss_wlocked (sv_sess w i)" and "session_wf (sv_sess w i) \<Longrightarrow> session_wf s"
  shows "env_ok th w (sess_update i (\<lambda>_. s) w)"
proof (rule env_unseen)
  show "svc_ok tok (sess_update i (\<lambda>_. s) w)"
    unfolding sess_update_def using assms(6) ok i by (intro svc_ok_sess [OF ok]) (simp add: svc_ok_def)
  show "abs_svc (sess_update i (\<lambda>_. s) w) th = abs_svc w th"
    unfolding sess_update_def by (rule abs_sess_unseen) (simp_all add: assms)
qed

lemma env_close:
  assumes inv: "ainv (abs_svc w th)" and ok: "svc_ok tok w" and i: "i < sv_sessNext w"
    and close: "session_close E now err i w = Normal w'"
  shows "env_ok th w w'"
proof -
  obtain w1 where w1: "session_closeBaseLocked E now err False i w = Normal w1" "svc_ok tok w1"
    "\<And>th. abs_svc w1 th = (if ss_state (sv_sess w i) = stateClosed then abs_svc w th
       else (close_sess i (abs_svc w th))\<lparr>y_lock := (\<lambda>j. ss_wlocked (sv_sess w1 j))\<rparr>)"
    "sv_est w1 = sv_est w" "\<And>j. ss_wlocked (sv_sess w1 j) =
       (ss_wlocked (sv_sess w j) \<and> \<not> (False \<and> j = i \<and> ss_state (sv_sess w i) \<noteq> stateClosed))"
    by (rule close_step [OF ok svc_state_okI [OF inv] i, where now = now and err = err and l = False], rule that)
  have w': "w' = w1" using close w1(1) by (simp add: session_close_def)
  show ?thesis
  proof (cases "ss_state (sv_sess w i) = stateClosed")
    case True
    then show ?thesis using w1 by (auto simp: w' intro: env_unseen)
  next
    case False
    have "(close_sess i (abs_svc w th))\<lparr>y_lock := (\<lambda>j. ss_wlocked (sv_sess w j))\<rparr> = close_sess i (abs_svc w th)"
      by (simp add: close_sess_def abs_svc_def)
    then have "abs_svc w1 th = close_sess i (abs_svc w th)" using w1(3,5) False by simp
    then show ?thesis using w1(2) i by (simp add: w' env_ok_def astep.sess_closes)
  qed
qed

lemma env_closeReq:
  assumes inv: "ainv (abs_svc w th)" and ok: "svc_ok tok w" and i: "i < sv_sessNext w"
    and step: "sessionHandleCloseReq E now i w = Normal (e, w')"
  shows "env_ok th w w'"
proof -
  let ?s = "sv_sess w i"
  have wf: "session_wf ?s" using ok i by (simp add: svc_ok_def)
  show ?thesis
  proof (cases "\<not> ss_wlocked ?s \<and> ss_state ?s = stateStarted")
    case False
    then have "w' = w"
      using step wf by (auto simp: sessionHandleCloseReq_def session_lockState_def checkState_wf split: if_splits)
    then show ?thesis using ok by (simp add: env_unseen)
  next
    case True
    let ?s1 = "?s\<lparr>ss_wlocked := True\<rparr>"
    have lock: "session_lockState stateStarted ?s = Normal (None, ?s1)"
      using True wf by (simp add: session_lockState_def checkState_wf)
    show ?thesis
    proof (cases "session_inactive (cfg_Session (sv_cfg w)) now ?s1")
      case False
      let ?s2 = "session_unlockState (snd (session_sendDirect (env_Q E) now
          (CloseRespPacket (closeResp_setPass False 0)) False ?s1))"
      have "w' = sess_update i (\<lambda>_. ?s2) w"
        using step lock False by (simp add: sessionHandleCloseReq_def Let_def)
      then show ?thesis
        using env_sess [OF ok i, of ?s2] True wf by (simp add: session_simps session_unlockState_def)
    next
      case inact: True
      let ?w0 = "sess_update i (\<lambda>_. ?s1) w"
      have ok0: "svc_ok tok ?w0" "svc_state_ok ?w0" "i < sv_sessNext ?w0"
        using svc_ok_sess [OF ok, of ?s1 i] wf svc_state_okI [OF inv] i
        by (simp_all add: sess_update_def session_simps svc_state_ok_def)
      obtain w1 where w1: "session_closeBaseLocked E now ErrInactiveClosed True i ?w0 = Normal w1" "svc_ok tok w1"
        "\<And>th. abs_svc w1 th = (if ss_state (sv_sess ?w0 i) = stateClosed then abs_svc ?w0 th
           else (close_sess i (abs_svc ?w0 th))\<lparr>y_lock := (\<lambda>j. ss_wlocked (sv_sess w1 j))\<rparr>)"
        "sv_est w1 = sv_est ?w0" "\<And>j. ss_wlocked (sv_sess w1 j) = (ss_wlocked (sv_sess ?w0 j) \<and>
           \<not> (True \<and> j = i \<and> ss_state (sv_sess ?w0 i) \<noteq> stateClosed))"
        by (rule close_step [OF ok0, where now = now and err = ErrInactiveClosed and l = True], rule that)
      have w': "w' = w1" using step lock inact w1(1) by (simp add: sessionHandleCloseReq_def)
      have "abs_svc w1 th = close_sess i (abs_svc w th)"
        unfolding w1(3) w1(5) using True
        by (auto simp: sess_update_def close_sess_def abs_svc_def state_simps fun_eq_iff)
      then show ?thesis using w1(2) i by (simp add: w' env_ok_def astep.sess_closes)
    qed
  qed
qed

lemma send_fields:
  assumes "session_send Q cfg now po r s = Normal (e, s')"
  shows "ss_remoteNodeId s' = ss_remoteNodeId s \<and> ss_state s' = ss_state s \<and>
    ss_wlocked s' = ss_wlocked s \<and> (session_wf s \<longrightarrow> session_wf s')"
proof -
  have "s' = s \<or> (\<exists>p. s' = snd (session_sendDirect Q now p r s))"
    using assms by (cases po; cases "session_checkState stateStarted s")
      (auto simp: session_send_def split: if_splits option.splits; metis snd_conv)+
  then show ?thesis by (auto simp: session_simps)
qed

lemma tick_fields:
  assumes "session_tick Q cfg now s = Normal s'"
  shows "ss_remoteNodeId s' = ss_remoteNodeId s \<and> ss_state s' = ss_state s \<and>
    ss_wlocked s' = ss_wlocked s \<and> (session_wf s \<longrightarrow> session_wf s')"
  using assms by (cases "session_checkState stateStarted s")
    (auto simp: session_tick_def session_tickActiveEnd_def session_tickPassiveEnd_def session_simps
      Let_def split: if_splits option.splits)

lemma env_delivered:
  "svc_ok tok (w\<lparr>sv_delivered := d\<rparr>) = svc_ok tok w"
  "abs_svc (w\<lparr>sv_delivered := d\<rparr>) th = abs_svc w th"
  by (simp_all add: svc_ok_def abs_svc_def)

lemma env_packet:
  assumes inv: "ainv (abs_svc w th)" and ok: "svc_ok tok w" and i: "i < sv_sessNext w"
    and step: "SessionOnPacket E now handlerErr p i w = Normal (e, w')"
  shows "env_ok th w w'"
proof (cases p)
  case (HeartbeatPacket b)
  show ?thesis
  proof (cases "heartbeat_ping b")
    case True
    then obtain err s where s: "session_send (env_Q E) (cfg_Session (sv_cfg w)) now
        (Some (HeartbeatPacket (heartbeat_setPong b))) False (sv_sess w i) = Normal (err, s)"
      and w': "w' = sess_update i (\<lambda>_. s) w"
      using step HeartbeatPacket
      by (auto simp: SessionOnPacket_def sessionHandleHeartbeat_def)
    then show ?thesis using env_sess [OF ok i] send_fields [OF s] by simp
  next
    case False
    then have "w' = w" using step HeartbeatPacket by (simp add: SessionOnPacket_def sessionHandleHeartbeat_def)
    then show ?thesis using ok by (simp add: env_unseen)
  qed
next
  case CloseReqPacket
  then show ?thesis using step env_closeReq [OF inv ok i] by (simp add: SessionOnPacket_def)
next
  case (CloseRespPacket b)
  then show ?thesis
    using step ok env_close [OF inv ok i]
    by (auto simp: SessionOnPacket_def sessionHandleCloseResp_def env_unseen split: if_splits)
next
  case (RawPacket bs)
  let ?w1 = "sess_update i (\<lambda>_. refreshActiveTime now (sv_sess w i)) w"
  have "env_ok th w ?w1" by (rule env_sess [OF ok i]) (simp_all add: session_simps)
  moreover have "sess_update i (refreshActiveTime now) w = ?w1" by (simp add: sess_update_def)
  ultimately show ?thesis
    using step RawPacket
    by (auto simp: SessionOnPacket_def sessionHandleRaw_def service_onSessionBytes_def env_ok_def)
qed


lemma env_Send:
  assumes ok: "svc_ok tok w" and r: "\<And>i. r = SRemote i \<Longrightarrow> i < sv_sessNext w"
    and step: "sref_Send E now handlerErr b r w = Normal (e, w')"
  shows "env_ok th w w'"
proof (cases r)
  case SLocal
  then have "w' = w\<lparr>sv_delivered := sv_delivered w'\<rparr>"
    using step by (auto simp: sref_Send_def service_onSessionBytes_def)
  then have "svc_ok tok w'" "abs_svc w' th = abs_svc w th"
    using ok by (metis env_delivered)+
  then show ?thesis by (rule env_unseen)
next
  case (SRemote i)
  then obtain s where s: "session_send (env_Q E) (cfg_Session (sv_cfg w)) now
      (Some (RawPacket b)) True (sv_sess w i) = Normal (e, s)"
    and w': "w' = sess_update i (\<lambda>_. s) w"
    using step by (auto simp: sref_Send_def session_Send_def)
  then show ?thesis using env_sess [OF ok r [OF SRemote]] send_fields [OF s] by simp
qed

lemma env_tick:
  assumes ok: "svc_ok tok w" and r: "\<And>i. r = SRemote i \<Longrightarrow> i < sv_sessNext w"
    and step: "sref_tick E now r w = Normal w'"
  shows "env_ok th w w'"
proof (cases r)
  case SLocal
  then show ?thesis using step ok by (simp add: sref_tick_def env_unseen)
next
  case (SRemote i)
  then obtain s where s: "session_tick (env_Q E) (cfg_Session (sv_cfg w)) now (sv_sess w i) = Normal s"
    and w': "w' = sess_update i (\<lambda>_. s) w"
    using step by (auto simp: sref_tick_def)
  show ?thesis unfolding w'
    using env_sess [OF ok r [OF SRemote], of s] tick_fields [OF s] by simp
qed

lemma env_loop_turn:
  assumes inv: "ainv (abs_svc w th)" and ok: "svc_ok tok w"
    and step: "service_loop_turn E preferClosed now w = Normal (Some w')"
  shows "env_ok th w w'"
proof -
  let ?w1 = "w\<lparr>sv_cTickSessions := tl (sv_cTickSessions w)\<rparr>"
  have same: "svc_ok tok ?w1" "abs_svc ?w1 th = abs_svc w th"
    using ok by (simp_all add: svc_ok_def abs_svc_def)
  show ?thesis
  proof (cases "sv_sessions w (hd (sv_cTickSessions w))")
    case None
    then have "w' = ?w1"
      using step by (auto simp: service_loop_turn_def Let_def sessionMap_get_def split: if_splits)
    then show ?thesis using same by (simp add: env_unseen)
  next
    case (Some r)
    then have "sref_tick E now r ?w1 = Normal w'"
      using step by (auto simp: service_loop_turn_def Let_def sessionMap_get_def split: if_splits)
    moreover have "i < sv_sessNext ?w1" if "r = SRemote i" for i
      using map_sids [OF inv] Some that by simp
    ultimately have "env_ok th ?w1 w'" by (intro env_tick [OF same(1)])
    then show ?thesis by (simp add: env_ok_def same(2))
  qed
qed

lemma env_Start:
  assumes inv: "ainv (abs_svc w th)" and ok: "svc_ok tok w"
    and step: "service_Start listenErr w = Normal (e, w')"
  shows "env_ok th w w'"
proof (cases "sv_state w = stateInit \<and> listenErr = None")
  case True
  then have w': "w' = w\<lparr>sv_listener := Some True, sv_state := stateStarted\<rparr>"
    using step lockState_ok [OF svc_state_okI [OF inv]] by (simp add: service_Start_def)
  then have "abs_svc w' th = (abs_svc w th)\<lparr>x_svc := stateStarted\<rparr>" by (simp add: abs_svc_def)
  moreover have "svc_ok tok w'" using ok by (simp add: w' svc_ok_def)
  ultimately show ?thesis using True by (simp add: env_ok_def astep.svc_starts)
next
  case False
  then have "w' = w"
    using step lockState_ok [OF svc_state_okI [OF inv]]
    by (auto simp: service_Start_def split: option.splits if_splits)
  then show ?thesis using ok by (simp add: env_unseen)
qed

lemma env_Close_mark:
  assumes inv: "ainv (abs_svc w th)" and ok: "svc_ok tok w"
    and step: "service_Close_mark w = Normal (e, w')"
  shows "env_ok th w w'"
proof (cases "sv_state w = stateStarted")
  case True
  then have w': "w' = w\<lparr>sv_state := stateClosed\<rparr>"
    using step lockState_ok [OF svc_state_okI [OF inv]] by (simp add: service_Close_mark_def)
  then have "abs_svc w' th = (abs_svc w th)\<lparr>x_svc := stateClosed\<rparr>" by (simp add: abs_svc_def)
  moreover have "svc_ok tok w'" using ok by (simp add: w' svc_ok_def)
  ultimately show ?thesis using True by (simp add: env_ok_def astep.svc_marks)
next
  case False
  then have "w' = w"
    using step lockState_ok [OF svc_state_okI [OF inv]]
    by (auto simp: service_Close_mark_def split: if_splits)
  then show ?thesis using ok by (simp add: env_unseen)
qed

end

end
