(* ===== verification/System_Invariant.thy ===== *)
theory System_Invariant
  imports Establish_Safety
begin

text \<open>
  The invariant of the whole service, continued: closing the service, the steps of the system, and
  the invariant of every reachable state.
\<close>

section \<open>Closing the service\<close>

text \<open>What closing the sessions with the keys \<open>K\<close> leaves.\<close>

definition shut :: "node_id set \<Rightarrow> ast \<Rightarrow> ast" where
  "shut K s = s\<lparr>x_map := x_map s |` (- K),
     y_st := (\<lambda>i. if x_map s (y_rid s i) = Some (SRemote i) \<and> y_rid s i \<in> K then stateClosed else y_st s i)\<rparr>"

lemma shut_insert: "shut K (shut {k} s) = shut (insert k K) s"
  by (cases s) (auto simp: shut_def fun_eq_iff restrict_map_def)

lemma shut_none: "x_map s k = None \<Longrightarrow> shut {k} s = s"
  by (cases s) (auto simp: shut_def fun_eq_iff restrict_map_def)

lemma shut_empty: "shut {} s = s"
  by (cases s) (auto simp: shut_def fun_eq_iff restrict_map_def)

definition keys_ok :: "ast \<Rightarrow> bool" where
  "keys_ok s \<longleftrightarrow> (\<forall>n i. x_map s n = Some (SRemote i) \<longrightarrow> i < y_next s \<and> y_rid s i = n)"

lemma keys_ok_shut: "keys_ok s \<Longrightarrow> keys_ok (shut K s)"
  by (auto simp: keys_ok_def shut_def restrict_map_def split: if_splits)

text \<open>Every step of the system is a step of the protocol.\<close>

definition refines :: "('t \<Rightarrow> bool) \<Rightarrow> ('q, 't) system \<Rightarrow> ('q, 't) system \<Rightarrow> bool" where
  "refines tok S S' \<longleftrightarrow> astep (abs_sys S) (abs_sys S') \<and> svc_ok tok (sys_svc S')"

context svc_timers
begin

text \<open>One turn of \<open>Range\<close>.\<close>

lemma close_key_step:
  assumes ok: "svc_ok tok w" and st: "svc_state_ok w" and keys: "keys_ok (abs_svc w th)"
    and k: "sv_sessions w k = Some r"
  obtains w1 where "sref_close E now err r w = Normal w1"
    "svc_ok tok (w1\<lparr>sv_sessions := snd (map_compareAndDelete k r (sv_sessions w1))\<rparr>)"
    "abs_svc (w1\<lparr>sv_sessions := snd (map_compareAndDelete k r (sv_sessions w1))\<rparr>) th = shut {k} (abs_svc w th)"
proof (cases r)
  case SLocal
  then show thesis
    using ok k
    by (intro that [of w])
      (auto simp: sref_close_def svc_ok_def abs_svc_def shut_def map_compareAndDelete_def fun_eq_iff restrict_map_def)
next
  case (SRemote i)
  have i: "i < sv_sessNext w" "ss_remoteNodeId (sv_sess w i) = k"
    using keys k SRemote by (auto simp: keys_ok_def)
  obtain w1 where w1: "session_closeBaseLocked E now err False i w = Normal w1" "svc_ok tok w1"
    "\<And>th. abs_svc w1 th = (if ss_state (sv_sess w i) = stateClosed then abs_svc w th
       else (close_sess i (abs_svc w th))\<lparr>y_lock := (\<lambda>j. ss_wlocked (sv_sess w1 j))\<rparr>)"
    "sv_est w1 = sv_est w" "\<And>j. ss_wlocked (sv_sess w1 j) =
       (ss_wlocked (sv_sess w j) \<and> \<not> (False \<and> j = i \<and> ss_state (sv_sess w i) \<noteq> stateClosed))"
    by (rule close_step [OF ok st i(1), where now = now and err = err and l = False], rule that)
  have abs: "abs_svc (w1\<lparr>sv_sessions := snd (map_compareAndDelete k r (sv_sessions w1))\<rparr>) th =
      (abs_svc w1 th)\<lparr>x_map := snd (map_compareAndDelete k r (x_map (abs_svc w1 th)))\<rparr>"
    by (simp add: abs_svc_def)
  have "(abs_svc w1 th)\<lparr>x_map := snd (map_compareAndDelete k r (x_map (abs_svc w1 th)))\<rparr> =
      shut {k} (abs_svc w th)"
    unfolding w1(3) w1(5) using k i SRemote
    by (auto simp: abs_svc_def close_sess_def shut_def map_compareAndDelete_def restrict_map_def fun_eq_iff)
  then show thesis
    using SRemote w1(1,2) abs
    by (intro that [of w1]) (simp_all add: sref_close_def session_close_def svc_ok_def)
qed

lemma sessionMap_close_step:
  assumes "svc_ok tok w" and "svc_state_ok w" and "keys_ok (abs_svc w th)"
  shows "\<exists>w'. sessionMap_close E now err ks w = Normal w' \<and> svc_ok tok w' \<and>
    abs_svc w' th = shut (set ks) (abs_svc w th)"
  using assms
proof (induction ks arbitrary: w)
  case Nil
  then show ?case by (simp add: shut_empty)
next
  case (Cons k ks)
  show ?case
  proof (cases "sv_sessions w k")
    case None
    obtain w' where "sessionMap_close E now err ks w = Normal w'" "svc_ok tok w'"
      "abs_svc w' th = shut (set ks) (abs_svc w th)"
      using Cons by blast
    then show ?thesis
      using None shut_none [of "abs_svc w th" k] shut_insert [of "set ks" k "abs_svc w th"] by simp
  next
    case (Some r)
    obtain w1 where w1: "sref_close E now err r w = Normal w1"
      "svc_ok tok (w1\<lparr>sv_sessions := snd (map_compareAndDelete k r (sv_sessions w1))\<rparr>)"
      "abs_svc (w1\<lparr>sv_sessions := snd (map_compareAndDelete k r (sv_sessions w1))\<rparr>) th = shut {k} (abs_svc w th)"
      using close_key_step [OF Cons.prems Some] by blast
    let ?w2 = "w1\<lparr>sv_sessions := snd (map_compareAndDelete k r (sv_sessions w1))\<rparr>"
    have "sv_state ?w2 = sv_state w"
      using arg_cong [OF w1(3), of x_svc] by (simp add: shut_def)
    then have "svc_state_ok ?w2" using Cons.prems(2) by (simp only: svc_state_ok_def)
    moreover have "keys_ok (abs_svc ?w2 th)" unfolding w1(3) by (rule keys_ok_shut) (rule Cons.prems)
    ultimately obtain w' where "sessionMap_close E now err ks ?w2 = Normal w'" "svc_ok tok w'"
      "abs_svc w' th = shut (set ks) (abs_svc ?w2 th)"
      using Cons.IH w1(2) by blast
    then show ?thesis using Some w1(1,3) by (simp add: shut_insert Let_def)
  qed
qed

lemma keys_ok_inv: "ainv s \<Longrightarrow> keys_ok s"
  by (simp add: ainv_def j_sessions_def keys_ok_def)

text \<open>\<open>Close\<close> after the mark, when nobody has done it before.\<close>

lemma Close_rest_step:
  assumes inv: "ainv (abs_svc w th)" and ok: "svc_ok tok w" and "\<not> sv_cClosed w"
    and order: "dom (sv_sessions w) \<subseteq> set order"
  obtains w' where "service_Close_rest E now order w = Normal w'" "svc_ok tok w'"
    "abs_svc w' th = (abs_svc w th)\<lparr>x_cClosed := True, x_map := Map.empty,
      y_st := (\<lambda>i. if sv_sessions w (ss_remoteNodeId (sv_sess w i)) = Some (SRemote i) then stateClosed
                   else ss_state (sv_sess w i))\<rparr>"
proof -
  let ?w1 = "w\<lparr>sv_cClosed := True, sv_listener := map_option (\<lambda>_. False) (sv_listener w)\<rparr>"
  have abs1: "abs_svc ?w1 th = (abs_svc w th)\<lparr>x_cClosed := True\<rparr>" by (simp add: abs_svc_def)
  have ok1: "svc_ok tok ?w1" "svc_state_ok ?w1" "keys_ok (abs_svc ?w1 th)"
    using ok svc_state_okI [OF inv] keys_ok_inv [OF inv]
    by (simp_all add: svc_ok_def svc_state_ok_def keys_ok_def)
  obtain w' where w': "sessionMap_close E now ErrServiceClosed order ?w1 = Normal w'" "svc_ok tok w'"
    "abs_svc w' th = shut (set order) (abs_svc ?w1 th)"
    using sessionMap_close_step [OF ok1] by blast
  have w1: "(case sv_listener (w\<lparr>sv_cClosed := True\<rparr>) of None \<Rightarrow> w\<lparr>sv_cClosed := True\<rparr>
      | Some _ \<Rightarrow> w\<lparr>sv_cClosed := True, sv_listener := Some False\<rparr>) = ?w1"
    by (cases "sv_listener w") auto
  have "service_Close_rest E now order w = Normal w'"
    using assms(3) w'(1) unfolding service_Close_rest_def Let_def w1 by simp
  moreover have "abs_svc w' th = (abs_svc w th)\<lparr>x_cClosed := True, x_map := Map.empty,
      y_st := (\<lambda>i. if sv_sessions w (ss_remoteNodeId (sv_sess w i)) = Some (SRemote i) then stateClosed
                   else ss_state (sv_sess w i))\<rparr>"
    unfolding w'(3) abs1 using order
    by (auto simp: shut_def abs_svc_def restrict_map_def fun_eq_iff)
  ultimately show thesis using w'(2) that by blast
qed

lemma env_Close_rest:
  assumes inv: "ainv (abs_svc w th)" and ok: "svc_ok tok w" and "sv_state w = stateClosed"
    and order: "dom (sv_sessions w) \<subseteq> set order"
    and step: "service_Close_rest E now order w = Normal w'"
  shows "env_ok th w w'"
proof -
  have "\<not> sv_cClosed w" using step by (auto simp: service_Close_rest_def)
  from Close_rest_step [OF inv ok this order]
  obtain w1 where w1: "service_Close_rest E now order w = Normal w1" "svc_ok tok w1"
    "abs_svc w1 th = (abs_svc w th)\<lparr>x_cClosed := True, x_map := Map.empty,
      y_st := (\<lambda>i. if sv_sessions w (ss_remoteNodeId (sv_sess w i)) = Some (SRemote i) then stateClosed
                   else ss_state (sv_sess w i))\<rparr>" .
  have "w' = w1" using step w1(1) by simp
  then show ?thesis
    using w1(2,3) assms(3) astep.svc_closes [of "abs_svc w th"] by (simp add: env_ok_def cong: if_cong)
qed

section \<open>The invariant of the system\<close>

lemma refinesI: "env_ok (holds_of (sys_th S)) (sys_svc S) w \<Longrightarrow> refines tok S (S\<lparr>sys_svc := w\<rparr>)"
  by (simp add: refines_def abs_sys_def env_ok_def)

lemma holds_same: "sys_th S t = None \<Longrightarrow> hold_of pc = HNone \<Longrightarrow>
    holds_of ((sys_th S)(t \<mapsto> (me, pc))) = holds_of (sys_th S)"
  by (auto simp: holds_of_def fun_eq_iff)

lemma sys_step_refines:
  assumes "sys_step E tok room S S'" and "sys_ok tok S"
  shows "refines tok S S'"
proof -
  have inv: "ainv (abs_svc (sys_svc S) (holds_of (sys_th S)))" and ok: "svc_ok tok (sys_svc S)"
    using assms(2) by (simp_all add: sys_ok_def abs_sys_def)
  note envI = refinesI
  from assms(1) show ?thesis
  proof cases
    case (Connect_called t n)
    then show ?thesis using ok by (simp add: refines_def abs_sys_def holds_same astep.stutter del: holds_of_upd)
  next
    case (Conn_accepted t ans go pc w)
    then have "abs_svc w = abs_svc (sys_svc S)" "svc_ok tok w" "hold_of pc = HNone"
      using ok by (auto simp: listen_turn_def split: if_splits accept_answer.splits)
    then show ?thesis using Conn_accepted by (simp add: refines_def abs_sys_def holds_same astep.stutter del: holds_of_upd)
  next
    case (Goroutine t me pc now missed ans pc' w)
    then have "sim_ok tok t (holds_of (sys_th S)) (sys_svc S) (Normal (pc', w))"
      using sim_thread [OF inv ok, of t pc now missed ans me] by (simp add: holds_of_def)
    then show ?thesis
      using Goroutine(1) by (simp add: sim_ok_def refines_def abs_sys_def)
  next
    case (Start_called listenErr e w)
    then show ?thesis using envI env_Start [OF inv ok] by blast
  next
    case (Close_called e w)
    then show ?thesis using envI env_Close_mark [OF inv ok] by blast
  next
    case (Close_goes_on order now w)
    then show ?thesis using envI env_Close_rest [OF inv ok] by blast
  next
    case (Packet_arrives i now handlerErr p e w)
    then show ?thesis using envI env_packet [OF inv ok] by blast
  next
    case (Core_closed i now err w)
    then show ?thesis using envI env_close [OF inv ok] by (auto simp: SessionOnClosed_def)
  next
    case (Send_called r now handlerErr b e w)
    then show ?thesis using envI env_Send [OF ok] by blast
  next
    case (GetSession_called now n r w)
    obtain r' w' where "service_GetSession now n (sys_svc S) = Normal (r', w')" "svc_ok tok w'"
      "abs_svc w' (holds_of (sys_th S)) = abs_svc (sys_svc S) (holds_of (sys_th S))"
      by (metis GetSession_step [OF inv ok])
    then show ?thesis using GetSession_called envI env_unseen by simp
  next
    case (Tick_due preferClosed n w)
    then have "\<exists>c. w = (sys_svc S)\<lparr>sv_cTickSessions := c\<rparr>"
      by (auto simp: onSessionTicker_def Let_def split: option.splits if_splits
          intro: exI [of _ "sv_cTickSessions w"])
    then have "env_ok (holds_of (sys_th S)) (sys_svc S) w"
      using ok by (auto simp: svc_ok_def abs_svc_def intro: env_unseen)
    then show ?thesis using Tick_due envI by blast
  next
    case (Loop_turns preferClosed now w)
    then show ?thesis using envI env_loop_turn [OF inv ok] by blast
  next
    case (Timers_run t)
    then have "env_ok (holds_of (sys_th S)) (sys_svc S) ((sys_svc S)\<lparr>sv_timers := t\<rparr>)"
      using ok by (intro env_unseen) (simp_all add: svc_ok_def abs_svc_def)
    then show ?thesis using Timers_run envI by blast
  qed
qed

lemma sys_ok_step: "sys_step E tok room S S' \<Longrightarrow> sys_ok tok S \<Longrightarrow> sys_ok tok S'"
  using sys_step_refines [of S S'] ainv_step [of "abs_sys S" "abs_sys S'"]
  by (simp add: refines_def sys_ok_def)

end

section \<open>The initial state\<close>

lemma apply_service_options:
  "\<exists>b. fold apply_service_option options w = w\<lparr>sv_hasBytesManager := b\<rparr>"
proof (induction options arbitrary: w)
  case Nil
  show ?case by (intro exI [of _ "sv_hasBytesManager w"]) simp
next
  case (Cons opt options)
  show ?case
  proof (cases opt)
    case (WithServiceBytesManager b)
    then show ?thesis using Cons [of "w\<lparr>sv_hasBytesManager := b\<rparr>"] by auto
  qed (use Cons in auto)
qed

lemma CreateService_state:
  assumes "CreateService (Some cfg) False options timers sess0 est0 = Inr w"
  shows "cfg_Session (sv_cfg w) = session_config_filled (cfg_Session cfg)"
    and "session_config_acceptable (cfg_Session cfg)"
    and "sv_state w = stateInit" and "\<not> sv_cClosed w" and "sv_sessNext w = 0" and "sv_estNext w = 0"
    and "sv_establishments w = Map.empty" and "sv_timers w = timers"
    and "sv_sessions w = [cfg_NodeId (sv_cfg w) \<mapsto> SLocal]"
    and "sv_cTickSessions w = []" and "cfg_NodeId (sv_cfg w) = cfg_NodeId cfg"
    and "sv_delivered w = []" and "sv_sent w = []"
proof -
  obtain c' where c': "ServiceConfig_init_ptr (Some cfg) = (Some c', None)"
    using assms by (auto simp: CreateService_def split: prod.splits option.splits)
  have "session_config_acceptable (cfg_Session cfg) \<and>
      cfg_Session c' = session_config_filled (cfg_Session cfg) \<and> cfg_NodeId c' = cfg_NodeId cfg"
    using c' by (auto simp: ServiceConfig_init_ptr_def ServiceConfig_init_def Let_def SessionConfig_init_eq
        split: if_splits option.splits prod.splits)
  moreover obtain b where "w = (sessionMap_add SLocal \<lparr>sv_cfg = c', sv_hasBytesManager = False,
      sv_listener = None, sv_state = stateInit, sv_sessions = Map.empty, sv_establishments = Map.empty,
      sv_cTickSessions = [], sv_cClosed = False, sv_timers = timers, sv_sess = sess0, sv_sessNext = 0,
      sv_est = est0, sv_estNext = 0, sv_closedConns = {}, sv_delivered = [], sv_sent = []\<rparr>)
      \<lparr>sv_hasBytesManager := b\<rparr>"
    using assms c' apply_service_options by (auto simp: CreateService_def Let_def)
  ultimately show "cfg_Session (sv_cfg w) = session_config_filled (cfg_Session cfg)"
    "session_config_acceptable (cfg_Session cfg)"
    "sv_state w = stateInit" "\<not> sv_cClosed w" "sv_sessNext w = 0" "sv_estNext w = 0"
    "sv_establishments w = Map.empty" "sv_timers w = timers"
    "sv_sessions w = [cfg_NodeId (sv_cfg w) \<mapsto> SLocal]"
    "sv_cTickSessions w = []" "cfg_NodeId (sv_cfg w) = cfg_NodeId cfg"
    "sv_delivered w = []" "sv_sent w = []"
    by (simp_all add: sessionMap_add_def sref_RemoteNodeId_def)
qed

lemma sane_delay_of_int: "0 < n \<Longrightarrow> n < 2 ^ 62 \<Longrightarrow> sane_delay (word_of_int n)"
  by (simp add: sane_delay_def sint_uint uint_word_of_int signed_take_bit_int_eq_self take_bit_int_eq_self)

lemma sys_ok_init:
  assumes "sys_init tok S"
  shows "sys_ok tok S"
proof -
  obtain cfg options timers sess0 est0 where init:
      "CreateService (Some cfg) False options timers sess0 est0 = Inr (sys_svc S)" "tok timers"
      "3 \<le> sc_ReadWriteTimeout (cfg_Session cfg)" "sc_ReadWriteTimeout (cfg_Session cfg) < 2 ^ 62"
    and th: "sys_th S = Map.empty"
    using assms by (auto simp: sys_init_def)
  note st = CreateService_state [OF init(1)]
  let ?c = "session_config_filled (cfg_Session cfg)"
  have "0 < sc_TickInterval ?c" using init(3) by (rule session_config_filled_tick)
  moreover have "sc_TickInterval ?c \<le> sc_ReadWriteTimeout ?c div 3"
    using session_config_filled_ok [OF st(2)] by (simp add: session_config_ok_def)
  moreover have "sc_ReadWriteTimeout ?c = sc_ReadWriteTimeout (cfg_Session cfg)"
    by (simp add: session_config_filled_def)
  ultimately have "sane_delay (word_of_int (sc_TickInterval ?c))"
    using init(3,4) by (intro sane_delay_of_int) linarith+
  then have "svc_ok tok (sys_svc S)" using st init(2) by (simp add: svc_ok_def)
  moreover have "x_th (abs_sys S) t = HNone" for t
    by (simp add: abs_sys_def holds_of_def th)
  ultimately show ?thesis
    using st by (simp add: sys_ok_def ainv_def j_holds_def j_unique_def j_driven_def j_current_def
        j_sessions_def j_checked_def j_service_def clash_def known_def abs_sys_def state_simps)
qed

context svc_timers
begin

lemma reachable_ok:
  assumes "reachable E tok room S"
  shows "sys_ok tok S"
proof -
  obtain S0 where "sys_init tok S0" and steps: "(sys_step E tok room)\<^sup>*\<^sup>* S0 S"
    using assms by (auto simp: reachable_def)
  then have "sys_ok tok S0" by (simp add: sys_ok_init)
  with steps show ?thesis by (induction rule: rtranclp_induct) (auto intro: sys_ok_step)
qed

end

end
