(* ===== verification/Timer_Heap.thy ===== *)
theory Timer_Heap
  imports Timer_System
begin

text \<open>
  The timer system of net/timer_heap.go: timers in a store addressed by numbers (the pointers of
  the code), a min-heap of addresses, a map from identifiers to addresses, and the one system
  timer that wakes the loop. The heap itself is a third-party package
  (gutils/container/heap): its operations are a parameter, and the locale \<open>heap_library\<close> states
  the contract of such a heap, with the element's own \<open>HeapIndex\<close> kept up to date.
\<close>

section \<open>Timers\<close>

record ('a, 'c) timer =
  t_id :: timer_id
  t_heapIndex :: int
  t_delay :: int64
  t_periodic :: bool
  t_args :: 'a
  t_cb :: 'c
  t_expireAt :: int64

text \<open>\<open>n := t.expireAt - other.expireAt\<close> is a 64-bit subtraction.\<close>

definition HeapLess :: "('a, 'c) timer \<Rightarrow> ('a, 'c) timer \<Rightarrow> bool" where
  "HeapLess t other =
     (let n = t_expireAt t - t_expireAt other in
      if n = 0 then t_id t < t_id other else sint n < 0)"

section \<open>The heap, a parameter\<close>

text \<open>\<open>hp_elems\<close> lists the elements by their heap index. The comparison an operation uses is that
  of the elements at the time of the call.\<close>

record 'h heap_ops =
  hp_New :: 'h
  hp_Push :: "(nat \<Rightarrow> nat \<Rightarrow> bool) \<Rightarrow> nat \<Rightarrow> 'h \<Rightarrow> 'h"
  hp_Remove :: "(nat \<Rightarrow> nat \<Rightarrow> bool) \<Rightarrow> nat \<Rightarrow> 'h \<Rightarrow> 'h"
  hp_Fix :: "(nat \<Rightarrow> nat \<Rightarrow> bool) \<Rightarrow> nat \<Rightarrow> 'h \<Rightarrow> 'h"
  hp_Top :: "'h \<Rightarrow> nat"
  hp_Len :: "'h \<Rightarrow> int"
  hp_elems :: "'h \<Rightarrow> nat list"

text \<open>A strict linear order on the elements of a list.\<close>

definition linear_on :: "nat set \<Rightarrow> (nat \<Rightarrow> nat \<Rightarrow> bool) \<Rightarrow> bool" where
  "linear_on S lt \<longleftrightarrow>
     (\<forall>x\<in>S. \<not> lt x x) \<and>
     (\<forall>x\<in>S. \<forall>y\<in>S. \<forall>z\<in>S. lt x y \<longrightarrow> lt y z \<longrightarrow> lt x z) \<and>
     (\<forall>x\<in>S. \<forall>y\<in>S. x \<noteq> y \<longrightarrow> lt x y \<or> lt y x)"

locale heap_library =
  fixes H :: "'h heap_ops"
    and ok :: "(nat \<Rightarrow> nat \<Rightarrow> bool) \<Rightarrow> 'h \<Rightarrow> bool"
  assumes new: "ok lt (hp_New H)" "hp_elems H (hp_New H) = []"
    and ok_cong: "ok lt h \<Longrightarrow> \<forall>x\<in>set (hp_elems H h). \<forall>y\<in>set (hp_elems H h). lt x y = lt' x y \<Longrightarrow>
      ok lt' h"
    and push_ok: "ok lt h \<Longrightarrow> linear_on (insert x (set (hp_elems H h))) lt \<Longrightarrow> ok lt (hp_Push H lt x h)"
    and push_elems: "ok lt h \<Longrightarrow> linear_on (insert x (set (hp_elems H h))) lt \<Longrightarrow>
      mset (hp_elems H (hp_Push H lt x h)) = add_mset x (mset (hp_elems H h))"
    and remove_ok: "ok lt h \<Longrightarrow> linear_on (set (hp_elems H h)) lt \<Longrightarrow> i < length (hp_elems H h) \<Longrightarrow>
      ok lt (hp_Remove H lt i h)"
    and remove_elems: "ok lt h \<Longrightarrow> linear_on (set (hp_elems H h)) lt \<Longrightarrow> i < length (hp_elems H h) \<Longrightarrow>
      mset (hp_elems H (hp_Remove H lt i h)) = mset (hp_elems H h) - {#hp_elems H h ! i#}"
    and fix_ok: "ok lt h \<Longrightarrow> i < length (hp_elems H h) \<Longrightarrow> distinct (hp_elems H h) \<Longrightarrow>
      linear_on (set (hp_elems H h)) lt \<Longrightarrow> linear_on (set (hp_elems H h)) lt' \<Longrightarrow>
      \<forall>x\<in>set (hp_elems H h) - {hp_elems H h ! i}. \<forall>y\<in>set (hp_elems H h) - {hp_elems H h ! i}.
        lt x y = lt' x y \<Longrightarrow>
      ok lt' (hp_Fix H lt' i h)"
    and fix_elems: "ok lt h \<Longrightarrow> i < length (hp_elems H h) \<Longrightarrow> distinct (hp_elems H h) \<Longrightarrow>
      linear_on (set (hp_elems H h)) lt \<Longrightarrow> linear_on (set (hp_elems H h)) lt' \<Longrightarrow>
      \<forall>x\<in>set (hp_elems H h) - {hp_elems H h ! i}. \<forall>y\<in>set (hp_elems H h) - {hp_elems H h ! i}.
        lt x y = lt' x y \<Longrightarrow>
      mset (hp_elems H (hp_Fix H lt' i h)) = mset (hp_elems H h)"
    and top_least: "ok lt h \<Longrightarrow> linear_on (set (hp_elems H h)) lt \<Longrightarrow> hp_elems H h \<noteq> [] \<Longrightarrow>
      hp_Top H h \<in> set (hp_elems H h) \<and> (\<forall>y\<in>set (hp_elems H h). \<not> lt y (hp_Top H h))"
    and len_elems: "hp_Len H h = int (length (hp_elems H h))"

section \<open>The state\<close>

text \<open>\<open>th_sysArmed\<close> is the time at which the system timer will send, if it runs; \<open>th_sysPending\<close>
  whether its channel holds a value. \<open>th_timerHeap\<close> is \<open>None\<close> for the nil pointer that \<open>Stop\<close>
  leaves; reading the nil map it leaves finds nothing, as the empty map does.\<close>

record ('a, 'c, 'h) timer_heap =
  th_sysArmed :: "int64 option"
  th_sysPending :: bool
  th_timerIdGen :: timer_id
  th_timerHeap :: "'h option"
  th_timerMap :: "timer_id \<rightharpoonup> nat"
  th_stopped :: bool
  th_cStopped :: bool
  th_store :: "nat \<Rightarrow> ('a, 'c) timer"
  th_next :: nat

definition NewTimerHeap ::
    "'h heap_ops \<Rightarrow> int64 \<Rightarrow> (nat \<Rightarrow> ('a, 'c) timer) \<Rightarrow> ('a, 'c, 'h) timer_heap" where
  "NewTimerHeap H now store0 = \<lparr>
     th_sysArmed = Some now, th_sysPending = False, th_timerIdGen = 0,
     th_timerHeap = Some (hp_New H), th_timerMap = Map.empty, th_stopped = False,
     th_cStopped = False, th_store = store0, th_next = 0\<rparr>"

text \<open>\<open>SetHeapIndex\<close> as the heap calls it: every element ends with its own position.\<close>

fun set_indices :: "nat \<Rightarrow> nat list \<Rightarrow> (nat \<Rightarrow> ('a, 'c) timer) \<Rightarrow> nat \<Rightarrow> ('a, 'c) timer" where
  "set_indices i [] st = st"
| "set_indices i (p # ps) st = set_indices (Suc i) ps (st(p := (st p)\<lparr>t_heapIndex := int i\<rparr>))"

definition th_less :: "(nat \<Rightarrow> ('a, 'c) timer) \<Rightarrow> nat \<Rightarrow> nat \<Rightarrow> bool" where
  "th_less st p q \<longleftrightarrow> HeapLess (st p) (st q)"

text \<open>Storing the heap an operation returned.\<close>

definition put_heap :: "'h heap_ops \<Rightarrow> 'h \<Rightarrow> ('a, 'c, 'h) timer_heap \<Rightarrow> ('a, 'c, 'h) timer_heap" where
  "put_heap H h th =
     th\<lparr>th_timerHeap := Some h, th_store := set_indices 0 (hp_elems H h) (th_store th)\<rparr>"

definition with_heap ::
    "('a, 'c, 'h) timer_heap \<Rightarrow> ('h \<Rightarrow> 'r outcome) \<Rightarrow> 'r outcome" where
  "with_heap th f =
     (case th_timerHeap th of None \<Rightarrow> Panic ''nil pointer dereference'' | Some h \<Rightarrow> f h)"

section \<open>Operations\<close>

definition genTimerId :: "('a, 'c, 'h) timer_heap \<Rightarrow> timer_id \<times> ('a, 'c, 'h) timer_heap" where
  "genTimerId th =
     (let i = th_timerIdGen th + 1;
          i' = (if i = TimerIdNone then i + 1 else i)
      in (i', th\<lparr>th_timerIdGen := i'\<rparr>))"

definition addTimer ::
    "'h heap_ops \<Rightarrow> nat \<Rightarrow> ('a, 'c, 'h) timer_heap \<Rightarrow> ('a, 'c, 'h) timer_heap outcome" where
  "addTimer H p th =
     with_heap th (\<lambda>h.
       let th1 = put_heap H (hp_Push H (th_less (th_store th)) p h) th
       in Normal (th1\<lparr>th_timerMap := (th_timerMap th1)(t_id (th_store th1 p) \<mapsto> p)\<rparr>))"

definition remTimer ::
    "'h heap_ops \<Rightarrow> nat \<Rightarrow> ('a, 'c, 'h) timer_heap \<Rightarrow> ('a, 'c, 'h) timer_heap outcome" where
  "remTimer H p th =
     with_heap th (\<lambda>h.
       let i = t_heapIndex (th_store th p) in
       if i < 0 \<or> i \<ge> hp_Len H h then Panic ''index out of range''
       else
         let th1 = put_heap H (hp_Remove H (th_less (th_store th)) (nat i) h) th
         in Normal (th1\<lparr>th_timerMap := (th_timerMap th1)(t_id (th_store th1 p) := None)\<rparr>))"

definition stopSysTimer :: "('a, 'c, 'h) timer_heap \<Rightarrow> ('a, 'c, 'h) timer_heap" where
  "stopSysTimer th = th\<lparr>th_sysArmed := None, th_sysPending := False\<rparr>"

text \<open>\<open>sysTimer.Reset(d)\<close> at time \<open>now\<close> makes the timer send at \<open>now + d\<close>.\<close>

definition resetSysTimer :: "int64 \<Rightarrow> int64 \<Rightarrow> ('a, 'c, 'h) timer_heap \<Rightarrow> ('a, 'c, 'h) timer_heap" where
  "resetSysTimer now expireAt th =
     (stopSysTimer th)\<lparr>th_sysArmed := Some (now + (expireAt - now))\<rparr>"

definition TimerHeap_Stop :: "('a, 'c, 'h) timer_heap \<Rightarrow> ('a, 'c, 'h) timer_heap outcome" where
  "TimerHeap_Stop th =
     (if th_stopped th then Normal th
      else if th_cStopped th then Panic ''close of closed channel''
      else Normal ((stopSysTimer th)\<lparr>th_timerHeap := None, th_timerMap := Map.empty,
                     th_cStopped := True, th_stopped := True\<rparr>))"

text \<open>\<open>cb\<close> is \<open>None\<close> for a nil callback. The identifier is drawn before the lock is taken.\<close>

definition StartTimer ::
    "'h heap_ops \<Rightarrow> int64 \<Rightarrow> bool \<Rightarrow> 'a \<Rightarrow> 'c option \<Rightarrow> int64 \<Rightarrow> ('a, 'c, 'h) timer_heap \<Rightarrow>
       (timer_id \<times> ('a, 'c, 'h) timer_heap) outcome" where
  "StartTimer H delay periodic args cb now th =
     (if sint delay \<le> 0 then Panic ''delay must > 0''
      else case cb of None \<Rightarrow> Panic ''callback func is nil''
      | Some f \<Rightarrow>
        let (i, th1) = genTimerId th;
            t = \<lparr>t_id = i, t_heapIndex = - 1, t_delay = delay, t_periodic = periodic,
                 t_args = args, t_cb = f, t_expireAt = now + delay\<rparr>;
            p = th_next th1;
            th2 = th1\<lparr>th_store := (th_store th1)(p := t), th_next := Suc p\<rparr>
        in if th_stopped th2 then Normal (TimerIdNone, th2)
           else obind (addTimer H p th2) (\<lambda>th3.
             with_heap th3 (\<lambda>h.
               Normal (i, if p = hp_Top H h then resetSysTimer now (t_expireAt (th_store th3 p)) th3
                          else th3))))"

definition StopTimer ::
    "'h heap_ops \<Rightarrow> timer_id \<Rightarrow> int64 \<Rightarrow> ('a, 'c, 'h) timer_heap \<Rightarrow> ('a, 'c, 'h) timer_heap outcome" where
  "StopTimer H tid now th =
     (if th_stopped th then Normal th
      else case th_timerMap th tid of None \<Rightarrow> Normal th
      | Some p \<Rightarrow> with_heap th (\<lambda>h0.
          let top = (p = hp_Top H h0) in
          obind (remTimer H p th) (\<lambda>th1. with_heap th1 (\<lambda>h.
            Normal (if top then
                      (if hp_Len H h = 0 then stopSysTimer th1
                       else resetSysTimer now (t_expireAt (th_store th1 (hp_Top H h))) th1)
                    else th1)))))"

text \<open>One turn of the loop in \<open>update\<close> at time \<open>now\<close>: it returns, or it calls the callback of the
  timer at the top (with \<open>TimerArgs{TID, Args}\<close>), outside the lock.\<close>

datatype ('a, 'c) update_result = UpdateReturns | CallsBack 'c timer_id 'a

definition update_turn ::
    "'h heap_ops \<Rightarrow> int64 \<Rightarrow> ('a, 'c, 'h) timer_heap \<Rightarrow>
       (('a, 'c) update_result \<times> ('a, 'c, 'h) timer_heap) outcome" where
  "update_turn H now th =
     with_heap th (\<lambda>h.
       if hp_Len H h = 0 then Normal (UpdateReturns, th)
       else
         let p = hp_Top H h; t = th_store th p in
         if i64_less now (t_expireAt t) then
           Normal (UpdateReturns, resetSysTimer now (t_expireAt t) th)
         else
           let r = CallsBack (t_cb t) (t_id t) (t_args t) in
           if t_periodic t then
             let th1 = th\<lparr>th_store := (th_store th)(p := t\<lparr>t_expireAt := t_expireAt t + t_delay t\<rparr>)\<rparr>
             in Normal (r, put_heap H (hp_Fix H (th_less (th_store th1)) (nat (t_heapIndex t)) h) th1)
           else obind (remTimer H p th) (\<lambda>th1. Normal (r, th1)))"

text \<open>The loop of \<open>update\<close> while the clock reads \<open>now\<close> and the callbacks leave the timers alone:
  the identifiers called back, in order. \<open>None\<close>: the fuel did not suffice.\<close>

fun update_loop ::
    "'h heap_ops \<Rightarrow> nat \<Rightarrow> int64 \<Rightarrow> ('a, 'c, 'h) timer_heap \<Rightarrow>
       (timer_id list \<times> ('a, 'c, 'h) timer_heap) option outcome" where
  "update_loop H 0 now th = Normal None"
| "update_loop H (Suc fuel) now th =
     obind (update_turn H now th) (\<lambda>(r, th1).
       case r of UpdateReturns \<Rightarrow> Normal (Some ([], th1))
       | CallsBack f i a \<Rightarrow>
           obind (update_loop H fuel now th1) (\<lambda>res.
             Normal (map_option (\<lambda>(ids, th2). (i # ids, th2)) res)))"

text \<open>The interface \<open>TimerSystem\<close> as the timer heap implements it; the service always passes the
  same callback.\<close>

definition TimerHeap_ops :: "'h heap_ops \<Rightarrow> ('a, ('a, unit, 'h) timer_heap) timer_ops" where
  "TimerHeap_ops H = \<lparr>
     ts_StartTimer = (\<lambda>delay periodic a now th. StartTimer H delay periodic a (Some ()) now th),
     ts_StopTimer = (\<lambda>tid now th. StopTimer H tid now th)\<rparr>"

end
