(* ===== verification/Timer_Heap_Correct.thy ===== *)
theory Timer_Heap_Correct
  imports Timer_Heap
begin

text \<open>
  The timer heap keeps its map, its heap and the heap indices in step, orders timers by expiry
  and identifier, and so implements the interface \<open>TimerSystem\<close>: the locale \<open>timer_system\<close> is
  derived from \<open>heap_library\<close> for every heap that keeps the library's contract.
\<close>

section \<open>The order of timers\<close>

text \<open>Timers are ordered by time of expiry, then by identifier.\<close>

datatype timer_key = TKey (key_time: int) (key_id: nat)

instantiation timer_key :: linorder
begin

definition less_eq_timer_key :: "timer_key \<Rightarrow> timer_key \<Rightarrow> bool" where
  "less_eq_timer_key a b \<longleftrightarrow>
     key_time a < key_time b \<or> key_time a = key_time b \<and> key_id a \<le> key_id b"

definition less_timer_key :: "timer_key \<Rightarrow> timer_key \<Rightarrow> bool" where
  "less_timer_key a b \<longleftrightarrow>
     key_time a < key_time b \<or> key_time a = key_time b \<and> key_id a < key_id b"

instance
  by standard (auto simp: less_eq_timer_key_def less_timer_key_def timer_key.expand)

end

definition key_of :: "('a, 'c) timer \<Rightarrow> timer_key" where
  "key_of t = TKey (sint (t_expireAt t)) (unat (t_id t))"

text \<open>The subtraction in \<open>HeapLess\<close> does not wrap for times that are not negative.\<close>

lemma HeapLess_key:
  assumes "0 \<le> sint (t_expireAt t)" and "0 \<le> sint (t_expireAt u)"
  shows "HeapLess t u \<longleftrightarrow> key_of t < key_of u"
proof -
  have "sint (t_expireAt t - t_expireAt u) = sint (t_expireAt t) - sint (t_expireAt u)"
    using assms by (rule sint_diff64_nonneg)
  moreover have "t_expireAt t - t_expireAt u = 0 \<longleftrightarrow> sint (t_expireAt t) = sint (t_expireAt u)"
    by (metis eq_iff_diff_eq_0 signed_word_eqI)
  ultimately show ?thesis
    by (auto simp: HeapLess_def Let_def key_of_def less_timer_key_def word_less_nat_alt)
qed

lemma key_of_inj: "key_of t = key_of u \<Longrightarrow> t_id t = t_id u"
  by (simp add: key_of_def word_unat_eq_iff)

lemma linear_on_th_less:
  assumes "\<forall>p\<in>S. 0 \<le> sint (t_expireAt (st p))" and "inj_on (\<lambda>p. t_id (st p)) S"
  shows "linear_on S (th_less st)"
proof -
  have lt: "th_less st p q \<longleftrightarrow> key_of (st p) < key_of (st q)" if "p \<in> S" "q \<in> S" for p q
    unfolding th_less_def using that assms(1) by (simp add: HeapLess_key)
  have inj: "p = q" if "p \<in> S" "q \<in> S" "key_of (st p) = key_of (st q)" for p q
    using assms(2) that key_of_inj by (auto simp: inj_on_def)
  show ?thesis
    unfolding linear_on_def
  proof (intro conjI ballI impI)
    fix x assume "x \<in> S"
    then show "\<not> th_less st x x" by (simp add: lt)
  next
    fix x y z assume "x \<in> S" "y \<in> S" "z \<in> S" "th_less st x y" "th_less st y z"
    then show "th_less st x z" by (simp add: lt)
  next
    fix x y assume "x \<in> S" "y \<in> S" "x \<noteq> y"
    then show "th_less st x y \<or> th_less st y x"
      using inj [of x y] less_linear [of "key_of (st x)" "key_of (st y)"] by (auto simp: lt)
  qed
qed

section \<open>Heap indices\<close>

lemma set_indices_other: "p \<notin> set ps \<Longrightarrow> set_indices i ps st p = st p"
  by (induction ps arbitrary: i st) auto

lemma set_indices_fields [simp]:
  "t_id (set_indices i ps st p) = t_id (st p)"
  "t_delay (set_indices i ps st p) = t_delay (st p)"
  "t_periodic (set_indices i ps st p) = t_periodic (st p)"
  "t_args (set_indices i ps st p) = t_args (st p)"
  "t_cb (set_indices i ps st p) = t_cb (st p)"
  "t_expireAt (set_indices i ps st p) = t_expireAt (st p)"
  by (induction ps arbitrary: i st) (auto simp: fun_upd_def)

lemma set_indices_nth:
  "distinct ps \<Longrightarrow> k < length ps \<Longrightarrow> t_heapIndex (set_indices i ps st (ps ! k)) = int (i + k)"
proof (induction ps arbitrary: i st k)
  case (Cons p ps)
  then show ?case
    by (cases k) (simp_all add: set_indices_other)
qed simp

lemma th_less_set_indices [simp]: "th_less (set_indices i ps st) = th_less st"
  by (simp add: th_less_def HeapLess_def fun_eq_iff)

section \<open>The invariant\<close>

definition timer_ok :: "('a, 'c) timer \<Rightarrow> bool" where
  "timer_ok t \<longleftrightarrow> 0 \<le> sint (t_expireAt t) \<and> sane_delay (t_delay t) \<and> t_id t \<noteq> TimerIdNone"

text \<open>Heap and map hold the same timers, every timer knows its place in the heap, and no
  identifier in use is beyond the generator.\<close>

definition entries_ok ::
    "(nat \<Rightarrow> ('a, 'c) timer) \<Rightarrow> (timer_id \<rightharpoonup> nat) \<Rightarrow> nat \<Rightarrow> timer_id \<Rightarrow> nat list \<Rightarrow> bool" where
  "entries_ok st m nx gen ps \<longleftrightarrow>
     distinct ps \<and>
     (\<forall>i p. m i = Some p \<longleftrightarrow> p \<in> set ps \<and> t_id (st p) = i) \<and>
     (\<forall>p\<in>set ps. p < nx \<and> timer_ok (st p) \<and> t_id (st p) \<le> gen) \<and>
     (\<forall>k<length ps. t_heapIndex (st (ps ! k)) = int k)"

lemma entries_inj: "entries_ok st m nx gen ps \<Longrightarrow> inj_on (\<lambda>p. t_id (st p)) (set ps)"
  unfolding entries_ok_def inj_on_def by (metis option.inject)

lemma entries_linear: "entries_ok st m nx gen ps \<Longrightarrow> linear_on (set ps) (th_less st)"
  using entries_inj [of st m nx gen ps]
  by (intro linear_on_th_less) (simp_all add: entries_ok_def timer_ok_def)

lemma entries_put:
  assumes "distinct ps" and "\<And>i p. m i = Some p \<longleftrightarrow> p \<in> set ps \<and> t_id (st p) = i"
    and "\<And>p. p \<in> set ps \<Longrightarrow> p < nx \<and> timer_ok (st p) \<and> t_id (st p) \<le> gen"
  shows "entries_ok (set_indices 0 ps st) m nx gen ps"
  using assms by (auto simp: entries_ok_def set_indices_nth timer_ok_def)

lemma entries_index:
  assumes "entries_ok st m nx gen ps" and "p \<in> set ps"
  obtains k where "k < length ps" "ps ! k = p" "t_heapIndex (st p) = int k"
  using assms by (auto simp: entries_ok_def in_set_conv_nth)

definition th_inv ::
    "'h heap_ops \<Rightarrow> ((nat \<Rightarrow> nat \<Rightarrow> bool) \<Rightarrow> 'h \<Rightarrow> bool) \<Rightarrow> ('a, 'c, 'h) timer_heap \<Rightarrow> bool" where
  "th_inv H ok th \<longleftrightarrow>
     (if th_stopped th then
        th_timerHeap th = None \<and> th_timerMap th = Map.empty \<and> th_cStopped th
      else \<not> th_cStopped th \<and> (\<exists>h. th_timerHeap th = Some h \<and> ok (th_less (th_store th)) h \<and>
        entries_ok (th_store th) (th_timerMap th) (th_next th) (th_timerIdGen th) (hp_elems H h)))"

lemma th_invE:
  assumes "th_inv H ok th" and "\<not> th_stopped th"
  obtains h where "th_timerHeap th = Some h" "ok (th_less (th_store th)) h" "\<not> th_cStopped th"
    "entries_ok (th_store th) (th_timerMap th) (th_next th) (th_timerIdGen th) (hp_elems H h)"
  using assms by (auto simp: th_inv_def)

text \<open>Another identifier is left.\<close>

definition th_room :: "('a, 'c, 'h) timer_heap \<Rightarrow> bool" where
  "th_room th \<longleftrightarrow> unat (th_timerIdGen th) < 2 ^ 64 - 1"

definition th_live :: "('a, 'c, 'h) timer_heap \<Rightarrow> timer_id \<rightharpoonup> 'a" where
  "th_live th = (\<lambda>i. map_option (\<lambda>p. t_args (th_store th p)) (th_timerMap th i))"

lemma genTimerId_room:
  assumes "th_room th"
  shows "genTimerId th = (th_timerIdGen th + 1, th\<lparr>th_timerIdGen := th_timerIdGen th + 1\<rparr>)"
    and "th_timerIdGen th < th_timerIdGen th + 1" and "th_timerIdGen th + 1 \<noteq> TimerIdNone"
proof -
  have un: "unat (th_timerIdGen th + 1) = unat (th_timerIdGen th) + 1"
    using assms by (simp add: th_room_def unat_word_ariths)
  then show ne: "th_timerIdGen th + 1 \<noteq> TimerIdNone"
    by (metis Suc_eq_plus1 TimerIdNone_def nat.simps(3) unat_0)
  show "th_timerIdGen th < th_timerIdGen th + 1"
    using un by (simp add: word_less_nat_alt)
  show "genTimerId th = (th_timerIdGen th + 1, th\<lparr>th_timerIdGen := th_timerIdGen th + 1\<rparr>)"
    using ne by (simp add: genTimerId_def Let_def)
qed

lemma sane_expiry:
  assumes "sane_clock now" and "sane_delay d"
  shows "sint (now + d) = sint now + sint d" and "0 \<le> sint (now + d)"
proof -
  show "sint (now + d) = sint now + sint d"
    using assms by (intro sint_add64) (auto simp: sane_clock_def sane_delay_def)
  then show "0 \<le> sint (now + d)"
    using assms by (auto simp: sane_clock_def sane_delay_def)
qed

section \<open>The operations keep the invariant\<close>

context heap_library
begin

lemma th_inv_new: "th_inv H ok (NewTimerHeap H now store0)"
  by (simp add: th_inv_def NewTimerHeap_def new entries_ok_def)

lemma remTimer_ok:
  assumes heap: "th_timerHeap th = Some h" and ok: "ok (th_less (th_store th)) h"
    and ent: "entries_ok (th_store th) (th_timerMap th) (th_next th) (th_timerIdGen th) (hp_elems H h)"
    and p: "p \<in> set (hp_elems H h)"
  obtains h' where
    "remTimer H p th = Normal (th\<lparr>th_timerHeap := Some h',
        th_store := set_indices 0 (hp_elems H h') (th_store th),
        th_timerMap := (th_timerMap th)(t_id (th_store th p) := None)\<rparr>)"
    "ok (th_less (th_store th)) h'"
    "set (hp_elems H h') = set (hp_elems H h) - {p}"
    "entries_ok (set_indices 0 (hp_elems H h') (th_store th))
       ((th_timerMap th)(t_id (th_store th p) := None)) (th_next th) (th_timerIdGen th) (hp_elems H h')"
proof -
  let ?es = "hp_elems H h" and ?lt = "th_less (th_store th)"
  obtain k where k: "k < length ?es" "?es ! k = p" "t_heapIndex (th_store th p) = int k"
    using ent p by (rule entries_index)
  let ?h' = "hp_Remove H ?lt k h"
  have lin: "linear_on (set ?es) ?lt" using ent by (rule entries_linear)
  have ms: "mset (hp_elems H ?h') = mset ?es - {#p#}"
    using remove_elems [OF ok lin k(1)] k(2) by simp
  have dist: "distinct ?es" using ent by (simp add: entries_ok_def)
  then have dist': "distinct (hp_elems H ?h')"
    by (metis ms distinct_remove1 mset_remove1 mset_eq_imp_distinct_iff)
  have set': "set (hp_elems H ?h') = set ?es - {p}"
    by (metis dist ms mset_remove1 set_mset_mset set_remove1_eq)
  have ent': "entries_ok (set_indices 0 (hp_elems H ?h') (th_store th))
      ((th_timerMap th)(t_id (th_store th p) := None)) (th_next th) (th_timerIdGen th) (hp_elems H ?h')"
    using ent entries_inj [OF ent] p
    by (intro entries_put dist') (auto simp: set' entries_ok_def inj_on_def)
  have "remTimer H p th = Normal (th\<lparr>th_timerHeap := Some ?h',
        th_store := set_indices 0 (hp_elems H ?h') (th_store th),
        th_timerMap := (th_timerMap th)(t_id (th_store th p) := None)\<rparr>)"
    using k heap by (simp add: remTimer_def with_heap_def put_heap_def len_elems)
  then show thesis
    by (rule that) (use remove_ok [OF ok lin k(1)] set' ent' in auto)
qed

text \<open>What \<open>StartTimer\<close> does to a running timer system.\<close>

lemma StartTimer_ok:
  assumes inv: "th_inv H ok th" and run: "\<not> th_stopped th" and room: "th_room th"
    and now: "sane_clock now" and delay: "sane_delay delay"
  obtains i th' where "StartTimer H delay periodic a (Some f) now th = Normal (i, th')"
    "i \<noteq> TimerIdNone" "th_timerMap th i = None" "th_inv H ok th'" "\<not> th_stopped th'"
    "th_live th' = (th_live th)(i \<mapsto> a)"
proof -
  obtain h where heap: "th_timerHeap th = Some h" and ok: "ok (th_less (th_store th)) h"
    and nc: "\<not> th_cStopped th"
    and ent: "entries_ok (th_store th) (th_timerMap th) (th_next th) (th_timerIdGen th) (hp_elems H h)"
    using inv run by (rule th_invE)
  let ?i = "th_timerIdGen th + 1" and ?p = "th_next th"
  let ?t = "\<lparr>t_id = ?i, t_heapIndex = - 1, t_delay = delay, t_periodic = periodic,
              t_args = a, t_cb = f, t_expireAt = now + delay\<rparr>"
  let ?st = "(th_store th)(?p := ?t)"
  let ?h = "hp_Push H (th_less ?st) ?p h"
  note gen = genTimerId_room [OF room]
  have new: "?p \<notin> set (hp_elems H h)" using ent by (auto simp: entries_ok_def)
  have idne: "t_id (th_store th q) \<noteq> ?i" if "q \<in> set (hp_elems H h)" for q
    using ent gen(2) that by (auto simp: entries_ok_def dest: leD)
  then have fresh: "th_timerMap th ?i = None"
    using ent by (auto simp: entries_ok_def intro: ccontr)
  have ok': "ok (th_less ?st) h"
    using new by (intro ok_cong [OF ok]) (auto simp: th_less_def)
  have lin: "linear_on (insert ?p (set (hp_elems H h))) (th_less ?st)"
  proof (rule linear_on_th_less)
    show "\<forall>q\<in>insert ?p (set (hp_elems H h)). 0 \<le> sint (t_expireAt (?st q))"
      using ent new sane_expiry [OF now delay] by (auto simp: entries_ok_def timer_ok_def)
    have "inj_on (\<lambda>q. t_id (?st q)) (set (hp_elems H h))"
      using entries_inj [OF ent] new by (subst inj_on_cong [where g = "\<lambda>q. t_id (th_store th q)"]) auto
    moreover have "t_id (?st ?p) \<notin> (\<lambda>q. t_id (?st q)) ` (set (hp_elems H h) - {?p})"
      using idne by (auto simp: image_iff) (metis idne)
    ultimately show "inj_on (\<lambda>q. t_id (?st q)) (insert ?p (set (hp_elems H h)))"
      by (simp only: inj_on_insert simp_thms)
  qed
  have ms: "mset (hp_elems H ?h) = add_mset ?p (mset (hp_elems H h))"
    by (rule push_elems [OF ok' lin])
  then have set': "set (hp_elems H ?h) = insert ?p (set (hp_elems H h))"
    by (metis set_mset_add_mset_insert set_mset_mset)
  have dist': "distinct (hp_elems H ?h)"
    using ms new ent by (metis distinct.simps(2) entries_ok_def mset.simps(2) mset_eq_imp_distinct_iff)
  let ?st' = "set_indices 0 (hp_elems H ?h) ?st"
  have mapiff: "((th_timerMap th)(?i \<mapsto> ?p)) j = Some q \<longleftrightarrow>
      q \<in> set (hp_elems H ?h) \<and> t_id (?st q) = j" for j q
    using ent new idne fresh unfolding set' entries_ok_def by auto
  have tok: "q < Suc ?p \<and> timer_ok (?st q) \<and> t_id (?st q) \<le> ?i" if "q \<in> set (hp_elems H ?h)" for q
    using that ent gen sane_expiry [OF now delay] delay unfolding set' entries_ok_def
    by (auto simp: timer_ok_def intro: order_trans less_imp_le)
  have ent': "entries_ok ?st' ((th_timerMap th)(?i \<mapsto> ?p)) (Suc ?p) ?i (hp_elems H ?h)"
    by (rule entries_put [OF dist' mapiff tok])
  let ?th1 = "th\<lparr>th_timerIdGen := ?i, th_store := ?st', th_next := Suc ?p, th_timerHeap := Some ?h,
                 th_timerMap := (th_timerMap th)(?i \<mapsto> ?p)\<rparr>"
  let ?th' = "if ?p = hp_Top H ?h then resetSysTimer now (now + delay) ?th1 else ?th1"
  have eq: "StartTimer H delay periodic a (Some f) now th = Normal (?i, ?th')"
    using run heap delay
    by (simp add: StartTimer_def gen(1) addTimer_def with_heap_def put_heap_def sane_delay_def Let_def
        resetSysTimer_def stopSysTimer_def)
  have "th_inv H ok ?th'"
    using run nc push_ok [OF ok' lin] ent'
    by (simp add: th_inv_def resetSysTimer_def stopSysTimer_def)
  moreover have "q \<noteq> ?p" if "th_timerMap th j = Some q" for j q
    using ent new that by (auto simp: entries_ok_def)
  then have "th_live ?th' = (th_live th)(?i \<mapsto> a)"
    by (auto simp: th_live_def resetSysTimer_def stopSysTimer_def fun_eq_iff intro!: option.map_cong)
  ultimately show thesis
    using eq gen(3) fresh run by (intro that) (auto simp: resetSysTimer_def stopSysTimer_def)
qed

lemma StopTimer_ok:
  assumes inv: "th_inv H ok th" and run: "\<not> th_stopped th"
  obtains th' where "StopTimer H i now th = Normal th'" "th_inv H ok th'" "\<not> th_stopped th'"
    "th_live th' = (th_live th)(i := None)"
proof (cases "th_timerMap th i")
  case None
  then have "StopTimer H i now th = Normal th" using run by (simp add: StopTimer_def)
  then show thesis
    using None inv run by (intro that) (auto simp: th_live_def fun_eq_iff)
next
  case (Some p)
  obtain h where heap: "th_timerHeap th = Some h" and ok: "ok (th_less (th_store th)) h"
    and nc: "\<not> th_cStopped th"
    and ent: "entries_ok (th_store th) (th_timerMap th) (th_next th) (th_timerIdGen th) (hp_elems H h)"
    using inv run by (rule th_invE)
  have p: "p \<in> set (hp_elems H h)" and id: "t_id (th_store th p) = i"
    using ent Some by (auto simp: entries_ok_def)
  obtain h' where rem: "remTimer H p th = Normal (th\<lparr>th_timerHeap := Some h',
        th_store := set_indices 0 (hp_elems H h') (th_store th),
        th_timerMap := (th_timerMap th)(t_id (th_store th p) := None)\<rparr>)"
    and ok': "ok (th_less (th_store th)) h'"
    and ent': "entries_ok (set_indices 0 (hp_elems H h') (th_store th))
       ((th_timerMap th)(t_id (th_store th p) := None)) (th_next th) (th_timerIdGen th) (hp_elems H h')"
    by (rule remTimer_ok [OF heap ok ent p])
  let ?th1 = "th\<lparr>th_timerHeap := Some h', th_store := set_indices 0 (hp_elems H h') (th_store th),
        th_timerMap := (th_timerMap th)(i := None)\<rparr>"
  let ?th' = "if p = hp_Top H h then
                (if hp_Len H h' = 0 then stopSysTimer ?th1
                 else resetSysTimer now (t_expireAt (th_store ?th1 (hp_Top H h'))) ?th1)
              else ?th1"
  have "StopTimer H i now th = Normal ?th'"
    using run Some heap rem id by (simp add: StopTimer_def with_heap_def)
  moreover have "th_inv H ok ?th'"
    using run nc ok' ent' id by (simp add: th_inv_def resetSysTimer_def stopSysTimer_def)
  moreover have "th_live ?th' = (th_live th)(i := None)"
    by (auto simp: th_live_def resetSysTimer_def stopSysTimer_def fun_eq_iff split: option.split)
  ultimately show thesis
    using run by (intro that) (auto simp: resetSysTimer_def stopSysTimer_def)
qed

lemma StartTimer_stopped:
  assumes "th_stopped th" and "sane_delay delay"
  obtains th' where "StartTimer H delay periodic a (Some f) now th = Normal (TimerIdNone, th')"
    "th_stopped th'" "th_timerHeap th' = th_timerHeap th" "th_timerMap th' = th_timerMap th"
    "th_cStopped th' = th_cStopped th"
proof -
  obtain i th1 where gen: "genTimerId th = (i, th1)" by fastforce
  then have "th_stopped th1" "th_timerHeap th1 = th_timerHeap th" "th_timerMap th1 = th_timerMap th"
    "th_cStopped th1 = th_cStopped th"
    using assms(1) by (auto simp: genTimerId_def Let_def)
  then show thesis
    using assms(2) gen by (intro that [of "th1\<lparr>th_store := (th_store th1)(th_next th1 := _),
        th_next := Suc (th_next th1)\<rparr>"]) (simp_all add: StartTimer_def sane_delay_def Let_def)
qed

lemma th_live_stopped: "th_timerMap th = Map.empty \<Longrightarrow> th_live th = Map.empty"
  by (simp add: th_live_def)

lemma th_live_none: "th_inv H ok th \<Longrightarrow> th_live th TimerIdNone = None"
  by (cases "th_timerMap th TimerIdNone")
    (auto simp: th_inv_def th_live_def entries_ok_def timer_ok_def split: if_splits)

text \<open>A start, in the shape the interface states its laws.\<close>

lemma StartTimer_law:
  assumes inv: "th_inv H ok th" and room: "th_room th"
    and now: "sane_clock now" and delay: "sane_delay delay"
    and start: "StartTimer H delay periodic a (Some f) now th = Normal (i, th')"
  shows "th_inv H ok th' \<and> th_live th i = None \<and>
     th_live th' = (if i = TimerIdNone then th_live th else (th_live th)(i \<mapsto> a))"
proof (cases "th_stopped th")
  case True
  obtain th1 where st: "StartTimer H delay periodic a (Some f) now th = Normal (TimerIdNone, th1)"
    and th1: "th_stopped th1" "th_timerHeap th1 = th_timerHeap th" "th_timerMap th1 = th_timerMap th"
      "th_cStopped th1 = th_cStopped th"
    by (rule StartTimer_stopped [OF True delay])
  have "th' = th1" "i = TimerIdNone" using st start by simp_all
  then show ?thesis
    using th1 inv True by (simp add: th_inv_def th_live_def)
next
  case False
  obtain j th1 where st: "StartTimer H delay periodic a (Some f) now th = Normal (j, th1)"
    and th1: "j \<noteq> TimerIdNone" "th_timerMap th j = None" "th_inv H ok th1"
      "th_live th1 = (th_live th)(j \<mapsto> a)"
    by (rule StartTimer_ok [OF inv False room now delay])
  have "th' = th1" "i = j" using st start by simp_all
  then show ?thesis
    using th1 by (simp add: th_live_def [of th])
qed

lemma StopTimer_law:
  assumes inv: "th_inv H ok th"
  shows "\<exists>th'. StopTimer H i now th = Normal th' \<and> th_inv H ok th' \<and> th_live th' = (th_live th)(i := None)"
proof (cases "th_stopped th")
  case True
  then have "th_live th = Map.empty" using inv by (simp add: th_inv_def th_live_def)
  then show ?thesis using True inv by (simp add: StopTimer_def)
next
  case False
  then show ?thesis using StopTimer_ok [OF inv False] by metis
qed

lemma StartTimer_total:
  assumes "th_inv H ok th" and "sane_delay delay"
  shows "\<exists>i th'. StartTimer H delay periodic a (Some f) now th = Normal (i, th')"
proof (cases "th_stopped th")
  case True
  then show ?thesis using StartTimer_stopped [OF True assms(2)] by metis
next
  case False
  obtain h where heap: "th_timerHeap th = Some h" using assms(1) False by (rule th_invE)
  show ?thesis
    using False heap assms(2)
    by (simp add: StartTimer_def genTimerId_def addTimer_def with_heap_def put_heap_def
        sane_delay_def Let_def)
qed

end

sublocale heap_library \<subseteq> th: timer_system "TimerHeap_ops H" "th_inv H ok" th_room th_live
proof
  fix t :: "('b, unit, 'h) timer_heap" and now delay periodic a i t'
  assume inv: "th_inv H ok t"
  show "sane_clock now \<Longrightarrow> sane_delay delay \<Longrightarrow>
      \<exists>i t'. ts_StartTimer (TimerHeap_ops H) delay periodic a now t = Normal (i, t')"
    using StartTimer_total [OF inv] by (simp add: TimerHeap_ops_def)
  show "th_live t TimerIdNone = None" by (rule th_live_none [OF inv])
  show "\<exists>t'. ts_StopTimer (TimerHeap_ops H) i now t = Normal t'"
    using StopTimer_law [OF inv] by (auto simp: TimerHeap_ops_def)
  show "th_inv H ok t'" "th_live t' = (th_live t)(i := None)"
    if "ts_StopTimer (TimerHeap_ops H) i now t = Normal t'"
    using StopTimer_law [OF inv, of i now] that by (auto simp: TimerHeap_ops_def)
  show "th_inv H ok t'" "th_live t i = None"
    "th_live t' = (if i = TimerIdNone then th_live t else (th_live t)(i \<mapsto> a))"
    if "th_room t" "sane_clock now" "sane_delay delay"
      "ts_StartTimer (TimerHeap_ops H) delay periodic a now t = Normal (i, t')"
    using StartTimer_law [OF inv that(1-3), of periodic a "()" i t'] that(4)
    by (auto simp: TimerHeap_ops_def)
qed

end
