(* ===== verification/Timer_Update.thy ===== *)
theory Timer_Update
  imports Timer_Heap_Correct
begin

text \<open>
  The loop of \<open>update\<close> (net/timer_heap.go): it ends, calls every timer back once for each of its
  periods that is over, leaves no timer behind that is due, and arms the system timer for the
  next one. A heap kept as a sorted list is a model of \<open>heap_library\<close>.
\<close>

section \<open>What a timer is to its user\<close>

datatype tview = TView (tv_expire: int) (tv_delay: int) (tv_periodic: bool)

definition view_of :: "('a, 'c) timer \<Rightarrow> tview" where
  "view_of t = TView (sint (t_expireAt t)) (sint (t_delay t)) (t_periodic t)"

definition th_view :: "('a, 'c, 'h) timer_heap \<Rightarrow> timer_id \<rightharpoonup> tview" where
  "th_view th = (\<lambda>i. map_option (\<lambda>p. view_of (th_store th p)) (th_timerMap th i))"

text \<open>How often a timer is to be called back when the clock reads \<open>now\<close>.\<close>

definition due :: "int \<Rightarrow> tview \<Rightarrow> nat" where
  "due now v = (if now < tv_expire v then 0
     else if tv_periodic v then nat ((now - tv_expire v) div tv_delay v) + 1 else 1)"

text \<open>The timer after these calls; \<open>None\<close> when it has run out.\<close>

definition after_due :: "int \<Rightarrow> tview \<Rightarrow> tview option" where
  "after_due now v = (if now < tv_expire v then Some v
     else if tv_periodic v then
       Some (TView (tv_expire v + int (due now v) * tv_delay v) (tv_delay v) True)
     else None)"

lemma due_step:
  assumes "tv_expire v \<le> now" and "tv_periodic v" and "0 < tv_delay v"
  defines "v' \<equiv> TView (tv_expire v + tv_delay v) (tv_delay v) True"
  shows "due now v = Suc (due now v')" and "after_due now v = after_due now v'"
proof -
  have d: "(now - tv_expire v - tv_delay v) div tv_delay v = (now - tv_expire v) div tv_delay v - 1"
    using assms(3) by (metis add.commute diff_add_cancel div_add_self2 less_irrefl add_diff_cancel_left')
  have e: "now - (tv_expire v + tv_delay v) = now - tv_expire v - tv_delay v" by simp
  have z: "(now - tv_expire v) div tv_delay v = 0" if "now < tv_expire v + tv_delay v"
    using that assms(1) by (intro div_pos_pos_trivial) auto
  have g: "1 \<le> (now - tv_expire v) div tv_delay v" if "\<not> now < tv_expire v + tv_delay v"
    using that assms(3) pos_imp_zdiv_pos_iff [of "tv_delay v" "now - tv_expire v"] by linarith
  show due: "due now v = Suc (due now v')"
    using assms(1,2) z g unfolding due_def v'_def by (simp add: e d) linarith
  show "after_due now v = after_due now v'"
    using assms(1,2) z unfolding after_due_def due
    by (simp add: v'_def algebra_simps) (simp add: due_def)
qed

lemma after_due_later:
  assumes "after_due now v = Some v'" and "0 < tv_delay v"
  shows "now < tv_expire v'"
proof (cases "now < tv_expire v")
  case False
  then have v': "tv_expire v' = tv_expire v + ((now - tv_expire v) div tv_delay v + 1) * tv_delay v"
    using assms by (auto simp: after_due_def due_def pos_imp_zdiv_nonneg_iff split: if_splits)
  show ?thesis
    using pos_mod_bound [OF assms(2), of "now - tv_expire v"]
      div_mult_mod_eq [of "now - tv_expire v" "tv_delay v"]
    unfolding v' distrib_right by linarith
qed (use assms in \<open>simp add: after_due_def\<close>)

section \<open>One turn\<close>

definition resets :: "('a, 'c, 'h) timer_heap \<Rightarrow> int \<Rightarrow> ('a, 'c, 'h) timer_heap" where
  "resets th e = th\<lparr>th_sysArmed := Some (word_of_int e), th_sysPending := False\<rparr>"

lemma resetSysTimer_eq: "resetSysTimer now e th = resets th (sint e)"
  by (simp add: resetSysTimer_def stopSysTimer_def resets_def)

lemma resets_fields [simp]:
  "th_view (resets th e) = th_view th" "th_stopped (resets th e) = th_stopped th"
  "th_inv H ok (resets th e) = th_inv H ok th" "th_sysArmed (resets th e) = Some (word_of_int e)"
  "th_room (resets th e) = th_room th"
  by (simp_all add: resets_def th_view_def th_inv_def th_room_def)

text \<open>An update of the expiry of one timer, as \<open>update\<close> does it for a periodic one.\<close>

definition postpone :: "nat \<Rightarrow> (nat \<Rightarrow> ('a, 'c) timer) \<Rightarrow> nat \<Rightarrow> ('a, 'c) timer" where
  "postpone p st = st(p := (st p)\<lparr>t_expireAt := t_expireAt (st p) + t_delay (st p)\<rparr>)"

lemma postpone_fields [simp]:
  "t_id (postpone p st q) = t_id (st q)" "t_delay (postpone p st q) = t_delay (st q)"
  "t_periodic (postpone p st q) = t_periodic (st q)"
  "q \<noteq> p \<Longrightarrow> t_expireAt (postpone p st q) = t_expireAt (st q)"
  "t_expireAt (postpone p st p) = t_expireAt (st p) + t_delay (st p)"
  by (simp_all add: postpone_def)

lemma view_of_set_indices [simp]: "view_of (set_indices i ps st p) = view_of (st p)"
  by (simp add: view_of_def)

context heap_library
begin

lemma update_empty:
  assumes "th_inv H ok th" and "\<not> th_stopped th" and "th_view th = Map.empty"
  shows "update_turn H now th = Normal (UpdateReturns, th)"
proof -
  obtain h where h: "th_timerHeap th = Some h" and ent: "entries_ok (th_store th) (th_timerMap th)
      (th_next th) (th_timerIdGen th) (hp_elems H h)"
    using assms(1,2) by (rule th_invE)
  have "th_timerMap th i = None" for i
    using fun_cong [OF assms(3), of i] by (simp add: th_view_def)
  then have "hp_elems H h = []"
    using ent unfolding entries_ok_def by (metis list.set_intros(1) neq_Nil_conv option.distinct(1))
  then show ?thesis using h by (simp add: update_turn_def with_heap_def len_elems)
qed

text \<open>The timer a turn looks at: no other one expires earlier.\<close>

lemma update_top:
  assumes inv: "th_inv H ok th" and run: "\<not> th_stopped th" and "th_view th \<noteq> Map.empty"
  obtains h p where "th_timerHeap th = Some h" "p \<in> set (hp_elems H h)" "hp_Top H h = p"
    "hp_Len H h \<noteq> 0" "th_timerMap th (t_id (th_store th p)) = Some p"
    "\<And>j u. th_view th j = Some u \<Longrightarrow> sint (t_expireAt (th_store th p)) \<le> tv_expire u"
proof -
  obtain h where h: "th_timerHeap th = Some h" and ok: "ok (th_less (th_store th)) h"
    and ent: "entries_ok (th_store th) (th_timerMap th) (th_next th) (th_timerIdGen th) (hp_elems H h)"
    using inv run by (rule th_invE)
  have "hp_elems H h \<noteq> []"
    using assms(3) ent by (auto simp: th_view_def entries_ok_def fun_eq_iff)
  then have top: "hp_Top H h \<in> set (hp_elems H h)"
    "\<And>q. q \<in> set (hp_elems H h) \<Longrightarrow> \<not> th_less (th_store th) q (hp_Top H h)"
    using top_least [OF ok entries_linear [OF ent]] by auto
  have "sint (t_expireAt (th_store th (hp_Top H h))) \<le> tv_expire u" if jv: "th_view th j = Some u" for j u
  proof -
    obtain q where q: "q \<in> set (hp_elems H h)" "u = view_of (th_store th q)"
      using jv ent by (auto simp: th_view_def entries_ok_def)
    have "\<not> key_of (th_store th q) < key_of (th_store th (hp_Top H h))"
      using top(1) top(2) [OF q(1)] ent q(1)
      by (simp add: th_less_def HeapLess_key entries_ok_def timer_ok_def)
    then show ?thesis by (auto simp: q(2) view_of_def key_of_def less_timer_key_def)
  qed
  then show thesis
    using h top(1) \<open>hp_elems H h \<noteq> []\<close> ent
    by (intro that [of h "hp_Top H h"]) (auto simp: len_elems entries_ok_def)
qed

lemma sane_postponed:
  assumes "timer_ok t" and "sint (t_expireAt t) \<le> sint now" and "sane_clock now"
  shows "sint (t_expireAt t + t_delay t) = sint (t_expireAt t) + sint (t_delay t)"
    and "0 \<le> sint (t_expireAt t + t_delay t)"
proof -
  have "sane_clock (t_expireAt t)" "sane_delay (t_delay t)"
    using assms by (auto simp: timer_ok_def sane_clock_def)
  then show "sint (t_expireAt t + t_delay t) = sint (t_expireAt t) + sint (t_delay t)"
    "0 \<le> sint (t_expireAt t + t_delay t)"
    by (rule sane_expiry)+
qed

text \<open>A periodic timer that is due is called back and postponed by one period.\<close>

lemma update_periodic:
  assumes inv: "th_inv H ok th" and run: "\<not> th_stopped th" and now: "sane_clock now"
    and h: "th_timerHeap th = Some h" and p: "p \<in> set (hp_elems H h)" and top: "hp_Top H h = p"
    and len: "hp_Len H h \<noteq> 0" and due: "sint (t_expireAt (th_store th p)) \<le> sint now"
    and per: "t_periodic (th_store th p)"
  obtains th' where "update_turn H now th = Normal
      (CallsBack (t_cb (th_store th p)) (t_id (th_store th p)) (t_args (th_store th p)), th')"
    "th_inv H ok th'" "\<not> th_stopped th'" "th_room th' = th_room th"
    "th_view th' = (th_view th)(t_id (th_store th p) \<mapsto> view_of (postpone p (th_store th) p))"
proof -
  have ok: "ok (th_less (th_store th)) h" and nc: "\<not> th_cStopped th"
    and ent: "entries_ok (th_store th) (th_timerMap th) (th_next th) (th_timerIdGen th) (hp_elems H h)"
    using th_invE [OF inv run] h by (metis option.inject)+
  obtain k where k: "k < length (hp_elems H h)" "hp_elems H h ! k = p" "t_heapIndex (th_store th p) = int k"
    using ent p by (rule entries_index)
  let ?st = "postpone p (th_store th)"
  let ?h' = "hp_Fix H (th_less ?st) k h"
  have tok: "timer_ok (?st q)" if "q \<in> set (hp_elems H h)" for q
    using that ent sane_postponed(2) [OF _ due now] p
    by (cases "q = p") (auto simp: entries_ok_def timer_ok_def)
  have inj: "inj_on (\<lambda>q. t_id (?st q)) (set (hp_elems H h))" using entries_inj [OF ent] by simp
  have lin': "linear_on (set (hp_elems H h)) (th_less ?st)"
    using tok inj by (intro linear_on_th_less) (auto simp: timer_ok_def)
  have dist: "distinct (hp_elems H h)" using ent by (simp add: entries_ok_def)
  note fix_prem = ok k(1) dist entries_linear [OF ent] lin'
  have same: "\<forall>x\<in>set (hp_elems H h) - {hp_elems H h ! k}. \<forall>y\<in>set (hp_elems H h) - {hp_elems H h ! k}.
      th_less (th_store th) x y = th_less ?st x y"
    by (simp add: th_less_def HeapLess_def k(2))
  have ms: "mset (hp_elems H ?h') = mset (hp_elems H h)" by (rule fix_elems [OF fix_prem same])
  have ok': "ok (th_less ?st) ?h'" by (rule fix_ok [OF fix_prem same])
  have set': "set (hp_elems H ?h') = set (hp_elems H h)" by (rule mset_eq_setD [OF ms])
  have dist': "distinct (hp_elems H ?h')" using dist mset_eq_imp_distinct_iff [OF ms] by simp
  have ent': "entries_ok (set_indices 0 (hp_elems H ?h') ?st) (th_timerMap th) (th_next th)
      (th_timerIdGen th) (hp_elems H ?h')"
    using ent tok by (intro entries_put dist') (auto simp: set' entries_ok_def)
  let ?th' = "th\<lparr>th_store := set_indices 0 (hp_elems H ?h') ?st, th_timerHeap := Some ?h'\<rparr>"
  have "update_turn H now th = Normal
      (CallsBack (t_cb (th_store th p)) (t_id (th_store th p)) (t_args (th_store th p)), ?th')"
    using h top len due per k(3)
    by (simp add: update_turn_def with_heap_def Let_def i64_simps put_heap_def postpone_def)
  moreover have "th_inv H ok ?th'" using run nc ok' ent' by (simp add: th_inv_def)
  moreover have "th_view ?th' = (th_view th)(t_id (th_store th p) \<mapsto> view_of (?st p))"
  proof
    fix j
    have mp: "th_timerMap th (t_id (th_store th p)) = Some p"
      using ent p by (auto simp: entries_ok_def)
    have ne: "q \<noteq> p" if "th_timerMap th j = Some q" "j \<noteq> t_id (th_store th p)" for q
      using ent that by (auto simp: entries_ok_def)
    show "th_view ?th' j = ((th_view th)(t_id (th_store th p) \<mapsto> view_of (?st p))) j"
    proof (cases "j = t_id (th_store th p)")
      case True
      then show ?thesis using mp by (simp add: th_view_def)
    next
      case False
      have "view_of (?st q) = view_of (th_store th q)" if "th_timerMap th j = Some q" for q
        using ne [OF that False] by (simp add: view_of_def)
      then show ?thesis using False by (cases "th_timerMap th j") (auto simp: th_view_def)
    qed
  qed
  ultimately show thesis using run by (intro that [of ?th']) (auto simp: th_room_def)
qed

text \<open>A timer that is not periodic is called back and removed.\<close>

lemma update_once:
  assumes inv: "th_inv H ok th" and run: "\<not> th_stopped th"
    and h: "th_timerHeap th = Some h" and p: "p \<in> set (hp_elems H h)" and top: "hp_Top H h = p"
    and len: "hp_Len H h \<noteq> 0" and due: "sint (t_expireAt (th_store th p)) \<le> sint now"
    and per: "\<not> t_periodic (th_store th p)"
  obtains th' where "update_turn H now th = Normal
      (CallsBack (t_cb (th_store th p)) (t_id (th_store th p)) (t_args (th_store th p)), th')"
    "th_inv H ok th'" "\<not> th_stopped th'" "th_room th' = th_room th"
    "th_view th' = (th_view th)(t_id (th_store th p) := None)"
proof -
  have ok: "ok (th_less (th_store th)) h" and nc: "\<not> th_cStopped th"
    and ent: "entries_ok (th_store th) (th_timerMap th) (th_next th) (th_timerIdGen th) (hp_elems H h)"
    using th_invE [OF inv run] h by (metis option.inject)+
  obtain h' where rem: "remTimer H p th = Normal (th\<lparr>th_timerHeap := Some h',
        th_store := set_indices 0 (hp_elems H h') (th_store th),
        th_timerMap := (th_timerMap th)(t_id (th_store th p) := None)\<rparr>)"
    and ok': "ok (th_less (th_store th)) h'"
    and ent': "entries_ok (set_indices 0 (hp_elems H h') (th_store th))
       ((th_timerMap th)(t_id (th_store th p) := None)) (th_next th) (th_timerIdGen th) (hp_elems H h')"
    by (rule remTimer_ok [OF h ok ent p])
  let ?th' = "th\<lparr>th_timerHeap := Some h', th_store := set_indices 0 (hp_elems H h') (th_store th),
        th_timerMap := (th_timerMap th)(t_id (th_store th p) := None)\<rparr>"
  have "update_turn H now th = Normal
      (CallsBack (t_cb (th_store th p)) (t_id (th_store th p)) (t_args (th_store th p)), ?th')"
    using h top len due per rem by (simp add: update_turn_def with_heap_def Let_def i64_simps)
  moreover have "th_inv H ok ?th'" using run nc ok' ent' by (simp add: th_inv_def)
  moreover have "th_view ?th' = (th_view th)(t_id (th_store th p) := None)"
    by (auto simp: th_view_def fun_eq_iff)
  ultimately show thesis using run by (intro that [of ?th']) (auto simp: th_room_def)
qed

section \<open>The loop\<close>

end

text \<open>All calls that are due.\<close>

definition total_due :: "int \<Rightarrow> (timer_id \<rightharpoonup> tview) \<Rightarrow> nat" where
  "total_due now v = (\<Sum>i\<in>dom v. due now (the (v i)))"

context heap_library
begin

lemma th_view_delay:
  assumes "th_inv H ok th" and "\<not> th_stopped th" and "th_view th i = Some v"
  shows "0 < tv_delay v"
proof -
  obtain h where "entries_ok (th_store th) (th_timerMap th) (th_next th) (th_timerIdGen th) (hp_elems H h)"
    using assms(1,2) by (rule th_invE)
  then show ?thesis
    using assms(3) by (auto simp: th_view_def entries_ok_def timer_ok_def sane_delay_def view_of_def)
qed

text \<open>A turn at a time at which some timer is due: it is called back, one call fewer is left.\<close>

lemma update_calls:
  assumes inv: "th_inv H ok th" and run: "\<not> th_stopped th" and now: "sane_clock now"
    and j: "th_view th j = Some u" "tv_expire u \<le> sint now"
  obtains f i a th' v where "update_turn H now th = Normal (CallsBack f i a, th')"
    "th_inv H ok th'" "\<not> th_stopped th'" "th_room th' = th_room th"
    "th_view th i = Some v" "due (sint now) v \<noteq> 0"
    "th_view th' = (th_view th)(i := if tv_periodic v then
       Some (TView (tv_expire v + tv_delay v) (tv_delay v) True) else None)"
proof -
  have "th_view th \<noteq> Map.empty" using j(1) by auto
  then obtain h p where h: "th_timerHeap th = Some h" and p: "p \<in> set (hp_elems H h)"
    and top: "hp_Top H h = p" and len: "hp_Len H h \<noteq> 0"
    and mp: "th_timerMap th (t_id (th_store th p)) = Some p"
    and least: "\<And>j u. th_view th j = Some u \<Longrightarrow> sint (t_expireAt (th_store th p)) \<le> tv_expire u"
    using update_top [OF inv run] by metis
  let ?t = "th_store th p"
  have exp: "sint (t_expireAt ?t) \<le> sint now" using least [OF j(1)] j(2) by linarith
  have view: "th_view th (t_id ?t) = Some (view_of ?t)" by (simp add: th_view_def mp)
  have due: "due (sint now) (view_of ?t) \<noteq> 0" using exp by (simp add: due_def view_of_def)
  have tok: "timer_ok ?t"
    using th_invE [OF inv run] h p by (metis entries_ok_def option.inject)
  show thesis
  proof (cases "t_periodic ?t")
    case True
    obtain th' where "update_turn H now th = Normal
        (CallsBack (t_cb ?t) (t_id ?t) (t_args ?t), th')" "th_inv H ok th'" "\<not> th_stopped th'"
      "th_room th' = th_room th"
      "th_view th' = (th_view th)(t_id ?t \<mapsto> view_of (postpone p (th_store th) p))"
      by (rule update_periodic [OF inv run now h p top len exp True])
    moreover have "view_of (postpone p (th_store th) p) =
        TView (tv_expire (view_of ?t) + tv_delay (view_of ?t)) (tv_delay (view_of ?t)) True"
      using sane_postponed(1) [OF tok exp now] True by (simp add: view_of_def)
    moreover have "tv_periodic (view_of ?t)" using True by (simp add: view_of_def)
    ultimately show thesis using view due by (intro that [of _ _ _ th' "view_of ?t"]) simp_all
  next
    case False
    obtain th' where "update_turn H now th = Normal
        (CallsBack (t_cb ?t) (t_id ?t) (t_args ?t), th')" "th_inv H ok th'" "\<not> th_stopped th'"
      "th_room th' = th_room th" "th_view th' = (th_view th)(t_id ?t := None)"
      by (rule update_once [OF inv run h p top len exp False])
    moreover have "\<not> tv_periodic (view_of ?t)" using False by (simp add: view_of_def)
    ultimately show thesis using view due by (intro that [of _ _ _ th' "view_of ?t"]) simp_all
  qed
qed

lemma update_returns:
  assumes inv: "th_inv H ok th" and run: "\<not> th_stopped th"
    and later: "\<forall>j u. th_view th j = Some u \<longrightarrow> sint now < tv_expire u"
  obtains th' where "update_turn H now th = Normal (UpdateReturns, th')"
    "th_inv H ok th'" "\<not> th_stopped th'" "th_view th' = th_view th"
    "\<forall>j u. th_view th j = Some u \<longrightarrow> (\<exists>e. th_sysArmed th' = Some e \<and> sint e \<le> tv_expire u)"
proof (cases "th_view th = Map.empty")
  case True
  then show thesis using update_empty [OF inv run True] inv run by (intro that) auto
next
  case False
  then obtain h p where h: "th_timerHeap th = Some h" and top: "hp_Top H h = p"
    and len: "hp_Len H h \<noteq> 0" and mp: "th_timerMap th (t_id (th_store th p)) = Some p"
    and least: "\<And>j u. th_view th j = Some u \<Longrightarrow> sint (t_expireAt (th_store th p)) \<le> tv_expire u"
    using update_top [OF inv run] by metis
  have "sint now < sint (t_expireAt (th_store th p))"
    using later by (simp add: th_view_def) (metis mp tview.sel(1) view_of_def option.map(2))
  then have "update_turn H now th =
      Normal (UpdateReturns, resets th (sint (t_expireAt (th_store th p))))"
    using h top len by (simp add: update_turn_def with_heap_def Let_def i64_simps resetSysTimer_eq)
  then show thesis
    using inv run least by (intro that [of "resets th (sint (t_expireAt (th_store th p)))"]) auto
qed

lemma total_due_step:
  assumes fin: "finite (dom m)" and i: "m i = Some v" "due now v \<noteq> 0" "0 < tv_delay v"
    and m': "m' = m(i := if tv_periodic v then
       Some (TView (tv_expire v + tv_delay v) (tv_delay v) True) else None)"
  shows "total_due now m = Suc (total_due now m')"
    and "(\<lambda>j. Option.bind (m j) (after_due now)) = (\<lambda>j. Option.bind (m' j) (after_due now))"
    and "(case m j of None \<Rightarrow> 0 | Some u \<Rightarrow> due now u) =
         (case m' j of None \<Rightarrow> 0 | Some u \<Rightarrow> due now u) + (if j = i then 1 else 0)"
proof -
  have le: "tv_expire v \<le> now" using i(2) by (auto simp: due_def split: if_splits)
  let ?d = "\<lambda>m j. case m j of None \<Rightarrow> 0 | Some u \<Rightarrow> due now u"
  show pt: "?d m j = ?d m' j + (if j = i then 1 else 0)" for j
    using i le due_step(1) [OF le _ i(3)] by (auto simp: m' due_def)
  show "(\<lambda>j. Option.bind (m j) (after_due now)) = (\<lambda>j. Option.bind (m' j) (after_due now))"
    using i le due_step(2) [OF le _ i(3)] by (auto simp: m' fun_eq_iff after_due_def)
  have tot: "total_due now k = (\<Sum>j\<in>dom m. ?d k j)" if "dom k \<subseteq> dom m" for k
    unfolding total_due_def using fin that
    by (intro sum.mono_neutral_cong_left) (auto split: option.splits)
  have "dom m' \<subseteq> dom m" using i(1) by (auto simp: m' split: if_splits)
  then have "total_due now m = (\<Sum>j\<in>dom m. ?d m' j + (if j = i then 1 else 0))"
    by (simp only: tot [OF subset_refl] pt)
  also have "\<dots> = Suc (total_due now m')"
    using fin i(1) by (simp add: sum.distrib tot [OF \<open>dom m' \<subseteq> dom m\<close>] domI)
  finally show "total_due now m = Suc (total_due now m')" .
qed

lemma finite_th_view: "th_inv H ok th \<Longrightarrow> \<not> th_stopped th \<Longrightarrow> finite (dom (th_view th))"
proof -
  assume "th_inv H ok th" "\<not> th_stopped th"
  then obtain h where ent: "entries_ok (th_store th) (th_timerMap th) (th_next th) (th_timerIdGen th)
      (hp_elems H h)" by (rule th_invE)
  have "dom (th_view th) \<subseteq> (\<lambda>p. t_id (th_store th p)) ` set (hp_elems H h)"
    using ent by (auto simp: th_view_def entries_ok_def)
  then show ?thesis by (rule finite_subset) simp
qed

text \<open>With fuel for every call that is due and the final turn, the loop returns, and does what the
  specification \<open>due\<close> and \<open>after_due\<close> asks for.\<close>

lemma update_loop_spec:
  assumes "th_inv H ok th" and "\<not> th_stopped th" and "sane_clock now"
    and "total_due (sint now) (th_view th) < fuel"
  shows "\<exists>ids th'. update_loop H fuel now th = Normal (Some (ids, th')) \<and>
     th_inv H ok th' \<and> \<not> th_stopped th' \<and>
     (\<forall>j. count_list ids j = (case th_view th j of None \<Rightarrow> 0 | Some u \<Rightarrow> due (sint now) u)) \<and>
     th_view th' = (\<lambda>j. Option.bind (th_view th j) (after_due (sint now))) \<and>
     (\<forall>j u. th_view th' j = Some u \<longrightarrow> (\<exists>e. th_sysArmed th' = Some e \<and> sint e \<le> tv_expire u))"
  using assms
proof (induction fuel arbitrary: th)
  case (Suc fuel)
  note inv = Suc.prems(1) and run = Suc.prems(2)
  show ?case
  proof (cases "\<exists>j u. th_view th j = Some u \<and> tv_expire u \<le> sint now")
    case True
    then obtain j u where j: "th_view th j = Some u" "tv_expire u \<le> sint now" by blast
    obtain f i a th1 v where turn: "update_turn H now th = Normal (CallsBack f i a, th1)"
      and th1: "th_inv H ok th1" "\<not> th_stopped th1"
      and i: "th_view th i = Some v" "due (sint now) v \<noteq> 0"
      and view: "th_view th1 = (th_view th)(i := if tv_periodic v then
         Some (TView (tv_expire v + tv_delay v) (tv_delay v) True) else None)"
      by (rule update_calls [OF inv run Suc.prems(3) j])
    note step = total_due_step [OF finite_th_view [OF inv run] i th_view_delay [OF inv run i(1)] view]
    have "total_due (sint now) (th_view th1) < fuel" using Suc.prems(4) step(1) by simp
    from Suc.IH [OF th1 Suc.prems(3) this] obtain ids th' where
      ih: "update_loop H fuel now th1 = Normal (Some (ids, th'))"
        "th_inv H ok th'" "\<not> th_stopped th'"
        "\<And>j. count_list ids j = (case th_view th1 j of None \<Rightarrow> 0 | Some u \<Rightarrow> due (sint now) u)"
        "th_view th' = (\<lambda>j. Option.bind (th_view th1 j) (after_due (sint now)))"
        "\<And>j u. th_view th' j = Some u \<Longrightarrow> \<exists>e. th_sysArmed th' = Some e \<and> sint e \<le> tv_expire u"
      by blast
    have "update_loop H (Suc fuel) now th = Normal (Some (i # ids, th'))"
      by (simp add: turn ih(1))
    moreover have "count_list (i # ids) j = (case th_view th j of None \<Rightarrow> 0 | Some u \<Rightarrow> due (sint now) u)" for j
      using step(3) [of j] ih(4) [of j] by simp
    ultimately show ?thesis using ih(2,3,5,6) step(2) by metis
  next
    case False
    then have later: "\<forall>j u. th_view th j = Some u \<longrightarrow> sint now < tv_expire u"
      by (meson not_le)
    obtain th' where turn: "update_turn H now th = Normal (UpdateReturns, th')"
      and th': "th_inv H ok th'" "\<not> th_stopped th'" "th_view th' = th_view th"
      "\<forall>j u. th_view th j = Some u \<longrightarrow> (\<exists>e. th_sysArmed th' = Some e \<and> sint e \<le> tv_expire u)"
      by (rule update_returns [OF inv run later])
    have "(case th_view th j of None \<Rightarrow> 0 | Some u \<Rightarrow> due (sint now) u) = 0"
      "Option.bind (th_view th j) (after_due (sint now)) = th_view th j" for j
      using later by (cases "th_view th j"; simp add: due_def after_due_def)+
    then show ?thesis using turn th' by simp
  qed
qed simp

end

section \<open>A heap that keeps the contract\<close>

text \<open>A list in the order of the comparison: the element at the top is the first.\<close>

fun sl_insert :: "(nat \<Rightarrow> nat \<Rightarrow> bool) \<Rightarrow> nat \<Rightarrow> nat list \<Rightarrow> nat list" where
  "sl_insert lt x [] = [x]"
| "sl_insert lt x (y # ys) = (if lt x y then x # y # ys else y # sl_insert lt x ys)"

definition sl_remove :: "nat \<Rightarrow> nat list \<Rightarrow> nat list" where
  "sl_remove i xs = take i xs @ drop (Suc i) xs"

definition sorted_list_heap :: "nat list heap_ops" where
  "sorted_list_heap = \<lparr>
     hp_New = [],
     hp_Push = sl_insert,
     hp_Remove = (\<lambda>lt i xs. sl_remove i xs),
     hp_Fix = (\<lambda>lt i xs. sl_insert lt (xs ! i) (sl_remove i xs)),
     hp_Top = hd,
     hp_Len = (\<lambda>xs. int (length xs)),
     hp_elems = (\<lambda>xs. xs)\<rparr>"

lemma mset_sl_insert: "mset (sl_insert lt x xs) = add_mset x (mset xs)"
  by (induction xs) auto

lemma set_sl_insert: "set (sl_insert lt x xs) = insert x (set xs)"
  using arg_cong [OF mset_sl_insert, of set_mset] by simp

lemma linear_on_subset: "linear_on S lt \<Longrightarrow> R \<subseteq> S \<Longrightarrow> linear_on R lt"
  unfolding linear_on_def by blast

lemma sorted_sl_insert:
  "linear_on (insert x (set xs)) lt \<Longrightarrow> sorted_wrt (\<lambda>a b. \<not> lt b a) xs \<Longrightarrow>
     sorted_wrt (\<lambda>a b. \<not> lt b a) (sl_insert lt x xs)"
proof (induction xs)
  case (Cons y ys)
  have "linear_on (insert x (set ys)) lt" using Cons.prems(1) by (rule linear_on_subset) auto
  then have ih: "sorted_wrt (\<lambda>a b. \<not> lt b a) (sl_insert lt x ys)" using Cons by simp
  have "\<not> lt z x" if "lt x y" "z = y \<or> z \<in> set ys" for z
  proof -
    have "\<not> lt y y" using Cons.prems(1) unfolding linear_on_def by simp
    then have "\<not> lt z y" using that(2) Cons.prems(2) by auto
    moreover have "\<forall>a\<in>insert x (set (y # ys)). \<forall>b\<in>insert x (set (y # ys)). \<forall>c\<in>insert x (set (y # ys)).
        lt a b \<longrightarrow> lt b c \<longrightarrow> lt a c"
      using Cons.prems(1) unfolding linear_on_def by blast
    ultimately show ?thesis using that by auto
  qed
  then show ?case using ih Cons.prems(2) by (auto simp: set_sl_insert)
qed simp

lemma mset_sl_remove: "i < length xs \<Longrightarrow> mset (sl_remove i xs) = mset xs - {#xs ! i#}"
proof -
  assume "i < length xs"
  then have "xs = take i xs @ xs ! i # drop (Suc i) xs" by (rule id_take_nth_drop)
  then have "mset xs = add_mset (xs ! i) (mset (sl_remove i xs))"
    by (metis mset.simps(2) mset_append sl_remove_def union_mset_add_mset_right)
  then show ?thesis by simp
qed

lemma set_sl_remove: "set (sl_remove i xs) \<subseteq> set xs"
  by (auto simp: sl_remove_def dest: in_set_takeD in_set_dropD)

lemma sorted_sl_remove: "sorted_wrt R xs \<Longrightarrow> sorted_wrt R (sl_remove i xs)"
proof -
  assume "sorted_wrt R xs"
  then have "sorted_wrt R (take i xs @ drop i xs)" by simp
  then show ?thesis
    unfolding sl_remove_def sorted_wrt_append
    using set_drop_subset_set_drop [of i "Suc i" xs, OF le_SucI [OF order_refl]] sorted_wrt_drop [OF \<open>sorted_wrt R xs\<close>, of "Suc i"]
    by blast
qed

lemma not_removed:
  assumes "distinct xs" and "i < length xs"
  shows "set (sl_remove i xs) = set xs - {xs ! i}"
  using assms mset_sl_remove [OF assms(2)]
  by (metis distinct_remove1 mset_remove1 set_mset_mset set_remove1_eq)

interpretation slh: heap_library sorted_list_heap "\<lambda>lt xs. sorted_wrt (\<lambda>a b. \<not> lt b a) xs"
proof
  fix lt lt' :: "nat \<Rightarrow> nat \<Rightarrow> bool" and h i
  assume ok: "sorted_wrt (\<lambda>a b. \<not> lt b a) h"
    and i: "i < length (hp_elems sorted_list_heap h)"
    and d: "distinct (hp_elems sorted_list_heap h)"
    and lin': "linear_on (set (hp_elems sorted_list_heap h)) lt'"
    and same: "\<forall>x\<in>set (hp_elems sorted_list_heap h) - {hp_elems sorted_list_heap h ! i}.
      \<forall>y\<in>set (hp_elems sorted_list_heap h) - {hp_elems sorted_list_heap h ! i}. lt x y = lt' x y"
  have set': "set (sl_remove i h) = set h - {h ! i}"
    using d i by (intro not_removed) (simp_all add: sorted_list_heap_def)
  have "sorted_wrt (\<lambda>a b. \<not> lt' b a) (sl_remove i h)"
    using sorted_sl_remove [OF ok, of i] same set'
    by (auto simp: sorted_list_heap_def elim!: sorted_wrt_mono_rel [rotated])
  moreover have "linear_on (insert (h ! i) (set (sl_remove i h))) lt'"
    using lin' by (rule linear_on_subset) (use i in \<open>auto simp: set' sorted_list_heap_def\<close>)
  ultimately show "sorted_wrt (\<lambda>a b. \<not> lt' b a) (hp_Fix sorted_list_heap lt' i h)"
    by (simp add: sorted_list_heap_def sorted_sl_insert)
  show "mset (hp_elems sorted_list_heap (hp_Fix sorted_list_heap lt' i h)) =
      mset (hp_elems sorted_list_heap h)"
    using i by (simp add: sorted_list_heap_def mset_sl_insert mset_sl_remove)
next
  fix lt lt' :: "nat \<Rightarrow> nat \<Rightarrow> bool" and h
  assume "sorted_wrt (\<lambda>a b. \<not> lt b a) h"
    and "\<forall>x\<in>set (hp_elems sorted_list_heap h). \<forall>y\<in>set (hp_elems sorted_list_heap h). lt x y = lt' x y"
  then show "sorted_wrt (\<lambda>a b. \<not> lt' b a) h"
    by (auto simp: sorted_list_heap_def intro: sorted_wrt_mono_rel [where P = "\<lambda>a b. \<not> lt b a"])
next
  fix lt :: "nat \<Rightarrow> nat \<Rightarrow> bool" and h
  assume "sorted_wrt (\<lambda>a b. \<not> lt b a) h" "linear_on (set (hp_elems sorted_list_heap h)) lt"
    "hp_elems sorted_list_heap h \<noteq> []"
  then show "hp_Top sorted_list_heap h \<in> set (hp_elems sorted_list_heap h) \<and>
      (\<forall>y\<in>set (hp_elems sorted_list_heap h). \<not> lt y (hp_Top sorted_list_heap h))"
    by (cases h) (auto simp: sorted_list_heap_def linear_on_def)
qed (simp_all add: sorted_list_heap_def sorted_sl_insert mset_sl_insert mset_sl_remove sorted_sl_remove)

end
