(* ===== verification/Establish_Run.thy ===== *)
theory Establish_Run
  imports System_Invariant Timer_Update
begin

lemmas run_defs = onPassiveConn_read_def onPassiveConn_obtain_def onPassiveConn_wait_def
  startPassiveEstablish_def startPassiveEstablish_check_def passiveEstablishHandshake_accept_def
  passiveEstablishHandshake_reply_def passiveEstablishHandshake_ack_def passiveEstablishSuccess_def
  Connect_enter_def Connect_obtain_def Connect_wait_def startActiveEstablish_def
  startActiveEstablish_check_def activeEstablishConnect_def activeEstablishHandshake_begin_def
  activeEstablishHandshake_apply_def activeEstablishHandshake_resp_def
  activeEstablishAboutSuccess_begin_def activeEstablishAboutSuccess_write_def
  activeEstablishAboutSuccess_ack_def activeEstablishSuccess_def establishEnd_enter_def
  establishEnd_choice_def end_create_def end_continue_def end_finish_def ecs_start_def ecs_check_def
  ecs_commit_def ecs_finish_def

lemmas svc_defs = service_GetSession_def service_getSession_def service_lockState_def sessionMap_get_def
  getOrCreateEstablishment_def est_update_def sess_update_def hs_write_def es_lock_def es_unlock_def
  sessionMap_add_def sref_RemoteNodeId_def map_compareAndDelete_def session_start_def
  startSessionTicker_def session_lockState_def session_unlockState_def session_checkState_def

lemmas est_defs = em_methods em_defs ing_defs new_establishment_def new_establishing_def em_wait_def

lemma thread_run_append:
  "thread_run E (xs @ ys) me pc w = obind (thread_run E xs me pc w) (\<lambda>(pc', w'). thread_run E ys me pc' w')"
  by (induction xs arbitrary: pc w) (auto simp: obind_assoc case_prod_unfold)

section \<open>The active side\<close>

text \<open>An establishment of node \<open>n\<close> whose active direction, started at time \<open>t\<close>, is in state \<open>st\<close>.\<close>

definition active_in :: "node_id \<Rightarrow> int \<Rightarrow> int \<Rightarrow> establishment" where
  "active_in n st t = (new_establishment n)\<lparr>em_state := establishmentStarted,
     em_active := Some (new_establishing\<lparr>ing_state := st, ing_startTime := t\<rparr>)\<rparr>"

lemma Connect_to_dial:
  assumes "sv_state w = stateStarted" "sv_sessions w n = None" "sv_establishments w n = None"
  shows "thread_run E (map (Pair now) [Go, Go, Go, Go]) n C_Enter w =
     Normal (A_Dial (sv_estNext w),
       w\<lparr>sv_est := (sv_est w)(sv_estNext w := active_in n establishConnect (sint now)),
         sv_estNext := Suc (sv_estNext w),
         sv_establishments := (sv_establishments w)(n \<mapsto> sv_estNext w)\<rparr>)"
  using assms by (simp add: run_defs svc_defs est_defs active_in_def Let_def state_simps)

lemma dial_to_create:
  assumes "sv_est w e = active_in n establishConnect t" and "token = hc_Token (cfg_Handshake (sv_cfg w))"
  shows "thread_run E (map (Pair now) [DialOk c, Go, IoOk, Recv (HSAccepted n token), Go, IoOk,
       Recv HSCompletedAck, Go]) n (A_Dial e) w =
     Normal (E_Create ActiveSide e c True,
       w\<lparr>sv_est := (sv_est w)(e := (active_in n establishSuccess t)\<lparr>em_locked := True,
            em_active := Some \<lparr>ing_state = establishSuccess, ing_startTime = t, ing_conn = Some c, ing_err = None\<rparr>\<rparr>),
         sv_sent := sv_sent w @ [(c, HSApply (cfg_NodeId (sv_cfg w)) token t), (c, HSCompleted)]\<rparr>)"
  using assms by (simp add: run_defs svc_defs est_defs active_in_def Let_def state_simps)

lemma create_to_done:
  assumes "sv_state w = stateStarted" and "em_state (sv_est w e) = establishmentStarted"
    and "\<not> em_chEnd (sv_est w e)" and "em_remoteNodeId (sv_est w e) = n"
    and "ts_StartTimer (env_T E) (word_of_int (sc_TickInterval (cfg_Session (sv_cfg w)))) True n now
           (sv_timers w) = Normal (tid, tm)"
  shows "\<exists>w'. thread_run E (map (Pair now) [CoreStart None, Go, Go, Go, Go]) n (E_Create ActiveSide e c a) w =
       Normal (C_Done (Some (SRemote (sv_sessNext w))) None, w') \<and>
     sv_sessions w' = (sv_sessions w)(n \<mapsto> SRemote (sv_sessNext w)) \<and>
     sv_establishments w' = snd (map_compareAndDelete n e (sv_establishments w)) \<and>
     ss_state (sv_sess w' (sv_sessNext w)) = stateStarted \<and>
     ss_remoteNodeId (sv_sess w' (sv_sessNext w)) = n \<and> ss_conn (sv_sess w' (sv_sessNext w)) = c \<and>
     ss_activeEnd (sv_sess w' (sv_sessNext w)) = a \<and> ss_tickTimerId (sv_sess w' (sv_sessNext w)) = tid \<and>
     \<not> ss_wlocked (sv_sess w' (sv_sessNext w)) \<and>
     em_session (sv_est w' e) = Some (SRemote (sv_sessNext w)) \<and> em_isEnd (sv_est w' e) \<and>
     \<not> em_locked (sv_est w' e) \<and> sv_timers w' = tm \<and> sv_closedConns w' = sv_closedConns w \<and>
     sv_sent w' = sv_sent w"
  using assms
  by (simp add: run_defs svc_defs est_defs newSession_def refreshActiveTime_def Let_def state_simps)

text \<open>What the network answers when all goes well: the connection \<open>c\<close>, and the messages of the other
  side.\<close>

definition connect_script :: "conn \<Rightarrow> node_id \<Rightarrow> string \<Rightarrow> answer list" where
  "connect_script c n token = [Go, Go, Go, Go] @
     [DialOk c, Go, IoOk, Recv (HSAccepted n token), Go, IoOk, Recv HSCompletedAck, Go] @
     [CoreStart None, Go, Go, Go, Go]"

text \<open>The result on either side: a started session to \<open>n\<close> over \<open>c\<close>, in the map, with its tick timer;
  no establishment is left; \<open>ms\<close> have been sent.\<close>

definition connected ::
    "node_id \<Rightarrow> conn \<Rightarrow> bool \<Rightarrow> timer_id \<Rightarrow> 't \<Rightarrow> hs_message list \<Rightarrow> ('q, 't) service \<Rightarrow> ('q, 't) service \<Rightarrow> bool" where
  "connected n c active tid tm ms w w' \<longleftrightarrow>
     (let sid = sv_sessNext w; eid = sv_estNext w; s = sv_sess w' sid in
      sv_sessions w' = (sv_sessions w)(n \<mapsto> SRemote sid) \<and> sv_establishments w' = sv_establishments w \<and>
      ss_state s = stateStarted \<and> ss_remoteNodeId s = n \<and> ss_conn s = c \<and> ss_activeEnd s = active \<and>
      ss_tickTimerId s = tid \<and> \<not> ss_wlocked s \<and>
      em_session (sv_est w' eid) = Some (SRemote sid) \<and> em_isEnd (sv_est w' eid) \<and>
      \<not> em_locked (sv_est w' eid) \<and> sv_timers w' = tm \<and> sv_closedConns w' = sv_closedConns w \<and>
      sv_sent w' = sv_sent w @ map (Pair c) ms)"

lemma Connect_run:
  assumes st: "sv_state w = stateStarted" and free: "sv_sessions w n = None" "sv_establishments w n = None"
    and timer: "ts_StartTimer (env_T E) (word_of_int (sc_TickInterval (cfg_Session (sv_cfg w)))) True n now
      (sv_timers w) = Normal (tid, tm)"
    and token: "token = hc_Token (cfg_Handshake (sv_cfg w))"
  obtains w' where
    "thread_run E (map (Pair now) (connect_script c n token)) n C_Enter w =
       Normal (C_Done (Some (SRemote (sv_sessNext w))) None, w')"
    "connected n c True tid tm [HSApply (cfg_NodeId (sv_cfg w)) token (sint now), HSCompleted] w w'"
proof -
  let ?e = "sv_estNext w"
  let ?w1 = "w\<lparr>sv_est := (sv_est w)(?e := active_in n establishConnect (sint now)), sv_estNext := Suc ?e,
      sv_establishments := (sv_establishments w)(n \<mapsto> ?e)\<rparr>"
  let ?w2 = "?w1\<lparr>sv_est := (sv_est ?w1)(?e := (active_in n establishSuccess (sint now))\<lparr>em_locked := True,
        em_active := Some \<lparr>ing_state = establishSuccess, ing_startTime = sint now, ing_conn = Some c,
          ing_err = None\<rparr>\<rparr>),
      sv_sent := sv_sent ?w1 @ [(c, HSApply (cfg_NodeId (sv_cfg ?w1)) token (sint now)), (c, HSCompleted)]\<rparr>"
  have r1: "thread_run E (map (Pair now) [Go, Go, Go, Go]) n C_Enter w = Normal (A_Dial ?e, ?w1)"
    by (rule Connect_to_dial [OF st free])
  have r2: "thread_run E (map (Pair now) [DialOk c, Go, IoOk, Recv (HSAccepted n token), Go, IoOk,
      Recv HSCompletedAck, Go]) n (A_Dial ?e) ?w1 = Normal (E_Create ActiveSide ?e c True, ?w2)"
    using token by (intro dial_to_create) simp_all
  have "sv_state ?w2 = stateStarted" "em_state (sv_est ?w2 ?e) = establishmentStarted"
    "\<not> em_chEnd (sv_est ?w2 ?e)" "em_remoteNodeId (sv_est ?w2 ?e) = n"
    "ts_StartTimer (env_T E) (word_of_int (sc_TickInterval (cfg_Session (sv_cfg ?w2)))) True n now
      (sv_timers ?w2) = Normal (tid, tm)"
    using st timer by (simp_all add: active_in_def new_establishment_def)
  from create_to_done [OF this, of c True] obtain w' where
    r3: "thread_run E (map (Pair now) [CoreStart None, Go, Go, Go, Go]) n (E_Create ActiveSide ?e c True) ?w2 =
       Normal (C_Done (Some (SRemote (sv_sessNext ?w2))) None, w')"
    and w': "connected n c True tid tm [HSApply (cfg_NodeId (sv_cfg w)) token (sint now), HSCompleted] w w'"
    using free(2) by (auto simp: connected_def Let_def map_compareAndDelete_def fun_upd_idem)
  have "thread_run E (map (Pair now) (connect_script c n token)) n C_Enter w =
      Normal (C_Done (Some (SRemote (sv_sessNext w))) None, w')"
    unfolding connect_script_def map_append thread_run_append r1 obind.simps prod.case r2 r3 by simp
  then show thesis using w' by (rule that)
qed

section \<open>The passive side\<close>

definition passive_in :: "node_id \<Rightarrow> int \<Rightarrow> int \<Rightarrow> establishment" where
  "passive_in n st t = (new_establishment n)\<lparr>em_state := establishmentStarted,
     em_passive := Some (new_establishing\<lparr>ing_state := st, ing_startTime := t\<rparr>)\<rparr>"

lemma accept_to_create:
  assumes "sv_state w = stateStarted" "sv_sessions w n = None" "sv_establishments w n = None"
    and "token = hc_Token (cfg_Handshake (sv_cfg w))"
  shows "thread_run E (map (Pair now) [Recv (HSApply n token t), Go, Go, Go, IoOk, Recv HSCompleted, IoOk, Go])
       me (P_ReadApply c) w =
     Normal (E_Create PassiveSide (sv_estNext w) c False,
       w\<lparr>sv_est := (sv_est w)(sv_estNext w := (passive_in n establishSuccess t)\<lparr>em_locked := True,
            em_passive := Some \<lparr>ing_state = establishSuccess, ing_startTime = t, ing_conn = Some c, ing_err = None\<rparr>\<rparr>),
         sv_estNext := Suc (sv_estNext w),
         sv_establishments := (sv_establishments w)(n \<mapsto> sv_estNext w),
         sv_sent := sv_sent w @ [(c, HSAccepted (cfg_NodeId (sv_cfg w)) token), (c, HSCompletedAck)]\<rparr>)"
  using assms by (simp add: run_defs svc_defs est_defs passive_in_def Let_def state_simps)

lemma create_to_done_passive:
  assumes "sv_state w = stateStarted" and "em_state (sv_est w e) = establishmentStarted"
    and "\<not> em_chEnd (sv_est w e)" and "em_remoteNodeId (sv_est w e) = n"
    and "ts_StartTimer (env_T E) (word_of_int (sc_TickInterval (cfg_Session (sv_cfg w)))) True n now
           (sv_timers w) = Normal (tid, tm)"
  shows "\<exists>w'. thread_run E (map (Pair now) [CoreStart None, Go, Go, Go, Go]) me (E_Create PassiveSide e c a) w =
       Normal (P_Done, w') \<and>
     sv_sessions w' = (sv_sessions w)(n \<mapsto> SRemote (sv_sessNext w)) \<and>
     sv_establishments w' = snd (map_compareAndDelete n e (sv_establishments w)) \<and>
     ss_state (sv_sess w' (sv_sessNext w)) = stateStarted \<and>
     ss_remoteNodeId (sv_sess w' (sv_sessNext w)) = n \<and> ss_conn (sv_sess w' (sv_sessNext w)) = c \<and>
     ss_activeEnd (sv_sess w' (sv_sessNext w)) = a \<and> ss_tickTimerId (sv_sess w' (sv_sessNext w)) = tid \<and>
     \<not> ss_wlocked (sv_sess w' (sv_sessNext w)) \<and>
     em_session (sv_est w' e) = Some (SRemote (sv_sessNext w)) \<and> em_isEnd (sv_est w' e) \<and>
     \<not> em_locked (sv_est w' e) \<and> sv_timers w' = tm \<and> sv_closedConns w' = sv_closedConns w \<and>
     sv_sent w' = sv_sent w"
  using assms
  by (simp add: run_defs svc_defs est_defs newSession_def refreshActiveTime_def Let_def state_simps)

definition accept_script :: "node_id \<Rightarrow> string \<Rightarrow> int \<Rightarrow> answer list" where
  "accept_script n token t =
     [Recv (HSApply n token t), Go, Go, Go, IoOk, Recv HSCompleted, IoOk, Go] @
     [CoreStart None, Go, Go, Go, Go]"

lemma onPassiveConn_run:
  assumes st: "sv_state w = stateStarted" and free: "sv_sessions w n = None" "sv_establishments w n = None"
    and timer: "ts_StartTimer (env_T E) (word_of_int (sc_TickInterval (cfg_Session (sv_cfg w)))) True n now
      (sv_timers w) = Normal (tid, tm)"
    and token: "token = hc_Token (cfg_Handshake (sv_cfg w))"
  obtains w' where
    "thread_run E (map (Pair now) (accept_script n token t)) me (P_ReadApply c) w = Normal (P_Done, w')"
    "connected n c False tid tm [HSAccepted (cfg_NodeId (sv_cfg w)) token, HSCompletedAck] w w'"
proof -
  let ?e = "sv_estNext w"
  let ?w2 = "w\<lparr>sv_est := (sv_est w)(?e := (passive_in n establishSuccess t)\<lparr>em_locked := True,
        em_passive := Some \<lparr>ing_state = establishSuccess, ing_startTime = t, ing_conn = Some c, ing_err = None\<rparr>\<rparr>),
      sv_estNext := Suc ?e, sv_establishments := (sv_establishments w)(n \<mapsto> ?e),
      sv_sent := sv_sent w @ [(c, HSAccepted (cfg_NodeId (sv_cfg w)) token), (c, HSCompletedAck)]\<rparr>"
  note r1 = accept_to_create [OF st free token]
  have "sv_state ?w2 = stateStarted" "em_state (sv_est ?w2 ?e) = establishmentStarted"
    "\<not> em_chEnd (sv_est ?w2 ?e)" "em_remoteNodeId (sv_est ?w2 ?e) = n"
    "ts_StartTimer (env_T E) (word_of_int (sc_TickInterval (cfg_Session (sv_cfg ?w2)))) True n now
      (sv_timers ?w2) = Normal (tid, tm)"
    using st timer by (simp_all add: passive_in_def new_establishment_def)
  from create_to_done_passive [OF this, of me c False] obtain w' where
    r2: "thread_run E (map (Pair now) [CoreStart None, Go, Go, Go, Go]) me (E_Create PassiveSide ?e c False) ?w2 =
       Normal (P_Done, w')"
    and w': "connected n c False tid tm [HSAccepted (cfg_NodeId (sv_cfg w)) token, HSCompletedAck] w w'"
    using free(2) by (auto simp: connected_def Let_def map_compareAndDelete_def fun_upd_idem)
  have "thread_run E (map (Pair now) (accept_script n token t)) me (P_ReadApply c) w = Normal (P_Done, w')"
    unfolding accept_script_def map_append thread_run_append r1 obind.simps prod.case r2 by simp
  then show thesis using w' by (rule that)
qed

section \<open>The steps of a run are steps of the system\<close>

fun run_room ::
    "('q, 't) svc_env \<Rightarrow> ('t \<Rightarrow> bool) \<Rightarrow> (int64 \<times> answer) list \<Rightarrow> node_id \<Rightarrow> pc \<Rightarrow> ('q, 't) service \<Rightarrow> bool" where
  "run_room E room [] me pc w = True"
| "run_room E room ((now, ans) # script) me pc w =
     (sane_clock now \<and> room (sv_timers w) \<and>
      (case thread_step E now False ans me pc w of
         Normal (pc', w') \<Rightarrow> run_room E room script me pc' w' | _ \<Rightarrow> True))"

lemma run_reaches:
  assumes "thread_run E script me pc (sys_svc S) = Normal (pc', w')"
    and "run_room E room script me pc (sys_svc S)" and "sys_th S t = Some (me, pc)"
  shows "(sys_step E tok room)\<^sup>*\<^sup>* S (S\<lparr>sys_svc := w', sys_th := (sys_th S)(t \<mapsto> (me, pc'))\<rparr>)"
  using assms
proof (induction script arbitrary: pc S)
  case Nil
  then have "S\<lparr>sys_svc := w', sys_th := (sys_th S)(t \<mapsto> (me, pc'))\<rparr> = S"
    by (cases S) (auto simp: fun_upd_idem)
  then show ?case by (simp only: rtranclp.rtrancl_refl)
next
  case (Cons a script)
  obtain now ans where a: "a = (now, ans)" by (cases a)
  obtain pc1 w1 where step: "thread_step E now False ans me pc (sys_svc S) = Normal (pc1, w1)"
    and run: "thread_run E script me pc1 w1 = Normal (pc', w')"
    using Cons.prems(1) by (auto simp: a)
  let ?S1 = "S\<lparr>sys_svc := w1, sys_th := (sys_th S)(t \<mapsto> (me, pc1))\<rparr>"
  have step1: "(sys_step E tok room)\<^sup>*\<^sup>* S ?S1"
    using Cons.prems(2,3) step by (auto simp: a intro: r_into_rtranclp sys_step.Goroutine)
  have steps: "(sys_step E tok room)\<^sup>*\<^sup>* ?S1
      (?S1\<lparr>sys_svc := w', sys_th := (sys_th ?S1)(t \<mapsto> (me, pc'))\<rparr>)"
    using Cons.prems(2) run step by (intro Cons.IH) (auto simp: a)
  have same: "?S1\<lparr>sys_svc := w', sys_th := (sys_th ?S1)(t \<mapsto> (me, pc'))\<rparr> =
      S\<lparr>sys_svc := w', sys_th := (sys_th S)(t \<mapsto> (me, pc'))\<rparr>"
    by simp
  show ?case using rtranclp_trans [OF step1 steps] unfolding same .
qed

lemma run_room_append:
  "run_room E room (xs @ ys) me pc w \<longleftrightarrow> run_room E room xs me pc w \<and>
     (case thread_run E xs me pc w of Normal (pc', w') \<Rightarrow> run_room E room ys me pc' w' | _ \<Rightarrow> True)"
  by (induction xs arbitrary: pc w) (auto split: outcome.splits prod.splits)

lemma Connect_room:
  assumes st: "sv_state w = stateStarted" and free: "sv_sessions w n = None" "sv_establishments w n = None"
    and now: "sane_clock now" and room: "room (sv_timers w)"
  shows "run_room E room (map (Pair now) [Go, Go, Go, Go]) n C_Enter w"
    and "token = hc_Token (cfg_Handshake (sv_cfg w)) \<Longrightarrow>
      run_room E room (map (Pair now) ([Go, Go, Go, Go] @ [DialOk c, Go, IoOk, Recv (HSAccepted n token), Go, IoOk,
        Recv HSCompletedAck, Go] @ [CoreStart None])) n C_Enter w"
proof -
  show room1: "run_room E room (map (Pair now) [Go, Go, Go, Go]) n C_Enter w"
    using assms by (simp add: run_defs svc_defs est_defs Let_def state_simps)
  let ?w1 = "w\<lparr>sv_est := (sv_est w)(sv_estNext w := active_in n establishConnect (sint now)),
      sv_estNext := Suc (sv_estNext w), sv_establishments := (sv_establishments w)(n \<mapsto> sv_estNext w)\<rparr>"
  assume token: "token = hc_Token (cfg_Handshake (sv_cfg w))"
  have room2: "run_room E room (map (Pair now) [DialOk c, Go, IoOk, Recv (HSAccepted n token), Go, IoOk,
      Recv HSCompletedAck, Go]) n (A_Dial (sv_estNext w)) ?w1"
    using now room token by (simp add: run_defs svc_defs est_defs active_in_def Let_def state_simps)
  have w1: "sv_est ?w1 (sv_estNext w) = active_in n establishConnect (sint now)"
    "token = hc_Token (cfg_Handshake (sv_cfg ?w1))"
    using token by simp_all
  show "run_room E room (map (Pair now) ([Go, Go, Go, Go] @ [DialOk c, Go, IoOk, Recv (HSAccepted n token), Go, IoOk,
        Recv HSCompletedAck, Go] @ [CoreStart None])) n C_Enter w"
    unfolding map_append run_room_append Connect_to_dial [OF st free] prod.case outcome.case
      dial_to_create [OF w1]
    using room1 room2 now room by (simp split: outcome.splits)
qed

section \<open>An example\<close>

text \<open>A service over the timer heap and a bounded queue, in three states that are reached.\<close>

type_synonym ex_queue = "int \<times> bool \<times> packet list"
type_synonym ex_timers = "(node_id, unit, nat list) timer_heap"

definition heap_env :: "(ex_queue, ex_timers) svc_env" where
  "heap_env = \<lparr>env_Q = list_queue_ops, env_T = TimerHeap_ops sorted_list_heap\<rparr>"

abbreviation sl_ok :: "(nat \<Rightarrow> nat \<Rightarrow> bool) \<Rightarrow> nat list \<Rightarrow> bool" where
  "sl_ok \<equiv> \<lambda>lt xs. sorted_wrt (\<lambda>a b. \<not> lt b a) xs"

abbreviation heap_tok :: "ex_timers \<Rightarrow> bool" where
  "heap_tok \<equiv> th_inv sorted_list_heap sl_ok"

lemma heap_timers: "timer_system (env_T heap_env) heap_tok th_room th_live"
  using slh.th.timer_system_axioms by (simp add: heap_env_def)

interpretation heap_svc: svc_timers heap_env heap_tok th_room th_live
  unfolding svc_timers_def by (rule heap_timers)

definition ex_store :: "nat \<Rightarrow> (node_id, unit) timer" where
  "ex_store = (\<lambda>_. \<lparr>t_id = 0, t_heapIndex = 0, t_delay = 0, t_periodic = False, t_args = [], t_cb = (),
     t_expireAt = 0\<rparr>)"

definition ex_svc :: "(ex_queue, ex_timers) service" where
  "ex_svc = projr (CreateService (Some ex_service_config) False [] (NewTimerHeap sorted_list_heap 0 ex_store)
     (\<lambda>_. newSession list_queue_ops ex_session_config [] False 0) (\<lambda>_. new_establishment []))"

lemma ex_svc_created:
  "CreateService (Some ex_service_config) False [] (NewTimerHeap sorted_list_heap 0 ex_store)
     (\<lambda>_. newSession list_queue_ops ex_session_config [] False 0) (\<lambda>_. new_establishment []) = Inr ex_svc"
  by (simp add: ex_svc_def CreateService_def ServiceConfig_init_ptr_def ex_service_config_init Let_def)

definition ex_sys :: "(ex_queue, ex_timers) system" where
  "ex_sys = \<lparr>sys_svc = ex_svc\<lparr>sv_listener := Some True, sv_state := stateStarted\<rparr>,
     sys_th = [0 \<mapsto> (''b'', C_Enter)]\<rparr>"

lemma ex_svc_cfg: "sv_cfg ex_svc = ex_service_config\<lparr>cfg_Session := session_config_filled ex_session_config,
    cfg_ExpectedConcurrentSessions := 10\<rparr>"
  by (simp add: ex_svc_def CreateService_def ServiceConfig_init_ptr_def ex_service_config_init Let_def
      sessionMap_add_def)

lemma ex_svc_fields:
  "sv_sessions ex_svc = [''a'' \<mapsto> SLocal]" "sv_establishments ex_svc = Map.empty" "sv_sessNext ex_svc = 0"
  "sv_estNext ex_svc = 0" "sv_timers ex_svc = NewTimerHeap sorted_list_heap 0 ex_store"
  "sv_state ex_svc = stateInit" "hc_Token (cfg_Handshake (sv_cfg ex_svc)) = ''t''"
  "sc_TickInterval (cfg_Session (sv_cfg ex_svc)) = 20"
  using CreateService_state [OF ex_svc_created]
  by (simp_all add: ex_svc_cfg ex_service_config_def ex_session_config_def session_config_filled_def or_default_def)

lemma ex_sys_reachable: "reachable heap_env heap_tok th_room ex_sys"
proof -
  let ?S0 = "\<lparr>sys_svc = ex_svc, sys_th = Map.empty\<rparr> :: (ex_queue, ex_timers) system"
  let ?S1 = "?S0\<lparr>sys_svc := ex_svc\<lparr>sv_listener := Some True, sv_state := stateStarted\<rparr>\<rparr>"
  have "heap_tok (NewTimerHeap sorted_list_heap 0 ex_store)" by (rule slh.th_inv_new)
  moreover have "3 \<le> sc_ReadWriteTimeout (cfg_Session ex_service_config)"
    "sc_ReadWriteTimeout (cfg_Session ex_service_config) < 2 ^ 62"
    by (simp_all add: ex_service_config_def ex_session_config_def)
  ultimately have init: "sys_init heap_tok ?S0"
    unfolding sys_init_def system.select_convs using ex_svc_created by blast
  have s1: "sys_step heap_env heap_tok th_room ?S0 ?S1"
    by (rule sys_step.Start_called [where listenErr = None and e = None])
      (simp add: service_Start_def service_lockState_def ex_svc_fields Let_def)
  have same: "?S1\<lparr>sys_th := (sys_th ?S1)(0 \<mapsto> (''b'', C_Enter))\<rparr> = ex_sys" by (simp add: ex_sys_def)
  have "sys_step heap_env heap_tok th_room ?S1 (?S1\<lparr>sys_th := (sys_th ?S1)(0 \<mapsto> (''b'', C_Enter))\<rparr>)"
    by (rule sys_step.Connect_called) simp
  then have s2: "sys_step heap_env heap_tok th_room ?S1 ex_sys" unfolding same .
  have "(sys_step heap_env heap_tok th_room)\<^sup>*\<^sup>* ?S0 ex_sys"
    by (rule rtranclp.rtrancl_into_rtrancl [OF r_into_rtranclp [where r = "sys_step heap_env heap_tok th_room", OF s1] s2])
  with init show ?thesis unfolding reachable_def by blast
qed

end
