(* ===== verification/System_Properties.thy ===== *)
theory System_Properties
  imports Establish_Run
begin

text \<open>
  What holds in every reachable state of a service, whatever calls, connections, packets, ticks
  and closes are interleaved.
\<close>

section \<open>Goroutines that can go on\<close>

lemma obind_Blocked [simp]:
  "(obind m f = Blocked) = (m = Blocked \<or> (\<exists>x. m = Normal x \<and> f x = Blocked))"
  by (cases m) auto

lemma not_Blocked [simp]:
  "em_end r e es \<noteq> Blocked" "service_lockState need w \<noteq> Blocked" "session_checkState need s \<noteq> Blocked"
  by (simp_all add: em_end_def service_lockState_def session_checkState_def Let_def split: prod.splits)

lemma lockState_Blocked [simp]: "(session_lockState need s = Blocked) = ss_wlocked s"
  by (auto simp: session_lockState_def split: option.splits)

lemma establishEndFailed_not_Blocked [simp]: "establishEndFailed err e w \<noteq> Blocked"
  by (simp add: establishEndFailed_def Let_def)

lemma getSession_not_Blocked [simp]:
  "service_getSession now n w \<noteq> Blocked" "service_GetSession now n w \<noteq> Blocked"
  by (auto simp: service_getSession_def service_GetSession_def sref_keepActive_def session_keepActive_def
      split: option.splits sref.splits)

lemma end_enter_not_Blocked [simp]: "establishEnd_enter r e w \<noteq> Blocked"
  by (auto simp: establishEnd_enter_def Let_def split: option.splits)

text \<open>The establishment a goroutine is concerned with.\<close>

fun in_hold :: "hold \<Rightarrow> nat option" where
  "in_hold HNone = None"
| "in_hold (HWait e) = None"
| "in_hold (HStart e) = Some e"
| "in_hold (HA e _ _ _) = Some e"
| "in_hold (HP e _) = Some e"
| "in_hold (HE e _ _) = Some e"
| "in_hold (HFin e _) = Some e"

fun returned :: "pc \<Rightarrow> bool" where
  "returned (C_Done _ _) = True"
| "returned P_Done = True"
| "returned _ = False"

text \<open>Goroutine \<open>t\<close> can make a step.\<close>

definition can_go :: "('q, 't) svc_env \<Rightarrow> ('q, 't) system \<Rightarrow> nat \<Rightarrow> bool" where
  "can_go E S t \<longleftrightarrow> (\<exists>me pc now ans r. sys_th S t = Some (me, pc) \<and> sane_clock now \<and>
     thread_step E now False ans me pc (sys_svc S) = Normal r)"

text \<open>Whoever works for an establishment: it drives a direction or makes the session.\<close>

definition works_on :: "nat \<Rightarrow> pc \<Rightarrow> bool" where
  "works_on e pc \<longleftrightarrow> isA e (hold_of pc) \<or> isP e (hold_of pc) \<or> isE e (hold_of pc)"

lemmas step_defs = Connect_enter_def Connect_obtain_def Connect_wait_def em_wait_def startActiveEstablish_def
  onPassiveConn_read_def onPassiveConn_obtain_def startPassiveEstablish_def onPassiveConn_wait_def
  startActiveEstablish_end_def startPassiveEstablish_end_def establish_end_with_def
  activeEstablishSuccess_def activeEstablishFail_def passiveEstablishSuccess_def passiveEstablishFail_def
  startActiveEstablish_check_def startPassiveEstablish_check_def activeEstablishConnect_def
  activeEstablishHandshake_begin_def activeEstablishHandshake_apply_def activeEstablishHandshake_resp_def
  activeEstablishAboutSuccess_begin_def activeEstablishAboutSuccess_write_def
  activeEstablishAboutSuccess_ack_def passiveEstablishHandshake_accept_def
  passiveEstablishHandshake_reply_def passiveEstablishHandshake_ack_def end_finish_def ecs_finish_def

text \<open>What the environment can always answer: the network fails, \<open>core.Start\<close> succeeds.\<close>

fun an_answer :: "pc \<Rightarrow> answer" where
  "an_answer (E_Create _ _ _ _) = CoreStart None"
| "an_answer _ = IoErr"

context svc_timers
begin

lemma close_not_Blocked:
  assumes "svc_ok tok w" and "svc_state_ok w" and "i < sv_sessNext w"
  shows "session_close E now err i w \<noteq> Blocked"
  using close_step [OF assms, of now err False] by (metis outcome.distinct(3) session_close_def)

lemma commit_not_Blocked:
  assumes inv: "ainv (abs_svc w th)" and ok: "svc_ok tok w" and i: "i < sv_sessNext w"
  shows "ecs_commit E now e i w \<noteq> Blocked"
proof -
  let ?w = "sess_update i session_unlockState w"
  have "session_wf (sv_sess w i)" using ok i by (simp add: svc_ok_def)
  then have "svc_ok tok ?w" "svc_state_ok ?w" "i < sv_sessNext ?w"
    using svc_ok_sess [OF ok, of "session_unlockState (sv_sess w i)" i] svc_state_okI [OF inv] i
    by (simp_all add: sess_update_def session_simps svc_state_ok_def)
  from close_not_Blocked [OF this] show ?thesis by (auto simp: ecs_commit_def Let_def split: option.splits)
qed

lemma create_not_Blocked:
  assumes inv: "ainv (abs_svc w th)" and ok: "svc_ok tok w" and now: "sane_clock now"
    and room: "room (sv_timers w)"
  shows "ecs_start E now None c a e w \<noteq> Blocked"
proof -
  have free: "sv_sessions w n \<noteq> Some (SRemote (sv_sessNext w))" for n
    using map_sids [OF inv, of n] by blast
  obtain w' where "session_start E now None (sv_sessNext w)
      (w\<lparr>sv_sess := (sv_sess w)(sv_sessNext w := newSession (env_Q E) (cfg_Session (sv_cfg w))
         (em_remoteNodeId (sv_est w e)) a c), sv_sessNext := Suc (sv_sessNext w)\<rparr>) = Normal (None, w')"
    using start_step [OF ok svc_state_okI [OF inv] now room free refl] by metis
  then show ?thesis by (simp add: ecs_start_def Let_def)
qed

text \<open>A goroutine that has not returned and does not wait for an end can go on, unless its
  establishment is locked by another one.\<close>

lemma step_not_Blocked:
  assumes inv: "ainv (abs_svc w th)" and ok: "svc_ok tok w" and t: "th t = hold_of pc"
    and lock: "\<And>e. in_hold (hold_of pc) = Some e \<Longrightarrow> \<not> em_locked (sv_est w e) \<or> isE e (hold_of pc)"
    and wait: "\<And>e. hold_of pc = HWait e \<Longrightarrow> em_chEnd (sv_est w e)" and "\<not> returned pc"
    and now: "sane_clock now" and room: "room (sv_timers w)"
  shows "thread_step E now False (an_answer pc) me pc w \<noteq> Blocked"
proof -
  have hold: "hold_ok (abs_svc w th) (hold_of pc)" using ainvD(1) [OF inv, of t] t by simp
  show ?thesis
  proof (cases pc)
    case (E_Create r d c a)
    then show ?thesis
      using create_not_Blocked [OF inv ok now room, of c a d]
      by (auto simp: end_create_def end_continue_def split: option.splits)
  next
    case (E_Check r d i)
    then show ?thesis
      using hold by (auto simp: end_continue_def ecs_check_def split: option.splits)
  next
    case (E_Commit r d i)
    then show ?thesis
      using hold commit_not_Blocked [OF inv ok, of i now d]
      by (auto simp: end_continue_def split: option.splits)
  qed (use lock wait assms(6) in \<open>simp_all add: step_defs Let_def case_prod_beta split: option.split\<close>)
qed

lemma can_goI:
  assumes "sys_ok tok S" and "sys_th S t = Some (me, pc)" and "room (sv_timers (sys_svc S))"
    and "\<And>e. in_hold (hold_of pc) = Some e \<Longrightarrow> \<not> em_locked (sv_est (sys_svc S) e) \<or> isE e (hold_of pc)"
    and "\<And>e. hold_of pc = HWait e \<Longrightarrow> em_chEnd (sv_est (sys_svc S) e)" and "\<not> returned pc"
  shows "can_go E S t"
proof -
  have inv: "ainv (abs_svc (sys_svc S) (holds_of (sys_th S)))" and ok: "svc_ok tok (sys_svc S)"
    and t: "holds_of (sys_th S) t = hold_of pc"
    using assms(1,2) by (simp_all add: sys_ok_def abs_sys_def holds_of_def)
  have clock: "sane_clock 0" by (simp add: sane_clock_def)
  have "thread_step E 0 False (an_answer pc) me pc (sys_svc S) \<noteq> Blocked"
    by (rule step_not_Blocked [OF inv ok t assms(4-6) clock assms(3)])
  moreover have "\<not> is_panic (thread_step E 0 False (an_answer pc) me pc (sys_svc S))"
    using sim_thread [OF inv ok t clock assms(3), of False "an_answer pc" me]
    by (simp add: sim_ok_def split: outcome.splits)
  ultimately obtain r where "thread_step E 0 False (an_answer pc) me pc (sys_svc S) = Normal r"
    by (cases "thread_step E 0 False (an_answer pc) me pc (sys_svc S)") auto
  then show ?thesis using assms(2) clock unfolding can_go_def by blast
qed

text \<open>An establishment somebody works on is worked on by somebody who can go on.\<close>

lemma worker_can_go:
  assumes ok: "sys_ok tok S" and room: "room (sv_timers (sys_svc S))"
    and h: "isA e (x_th (abs_sys S) t) \<or> isP e (x_th (abs_sys S) t) \<or> isE e (x_th (abs_sys S) t) \<or>
      known (abs_sys S) e \<and> x_lock (abs_sys S) e"
  obtains t' me pc where "sys_th S t' = Some (me, pc)" "works_on e pc" "can_go E S t'"
proof -
  have inv: "ainv (abs_sys S)" using ok by (simp add: sys_ok_def)
  have "known (abs_sys S) e"
    using h ainvD(1) [OF inv, of t] by (cases "x_th (abs_sys S) t") auto
  then obtain t' where t': "isA e (x_th (abs_sys S) t') \<or> isP e (x_th (abs_sys S) t') \<or> isE e (x_th (abs_sys S) t')"
    and free: "\<not> x_lock (abs_sys S) e \<or> isE e (x_th (abs_sys S) t')"
    using h lock_has_holder [OF inv, of e] by blast
  have x: "x_th (abs_sys S) = holds_of (sys_th S)" "x_lock (abs_sys S) e = em_locked (sv_est (sys_svc S) e)"
    by (simp_all add: abs_sys_def)
  obtain me pc where pc: "sys_th S t' = Some (me, pc)"
    using t' unfolding x by (cases "sys_th S t'") (auto simp: holds_of_def)
  have hold: "holds_of (sys_th S) t' = hold_of pc" using pc by (simp add: holds_of_def)
  have works: "works_on e pc" using t' hold by (simp add: works_on_def x)
  then have "in_hold (hold_of pc) = Some e" "\<And>d. hold_of pc \<noteq> HWait d" "\<not> returned pc"
    by (cases pc; simp add: works_on_def)+
  then have "can_go E S t'"
    using free hold by (intro can_goI [OF ok pc room]) (auto simp: x)
  then show thesis using pc works by (intro that)
qed

lemma nobody_stuck:
  assumes ok: "sys_ok tok S" and room: "room (sv_timers (sys_svc S))"
    and t: "sys_th S t = Some (me, pc)" and "\<not> returned pc"
  shows "can_go E S t \<or> (\<exists>t' me' pc' e. t' \<noteq> t \<and> sys_th S t' = Some (me', pc') \<and> works_on e pc' \<and> can_go E S t')"
proof (cases "can_go E S t")
  case stuck: False
  have inv: "ainv (abs_sys S)" using ok by (simp add: sys_ok_def)
  have hold: "x_th (abs_sys S) t = hold_of pc" using t by (simp add: abs_sys_def holds_of_def)
  have "\<exists>e t'. isA e (x_th (abs_sys S) t') \<or> isP e (x_th (abs_sys S) t') \<or> isE e (x_th (abs_sys S) t') \<or>
      known (abs_sys S) e \<and> x_lock (abs_sys S) e"
  proof (cases "\<exists>e. hold_of pc = HWait e \<and> \<not> em_chEnd (sv_est (sys_svc S) e)")
    case True
    then obtain e where e: "hold_of pc = HWait e" "\<not> em_chEnd (sv_est (sys_svc S) e)" by blast
    have "known (abs_sys S) e" using ainvD(1) [OF inv, of t] hold e(1) by simp
    then have "\<not> x_end (abs_sys S) e" using e(2) by (simp add: known_def abs_sys_def em_ok_def)
    then show ?thesis using waits_for_somebody [OF inv, of t e] hold e(1) by metis
  next
    case False
    then obtain e where "in_hold (hold_of pc) = Some e" "em_locked (sv_est (sys_svc S) e)"
      using can_goI [OF ok t room _ _ assms(4)] stuck by blast
    moreover have "known (abs_sys S) e"
      using ainvD(1) [OF inv, of t] hold \<open>in_hold (hold_of pc) = Some e\<close> by (cases "hold_of pc") auto
    ultimately show ?thesis by (auto simp: abs_sys_def)
  qed
  then obtain e t' me' pc' where "sys_th S t' = Some (me', pc')" "works_on e pc'" "can_go E S t'"
    using worker_can_go [OF ok room] by metis
  moreover have "t' \<noteq> t" using stuck \<open>can_go E S t'\<close> by blast
  ultimately show ?thesis by blast
qed simp

end

section \<open>The environment's calls come to a result\<close>

lemma is_panic_Normal: "m = Normal x \<Longrightarrow> \<not> is_panic m"
  by simp

lemma checkState_no_panic:
  "session_wf s \<Longrightarrow> need \<in> {stateInit, stateStarted, stateClosed} \<Longrightarrow> \<not> is_panic (session_checkState need s)"
  by (simp add: checkState_wf)

lemma send_no_panic: "session_wf s \<Longrightarrow> \<not> is_panic (session_send Q cfg now po r s)"
  by (auto simp: session_send_def checkState_no_panic is_panic_obind split: option.splits)

lemma tick_no_panic: "session_wf s \<Longrightarrow> \<not> is_panic (session_tick Q cfg now s)"
  by (auto simp: session_tick_def checkState_no_panic is_panic_obind split: option.splits)

lemma lockState_no_panic: "session_wf s \<Longrightarrow> \<not> is_panic (session_lockState stateStarted s)"
  by (auto simp: session_lockState_def checkState_no_panic is_panic_obind split: option.splits)

lemma service_lockState_no_panic:
  "svc_state_ok w \<Longrightarrow> need \<in> {stateInit, stateStarted, stateClosed} \<Longrightarrow> \<not> is_panic (service_lockState need w)"
  by (simp add: lockState_ok)

context svc_timers
begin

lemma close_no_panic:
  assumes "svc_ok tok w" and "svc_state_ok w" and "i < sv_sessNext w"
  shows "\<not> is_panic (session_closeBaseLocked E now err l i w)"
  by (rule close_step [OF assms, of now err l]) (rule is_panic_Normal)

lemma packet_no_panic:
  assumes ok: "svc_ok tok w" and st: "svc_state_ok w" and i: "i < sv_sessNext w"
  shows "\<not> is_panic (SessionOnPacket E now handlerErr p i w)"
proof -
  have wf: "session_wf (sv_sess w i)" using ok i by (simp add: svc_ok_def)
  have "\<not> is_panic (session_closeBaseLocked E now err True i (sess_update i (\<lambda>_. s) w))"
    if "session_lockState stateStarted (sv_sess w i) = Normal (None, s)" for s err
  proof -
    have "s = (sv_sess w i)\<lparr>ss_wlocked := True\<rparr>"
      using that by (auto simp: session_lockState_def split: if_splits option.splits)
    then have "session_wf s" using wf by (simp add: session_simps)
    then show ?thesis
      using svc_ok_sess [OF ok, of s i] st i
      by (intro close_no_panic) (simp_all add: sess_update_def svc_state_ok_def)
  qed
  then show ?thesis
    using wf close_no_panic [OF ok st i]
    by (auto simp: SessionOnPacket_def sessionHandleHeartbeat_def sessionHandleCloseReq_def
        sessionHandleCloseResp_def session_close_def send_no_panic lockState_no_panic is_panic_obind
        Let_def split: packet.splits option.splits)
qed

lemma Close_no_panic:
  assumes inv: "ainv (abs_svc w th)" and ok: "svc_ok tok w"
  shows "\<not> is_panic (service_Close E now order w)"
proof (cases "sv_state w = stateStarted")
  case True
  let ?w = "w\<lparr>sv_state := stateClosed\<rparr>"
  let ?w1 = "?w\<lparr>sv_cClosed := True, sv_listener := map_option (\<lambda>_. False) (sv_listener w)\<rparr>"
  have open_: "\<not> sv_cClosed w" using inv True by (auto simp: ainv_def j_service_def state_simps)
  have "svc_ok tok ?w1" "svc_state_ok ?w1" "keys_ok (abs_svc ?w1 th)"
    using ok svc_state_okI [OF inv] keys_ok_inv [OF inv] by (simp_all add: svc_ok_def svc_state_ok_def keys_ok_def)
  then obtain w' where w': "sessionMap_close E now ErrServiceClosed order ?w1 = Normal w'"
    using sessionMap_close_step by blast
  have "(case sv_listener (?w\<lparr>sv_cClosed := True\<rparr>) of None \<Rightarrow> ?w\<lparr>sv_cClosed := True\<rparr>
      | Some _ \<Rightarrow> ?w\<lparr>sv_cClosed := True, sv_listener := Some False\<rparr>) = ?w1"
    by (cases "sv_listener w") auto
  then have "service_Close_rest E now order ?w = Normal w'"
    using open_ w' unfolding service_Close_rest_def Let_def by simp
  then show ?thesis
    using True lockState_ok [OF svc_state_okI [OF inv]] by (simp add: service_Close_def service_Close_mark_def)
next
  case False
  then show ?thesis
    using lockState_ok [OF svc_state_okI [OF inv]]
    by (auto simp: service_Close_def service_Close_mark_def)
qed

lemma loop_turn_no_panic:
  assumes inv: "ainv (abs_svc w th)" and ok: "svc_ok tok w"
  shows "\<not> is_panic (service_loop_turn E preferClosed now w)"
  using ok map_sids [OF inv]
  by (auto simp: service_loop_turn_def sref_tick_def sessionMap_get_def is_panic_obind Let_def svc_ok_def
      tick_no_panic split: option.splits sref.splits)

end

section \<open>Two states of the example\<close>

text \<open>Goroutine 0 dials node \<open>b\<close>, goroutine 1 waits for the result.\<close>

lemma ex_sys_svc:
  "sv_state (sys_svc ex_sys) = stateStarted" "sv_sessions (sys_svc ex_sys) = [''a'' \<mapsto> SLocal]"
  "sv_establishments (sys_svc ex_sys) = Map.empty" "sv_sessNext (sys_svc ex_sys) = 0"
  "sv_estNext (sys_svc ex_sys) = 0" "sv_timers (sys_svc ex_sys) = NewTimerHeap sorted_list_heap 0 ex_store"
  "sc_TickInterval (cfg_Session (sv_cfg (sys_svc ex_sys))) = 20"
  "hc_Token (cfg_Handshake (sv_cfg (sys_svc ex_sys))) = ''t''" "\<not> sv_cClosed (sys_svc ex_sys)"
  "sys_th ex_sys = [0 \<mapsto> (''b'', C_Enter)]"
  using CreateService_state(4) [OF ex_svc_created] by (simp_all add: ex_sys_def ex_svc_fields)

lemma ex_room: "th_room (NewTimerHeap sorted_list_heap 0 ex_store)"
  by (simp add: th_room_def NewTimerHeap_def)

lemma sane_clock_7: "sane_clock 7"
  by (simp add: sane_clock_def)

lemma reachable_run:
  assumes "reachable E tok room S" and "(sys_step E tok room)\<^sup>*\<^sup>* S S'"
  shows "reachable E tok room S'"
  using assms rtranclp_trans [of "sys_step E tok room"] unfolding reachable_def by blast


text \<open>Goroutine 0 has just made the session to node \<open>b\<close> when the service is closed.\<close>

lemma create_step:
  assumes "sv_state w = stateStarted" and "em_remoteNodeId (sv_est w e) = n"
    and "ts_StartTimer (env_T E) (word_of_int (sc_TickInterval (cfg_Session (sv_cfg w)))) True n now
           (sv_timers w) = Normal (tid, tm)"
  shows "\<exists>w'. thread_run E (map (Pair now) [CoreStart None]) n (E_Create ActiveSide e c a) w =
       Normal (E_Check ActiveSide e (sv_sessNext w), w') \<and>
     sv_sessions w' = sv_sessions w \<and> sv_sessNext w' = Suc (sv_sessNext w) \<and>
     ss_state (sv_sess w' (sv_sessNext w)) = stateStarted \<and> ss_remoteNodeId (sv_sess w' (sv_sessNext w)) = n \<and>
     sv_state w' = stateStarted \<and> sv_cClosed w' = sv_cClosed w \<and> sv_timers w' = tm \<and>
     sv_listener w' = sv_listener w \<and> sv_cTickSessions w' = sv_cTickSessions w"
  using assms
  by (simp add: run_defs svc_defs newSession_def refreshActiveTime_def Let_def state_simps)

lemma StartTimer_gen:
  assumes "ts_StartTimer (TimerHeap_ops H) d p a now th = Normal (tid, th')" and "th_room th"
  shows "th_timerIdGen th' = th_timerIdGen th + 1"
  using assms genTimerId_room(1) [OF assms(2)]
  by (auto simp: TimerHeap_ops_def StartTimer_def addTimer_def with_heap_def put_heap_def resetSysTimer_def
      stopSysTimer_def Let_def split: if_splits option.splits)

lemma ex_created:
  obtains S where "reachable heap_env heap_tok th_room S"
    "sys_th S 0 = Some (''b'', E_Check ActiveSide 0 0)" "sv_state (sys_svc S) = stateStarted"
    "sv_sessions (sys_svc S) = [''a'' \<mapsto> SLocal]" "sv_sessNext (sys_svc S) = 1" "\<not> sv_cClosed (sys_svc S)"
    "ss_state (sv_sess (sys_svc S) 0) = stateStarted" "ss_remoteNodeId (sv_sess (sys_svc S) 0) = ''b''"
    "th_room (sv_timers (sys_svc S))" "sv_listener (sys_svc S) = Some True" "sv_cTickSessions (sys_svc S) = []"
proof -
  let ?w = "sys_svc ex_sys"
  let ?w1 = "?w\<lparr>sv_est := (sv_est ?w)(sv_estNext ?w := active_in ''b'' establishConnect (sint (7 :: int64))),
      sv_estNext := Suc (sv_estNext ?w), sv_establishments := (sv_establishments ?w)(''b'' \<mapsto> sv_estNext ?w)\<rparr>"
  let ?w2 = "?w1\<lparr>sv_est := (sv_est ?w1)(sv_estNext ?w := (active_in ''b'' establishSuccess (sint (7 :: int64)))\<lparr>em_locked := True,
        em_active := Some \<lparr>ing_state = establishSuccess, ing_startTime = sint (7 :: int64), ing_conn = Some 5, ing_err = None\<rparr>\<rparr>),
      sv_sent := sv_sent ?w1 @ [(5, HSApply (cfg_NodeId (sv_cfg ?w1)) ''t'' (sint (7 :: int64))), (5, HSCompleted)]\<rparr>"
  have free: "sv_state ?w = stateStarted" "sv_sessions ?w ''b'' = None" "sv_establishments ?w ''b'' = None"
    by (simp_all add: ex_sys_svc)
  have room: "th_room (sv_timers ?w)" by (simp add: ex_sys_svc ex_room)
  have token: "''t'' = hc_Token (cfg_Handshake (sv_cfg ?w))" by (simp add: ex_sys_svc)
  have tok: "heap_tok (sv_timers ?w)" unfolding ex_sys_svc by (rule slh.th_inv_new)
  obtain tid tm where timer: "ts_StartTimer (env_T heap_env) (word_of_int (sc_TickInterval (cfg_Session (sv_cfg ?w))))
      True ''b'' 7 (sv_timers ?w) = Normal (tid, tm)"
    using heap_svc.start_total [OF tok sane_clock_7 sane_delay_of_int [of 20], of True "''b''"]
    unfolding ex_sys_svc by fastforce
  have "th_timerIdGen tm = 1"
    using StartTimer_gen [OF timer [unfolded heap_env_def svc_env.select_convs] room]
    by (simp add: ex_sys_svc NewTimerHeap_def)
  then have room': "th_room tm" by (simp add: th_room_def)
  have "sv_state ?w2 = stateStarted" "em_remoteNodeId (sv_est ?w2 (sv_estNext ?w)) = ''b''"
    "ts_StartTimer (env_T heap_env) (word_of_int (sc_TickInterval (cfg_Session (sv_cfg ?w2)))) True ''b'' 7
      (sv_timers ?w2) = Normal (tid, tm)"
    using timer by (simp_all add: ex_sys_svc active_in_def new_establishment_def)
  from create_step [OF this, of 5 True] obtain w' where
    r3: "thread_run heap_env (map (Pair 7) [CoreStart None]) ''b'' (E_Create ActiveSide (sv_estNext ?w) 5 True) ?w2 =
       Normal (E_Check ActiveSide (sv_estNext ?w) (sv_sessNext ?w2), w')"
    and w': "sv_sessions w' = sv_sessions ?w2" "sv_sessNext w' = Suc (sv_sessNext ?w2)"
     "ss_state (sv_sess w' (sv_sessNext ?w2)) = stateStarted" "ss_remoteNodeId (sv_sess w' (sv_sessNext ?w2)) = ''b''"
     "sv_state w' = stateStarted" "sv_cClosed w' = sv_cClosed ?w2" "sv_timers w' = tm"
     "sv_listener w' = sv_listener ?w2" "sv_cTickSessions w' = sv_cTickSessions ?w2"
    by metis
  let ?S = "ex_sys\<lparr>sys_svc := w', sys_th := (sys_th ex_sys)(0 \<mapsto> (''b'', E_Check ActiveSide (sv_estNext ?w) (sv_sessNext ?w2)))\<rparr>"
  have est: "sv_est ?w1 (sv_estNext ?w) = active_in ''b'' establishConnect (sint (7 :: int64))" by simp
  have token1: "''t'' = hc_Token (cfg_Handshake (sv_cfg ?w1))" by (simp add: ex_sys_svc)
  have "thread_run heap_env (map (Pair 7) ([Go, Go, Go, Go] @ [DialOk 5, Go, IoOk, Recv (HSAccepted ''b'' ''t''), Go,
      IoOk, Recv HSCompletedAck, Go] @ [CoreStart None])) ''b'' C_Enter ?w =
      Normal (E_Check ActiveSide (sv_estNext ?w) (sv_sessNext ?w2), w')"
    unfolding map_append thread_run_append Connect_to_dial [OF free] obind.simps prod.case
      dial_to_create [OF est token1] r3 ..
  then have "(sys_step heap_env heap_tok th_room)\<^sup>*\<^sup>* ex_sys ?S"
    using Connect_room(2) [where room = th_room, OF free sane_clock_7 room token]
    by (rule run_reaches) (simp add: ex_sys_svc)
  then have "reachable heap_env heap_tok th_room ?S" by (rule reachable_run [OF ex_sys_reachable])
  then show thesis
    by (rule that) (use w' room' CreateService_state(10) [OF ex_svc_created] in \<open>simp_all add: ex_sys_svc\<close>,
        simp_all add: ex_sys_def)
qed


section \<open>The local session\<close>


section \<open>Properties\<close>



text \<open>C13: nor does anything the service is called with from outside: \<open>Start\<close>, \<open>Close\<close>, \<open>GetSession\<close>,
  \<open>Send\<close>, a packet or the end of a connection on any session made, a tick, or a turn of the tick
  loop.\<close>

theorem calls_never_panic:
  assumes "timer_system (env_T E) tok room live" and "reachable E tok room S"
  shows "\<not> is_panic (service_Start listenErr (sys_svc S)) \<and>
    \<not> is_panic (service_Close E now order (sys_svc S)) \<and>
    \<not> is_panic (service_GetSession now n (sys_svc S)) \<and>
    \<not> is_panic (onSessionTicker preferClosed n (sys_svc S)) \<and>
    \<not> is_panic (service_loop_turn E preferClosed now (sys_svc S)) \<and>
    (\<forall>i < sv_sessNext (sys_svc S).
       \<not> is_panic (SessionOnPacket E now handlerErr p i (sys_svc S)) \<and>
       \<not> is_panic (SessionOnClosed E now err i (sys_svc S)) \<and>
       \<not> is_panic (sref_Send E now handlerErr b (SRemote i) (sys_svc S)))"
proof -
  have loc: "svc_timers E tok room live" unfolding svc_timers_def by (rule assms(1))
  have "sys_ok tok S" by (rule svc_timers.reachable_ok [OF loc assms(2)])
  then have inv: "ainv (abs_svc (sys_svc S) (holds_of (sys_th S)))" and ok: "svc_ok tok (sys_svc S)"
    by (simp_all add: sys_ok_def abs_sys_def)
  have st: "svc_state_ok (sys_svc S)" by (rule svc_state_okI [OF inv])
  obtain r w where "service_GetSession now n (sys_svc S) = Normal (r, w)"
    using GetSession_step [OF inv ok] by metis
  then show ?thesis
    using svc_timers.Close_no_panic [OF loc inv ok] svc_timers.loop_turn_no_panic [OF loc inv ok]
      svc_timers.packet_no_panic [OF loc ok st] svc_timers.close_no_panic [OF loc ok st]
      service_lockState_no_panic [OF st] ok
    by (auto simp: service_Start_def onSessionTicker_def SessionOnClosed_def session_close_def sref_Send_def
        session_Send_def svc_ok_def is_panic_obind send_no_panic Let_def split: option.splits)
qed

theorem calls_never_panic_witness:
  "\<exists>S. reachable heap_env heap_tok th_room S \<and> sv_sessNext (sys_svc S) = 1 \<and>
     \<not> is_panic (service_Close heap_env 7 [''a''] (sys_svc S)) \<and>
     \<not> is_panic (SessionOnPacket heap_env 7 None CloseReqPacket 0 (sys_svc S))"
proof -
  obtain S where S: "reachable heap_env heap_tok th_room S" "sv_sessNext (sys_svc S) = 1"
    by (rule ex_created)
  show ?thesis
    using calls_never_panic [OF heap_timers S(1), of None 7 "[''a'']" "[]" False None CloseReqPacket ErrSessionClosed "[]"] S
    by auto
qed

text \<open>C2: while the service runs there is at most one started session for every remote node, however
  many \<open>Connect\<close> calls and incoming connections race for it.\<close>

theorem one_started_session_per_node:
  assumes "timer_system (env_T E) tok room live" and "reachable E tok room S"
    and "sv_state (sys_svc S) = stateStarted"
    and "i < sv_sessNext (sys_svc S)" and "ss_state (sv_sess (sys_svc S) i) = stateStarted"
    and "j < sv_sessNext (sys_svc S)" and "ss_state (sv_sess (sys_svc S) j) = stateStarted"
    and "ss_remoteNodeId (sv_sess (sys_svc S) i) = ss_remoteNodeId (sv_sess (sys_svc S) j)"
  shows "i = j"
proof -
  have loc: "svc_timers E tok room live" unfolding svc_timers_def by (rule assms(1))
  have "ainv (abs_sys S)" using svc_timers.reachable_ok [OF loc assms(2)] by (simp add: sys_ok_def)
  moreover have "x_svc (abs_sys S) = stateStarted" "i < y_next (abs_sys S)" "y_st (abs_sys S) i = stateStarted"
    "j < y_next (abs_sys S)" "y_st (abs_sys S) j = stateStarted" "y_rid (abs_sys S) i = y_rid (abs_sys S) j"
    using assms(3-) by (simp_all add: abs_sys_def)
  ultimately show ?thesis by (rule one_session_per_node)
qed

theorem one_started_session_per_node_witness:
  "\<exists>S. reachable heap_env heap_tok th_room S \<and> ss_state (sv_sess (sys_svc S) 0) = stateStarted \<and>
     (\<forall>j < sv_sessNext (sys_svc S). ss_state (sv_sess (sys_svc S) j) = stateStarted \<longrightarrow>
        ss_remoteNodeId (sv_sess (sys_svc S) j) = ''b'' \<longrightarrow> 0 = j)"
proof -
  obtain S where S: "reachable heap_env heap_tok th_room S" "sv_state (sys_svc S) = stateStarted"
    "sv_sessNext (sys_svc S) = 1" "ss_state (sv_sess (sys_svc S) 0) = stateStarted"
    "ss_remoteNodeId (sv_sess (sys_svc S) 0) = ''b''"
    by (rule ex_created)
  have "0 < sv_sessNext (sys_svc S)" using S(3) by simp
  then show ?thesis
    using one_started_session_per_node [OF heap_timers S(1,2) _ S(4)] S(1,4,5) by metis
qed











end
