(* ===== verification/Session_IO.thy ===== *)
theory Session_IO
  imports Proto Config
begin

text \<open>
  The packet stream of a session (net/session_io.go): how packets are written through a batching
  buffer and read back through another one.

  The buffer (\<open>bytes.FixedBuffer\<close> of the gutils package), the connection behind \<open>gnet.ConnReader\<close>
  and \<open>gnet.ConnWriter\<close> and the clock are parameters: the operations of the record \<open>io_ops\<close>. The
  locale \<open>io_library\<close> of theory Session_IO_Correct states what the code relies on.
\<close>

section \<open>The buffer, the connection and the clock, parameters\<close>

text \<open>\<open>fb_Read n\<close> is \<open>Read(p)\<close> for a slice of length \<open>n\<close> and answers the bytes read, \<open>fb_Write bs\<close>
  answers how many of the bytes were taken. \<open>fb_ReadFrom\<close> and \<open>fb_WriteTo\<close> work on the connection,
  whose state is part of the environment \<open>'e\<close>, as the clock is.\<close>

record ('b, 'e) io_ops =
  fb_New :: "int \<Rightarrow> 'b"
  fb_Read :: "nat \<Rightarrow> 'b \<Rightarrow> (byte list \<times> gerror option) \<times> 'b"
  fb_Write :: "byte list \<Rightarrow> 'b \<Rightarrow> (nat \<times> gerror option) \<times> 'b"
  fb_Readable :: "'b \<Rightarrow> int"
  fb_ReadFrom :: "'b \<Rightarrow> 'e \<Rightarrow> gerror option \<times> 'b \<times> 'e"
  fb_WriteTo :: "'b \<Rightarrow> 'e \<Rightarrow> gerror option \<times> 'b \<times> 'e"
  cn_SetReadDeadline :: "int64 \<Rightarrow> 'e \<Rightarrow> gerror option \<times> 'e"
  cn_SetWriteDeadline :: "int64 \<Rightarrow> 'e \<Rightarrow> gerror option \<times> 'e"
  time_Now :: "'e \<Rightarrow> int64 \<times> 'e"

text \<open>\<open>io.EOF\<close> and \<open>buffer.ErrBufferFull\<close>, and \<open>errors.Is\<close>, which looks behind added messages.\<close>

definition io_EOF :: gerror where "io_EOF = ExtErr 0"
definition ErrBufferFull :: gerror where "ErrBufferFull = ExtErr 1"

fun errors_Is :: "gerror \<Rightarrow> gerror \<Rightarrow> bool" where
  "errors_Is target (WithMessage e m) = (WithMessage e m = target \<or> errors_Is target e)"
| "errors_Is target e = (e = target)"

section \<open>The reader and writer of a session\<close>

text \<open>A zero \<open>time.Time\<close> is \<open>None\<close>. \<open>rw_returned\<close> lists what \<open>Service.putBytes\<close> was called with.\<close>

record 'b packet_rw =
  rw_readBuffer :: 'b
  rw_writeBuffer :: 'b
  rw_batchWriteCount :: int
  rw_batchWriteStartTime :: "int64 option"
  rw_returned :: "byte list list"

definition newSessionPacketReadWriter :: "('b, 'e) io_ops \<Rightarrow> session_config \<Rightarrow> 'b packet_rw" where
  "newSessionPacketReadWriter ops sc = \<lparr>
     rw_readBuffer = fb_New ops (sc_ReadBufSize sc), rw_writeBuffer = fb_New ops (sc_WriteBufSize sc),
     rw_batchWriteCount = 0, rw_batchWriteStartTime = None, rw_returned = []\<rparr>"

subsection \<open>Reading\<close>

definition readToBuffer ::
    "('b, 'e) io_ops \<Rightarrow> session_config \<Rightarrow> 'b packet_rw \<Rightarrow> 'e \<Rightarrow> gerror option \<times> 'b packet_rw \<times> 'e" where
  "readToBuffer ops sc rw e =
     (let (now, e1) = time_Now ops e;
          (err, e2) = cn_SetReadDeadline ops (now + word_of_int (sc_ReadWriteTimeout sc)) e1
      in case err of Some x \<Rightarrow> (Some (WithMessage x ''set read deadline''), rw, e2)
         | None \<Rightarrow> (let (err', b, e3) = fb_ReadFrom ops (rw_readBuffer rw) e2
                    in (err', rw\<lparr>rw_readBuffer := b\<rparr>, e3)))"

text \<open>\<open>readFull\<close> for a slice of length \<open>n\<close> whose first bytes, \<open>got\<close>, have been filled; \<open>None\<close> when the
  loop does not end.\<close>

partial_function (option) readFull ::
    "('b, 'e) io_ops \<Rightarrow> session_config \<Rightarrow> nat \<Rightarrow> byte list \<Rightarrow> 'b packet_rw \<Rightarrow> 'e \<Rightarrow>
       ((gerror + byte list) \<times> 'b packet_rw \<times> 'e) option" where
  "readFull ops sc n got rw e =
     (if n = 0 then Some (Inr got, rw, e)
      else case fb_Read ops n (rw_readBuffer rw) of ((bs, err), b) \<Rightarrow>
        (let got1 = got @ bs; n1 = n - length bs; rw1 = rw\<lparr>rw_readBuffer := b\<rparr> in
         case err of None \<Rightarrow> readFull ops sc n1 got1 rw1 e
         | Some x \<Rightarrow>
             if errors_Is io_EOF x then
               (case readToBuffer ops sc rw1 e of (err2, rw2, e2) \<Rightarrow>
                  (case err2 of Some y \<Rightarrow> Some (Inl y, rw2, e2)
                   | None \<Rightarrow> readFull ops sc n1 got1 rw2 e2))
             else Some (Inl x, rw1, e)))"

text \<open>Adding a message to an error that was read, or going on.\<close>

definition on_read ::
    "string \<Rightarrow> ((gerror + byte list) \<times> 'b packet_rw \<times> 'e) option \<Rightarrow>
       (byte list \<Rightarrow> 'b packet_rw \<Rightarrow> 'e \<Rightarrow> ((gerror + packet) \<times> 'b packet_rw \<times> 'e) option) \<Rightarrow>
       ((gerror + packet) \<times> 'b packet_rw \<times> 'e) option" where
  "on_read msg r f =
     (case r of None \<Rightarrow> None
      | Some (Inl x, rw, e) \<Rightarrow> Some (Inl (WithMessage x msg), rw, e)
      | Some (Inr bs, rw, e) \<Rightarrow> f bs rw e)"

definition sessionReadPacketHeartbeat ::
    "('b, 'e) io_ops \<Rightarrow> session_config \<Rightarrow> uint32 \<Rightarrow> 'b packet_rw \<Rightarrow> 'e \<Rightarrow>
       ((gerror + packet) \<times> 'b packet_rw \<times> 'e) option" where
  "sessionReadPacketHeartbeat ops sc payloadLen rw e =
     (if payloadLen \<noteq> heartbeatPacketLength then
        Some (Inl (ErrText ''session read packet, heartbeat packet length %d wrong'' [uint payloadLen]), rw, e)
      else on_read ''session read heartbeat packet payload'' (readFull ops sc 1 [] rw e)
             (\<lambda>bs rw1 e1. Some (Inr (HeartbeatPacket (bs ! 0)), rw1, e1)))"

definition sessionReadPacketCloseReq ::
    "uint32 \<Rightarrow> 'b packet_rw \<Rightarrow> 'e \<Rightarrow> ((gerror + packet) \<times> 'b packet_rw \<times> 'e) option" where
  "sessionReadPacketCloseReq payloadLen rw e =
     (if payloadLen \<noteq> closeReqPacketLength then
        Some (Inl (ErrText ''session read packet, close req packet length %d wrong'' [uint payloadLen]), rw, e)
      else Some (Inr CloseReqPacket, rw, e))"

definition sessionReadPacketCloseResp ::
    "('b, 'e) io_ops \<Rightarrow> session_config \<Rightarrow> uint32 \<Rightarrow> 'b packet_rw \<Rightarrow> 'e \<Rightarrow>
       ((gerror + packet) \<times> 'b packet_rw \<times> 'e) option" where
  "sessionReadPacketCloseResp ops sc payloadLen rw e =
     (if payloadLen \<noteq> closeRespPacketLength then
        Some (Inl (ErrText ''session read packet, close resp packet length %d wrong'' [uint payloadLen]), rw, e)
      else on_read ''session read close resp packet payload'' (readFull ops sc 1 [] rw e)
             (\<lambda>bs rw1 e1. Some (Inr (CloseRespPacket (bs ! 0)), rw1, e1)))"

text \<open>The buffer for the body comes from \<open>Service.getBytes\<close> and has the length asked for.\<close>

definition sessionReadPacketRaw ::
    "('b, 'e) io_ops \<Rightarrow> session_config \<Rightarrow> uint32 \<Rightarrow> 'b packet_rw \<Rightarrow> 'e \<Rightarrow>
       ((gerror + packet) \<times> 'b packet_rw \<times> 'e) option" where
  "sessionReadPacketRaw ops sc payloadLen rw e =
     (if payloadLen > word_of_int (sc_MaxPacketLength sc) then
        Some (Inl (ErrText ''session read raw packet, packet length %d over limited'' [uint payloadLen]), rw, e)
      else on_read ''session read raw packet body'' (readFull ops sc (unat payloadLen) [] rw e)
             (\<lambda>bs rw1 e1. Some (Inr (RawPacket bs), rw1, e1)))"

definition SessionReadPacket ::
    "('b, 'e) io_ops \<Rightarrow> session_config \<Rightarrow> 'b packet_rw \<Rightarrow> 'e \<Rightarrow>
       ((gerror + packet) \<times> 'b packet_rw \<times> 'e) option" where
  "SessionReadPacket ops sc rw e =
     on_read ''session read packet head'' (readFull ops sc 6 [] rw e) (\<lambda>head rw1 e1.
       let pt = head_protoType head; payloadLen = head_payloadLen head in
       if pt = protoTypeHeartbeat then sessionReadPacketHeartbeat ops sc payloadLen rw1 e1
       else if pt = protoTypeCloseReq then sessionReadPacketCloseReq payloadLen rw1 e1
       else if pt = protoTypeCloseResp then sessionReadPacketCloseResp ops sc payloadLen rw1 e1
       else if pt = protoTypeRaw then sessionReadPacketRaw ops sc payloadLen rw1 e1
       else Some (Inl (ErrText ''session read packet, unknown proto-type %d'' [sint pt]), rw1, e1))"

subsection \<open>Writing\<close>

text \<open>The loop of \<open>writeFromBuffer\<close>, and the whole method.\<close>

partial_function (option) writeFromBuffer_loop ::
    "('b, 'e) io_ops \<Rightarrow> 'b packet_rw \<Rightarrow> 'e \<Rightarrow> (gerror option \<times> 'b packet_rw \<times> 'e) option" where
  "writeFromBuffer_loop ops rw e =
     (if fb_Readable ops (rw_writeBuffer rw) > 0 then
        (case fb_WriteTo ops (rw_writeBuffer rw) e of (err, b, e1) \<Rightarrow>
           (case err of Some x \<Rightarrow> Some (Some x, rw\<lparr>rw_writeBuffer := b\<rparr>, e1)
            | None \<Rightarrow> writeFromBuffer_loop ops (rw\<lparr>rw_writeBuffer := b\<rparr>) e1))
      else Some (None, rw, e))"

definition writeFromBuffer ::
    "('b, 'e) io_ops \<Rightarrow> session_config \<Rightarrow> 'b packet_rw \<Rightarrow> 'e \<Rightarrow>
       (gerror option \<times> 'b packet_rw \<times> 'e) option" where
  "writeFromBuffer ops sc rw e =
     (let (now, e1) = time_Now ops e;
          (err, e2) = cn_SetWriteDeadline ops (now + word_of_int (sc_ReadWriteTimeout sc)) e1
      in case err of Some x \<Rightarrow> Some (Some (WithMessage x ''set writeFull deadline''), rw, e2)
         | None \<Rightarrow> (case writeFromBuffer_loop ops rw e2 of None \<Rightarrow> None
             | Some (Some x, rw1, e3) \<Rightarrow> Some (Some x, rw1, e3)
             | Some (None, rw1, e3) \<Rightarrow>
                 Some (None, rw1\<lparr>rw_batchWriteCount := 0, rw_batchWriteStartTime := None\<rparr>, e3)))"

text \<open>\<open>time.Since\<close>; for a zero time the subtraction saturates at the largest duration.\<close>

definition time_Since :: "int64 \<Rightarrow> int64 option \<Rightarrow> int" where
  "time_Since now t = (case t of None \<Rightarrow> 2 ^ 63 - 1 | Some t0 \<Rightarrow> sint (now - t0))"

text \<open>Whether the batch has to be sent: the second condition, and with it the clock, is looked at
  only if the first does not hold.\<close>

definition batch_due ::
    "('b, 'e) io_ops \<Rightarrow> session_config \<Rightarrow> 'b packet_rw \<Rightarrow> 'e \<Rightarrow> bool \<times> 'e" where
  "batch_due ops sc rw e =
     (if rw_batchWriteCount rw \<ge> sc_BatchWriteLimit sc then (True, e)
      else let (now, e1) = time_Now ops e in
        (time_Since now (rw_batchWriteStartTime rw) \<ge> sc_BatchWriteTimeLmit sc, e1))"

partial_function (option) writeFull_loop ::
    "('b, 'e) io_ops \<Rightarrow> session_config \<Rightarrow> byte list \<Rightarrow> 'b packet_rw \<Rightarrow> 'e \<Rightarrow>
       (gerror option \<times> 'b packet_rw \<times> 'e) option" where
  "writeFull_loop ops sc p rw e =
     (if p = [] then Some (None, rw, e)
      else case fb_Write ops p (rw_writeBuffer rw) of ((n, err), b) \<Rightarrow>
        (let p1 = drop n p;
             rw1 = rw\<lparr>rw_writeBuffer := b\<rparr>;
             rw2 = (if n > 0 \<and> p1 = [] then rw1\<lparr>rw_batchWriteCount := rw_batchWriteCount rw1 + 1\<rparr> else rw1)
         in case err of
              Some x \<Rightarrow>
                if errors_Is ErrBufferFull x then
                  Option.bind (writeFromBuffer ops sc rw2 e) (\<lambda>(err2, rw3, e3).
                    case err2 of Some y \<Rightarrow> Some (Some y, rw3, e3) | None \<Rightarrow> writeFull_loop ops sc p1 rw3 e3)
                else Some (Some x, rw2, e)
            | None \<Rightarrow>
                (case batch_due ops sc rw2 e of (due, e2) \<Rightarrow>
                   if due then
                     Option.bind (writeFromBuffer ops sc rw2 e2) (\<lambda>(err2, rw3, e3).
                       case err2 of Some y \<Rightarrow> Some (Some y, rw3, e3) | None \<Rightarrow> writeFull_loop ops sc p1 rw3 e3)
                   else writeFull_loop ops sc p1 rw2 e2)))"

definition writeFull ::
    "('b, 'e) io_ops \<Rightarrow> session_config \<Rightarrow> byte list \<Rightarrow> 'b packet_rw \<Rightarrow> 'e \<Rightarrow>
       (gerror option \<times> 'b packet_rw \<times> 'e) option" where
  "writeFull ops sc p rw e =
     (case rw_batchWriteStartTime rw of
        None \<Rightarrow> (let (now, e1) = time_Now ops e
                 in writeFull_loop ops sc p (rw\<lparr>rw_batchWriteStartTime := Some now\<rparr>) e1)
      | Some _ \<Rightarrow> writeFull_loop ops sc p rw e)"

text \<open>A packet that is not one of this package is \<open>None\<close>. The deferred \<open>putBytes\<close> runs whatever
  happens after the checks.\<close>

definition SessionWritePacket_body ::
    "('b, 'e) io_ops \<Rightarrow> session_config \<Rightarrow> packet \<Rightarrow> bool \<Rightarrow> 'b packet_rw \<Rightarrow> 'e \<Rightarrow>
       (gerror option \<times> 'b packet_rw \<times> 'e) option" where
  "SessionWritePacket_body ops sc pp moreFollows rw e =
     (let payload = packet_Data pp; payloadLen = (word_of_nat (length payload) :: uint32) in
      Option.bind (writeFull ops sc (mk_head (packet_protoType pp) payload) rw e) (\<lambda>(err1, rw1, e1).
        case err1 of Some x \<Rightarrow> Some (Some (WithMessage x ''session writeFull packet head''), rw1, e1)
        | None \<Rightarrow>
            Option.bind (if payloadLen > 0 then writeFull ops sc payload rw1 e1 else Some (None, rw1, e1))
              (\<lambda>(err2, rw2, e2).
                case err2 of Some x \<Rightarrow> Some (Some (WithMessage x ''session writeFull packet payload''), rw2, e2)
                | None \<Rightarrow>
                    if \<not> moreFollows \<and> fb_Readable ops (rw_writeBuffer rw2) > 0 then
                      Option.bind (writeFromBuffer ops sc rw2 e2) (\<lambda>(err3, rw3, e3).
                        Some (map_option (\<lambda>x. WithMessage x ''session writeFull from buffer'') err3, rw3, e3))
                    else Some (None, rw2, e2))))"

definition SessionWritePacket ::
    "('b, 'e) io_ops \<Rightarrow> session_config \<Rightarrow> packet option \<Rightarrow> bool \<Rightarrow> 'b packet_rw \<Rightarrow> 'e \<Rightarrow>
       (gerror option \<times> 'b packet_rw \<times> 'e) option" where
  "SessionWritePacket ops sc p moreFollows rw e =
     (case p of None \<Rightarrow> Some (Some (ErrText ''session write packet, unknown packet type %T'' []), rw, e)
      | Some pp \<Rightarrow>
          if \<not> protoTypesForCommunicating (packet_protoType pp) then
            Some (Some (ErrText ''session write packet, unknown proto-type %d'' [sint (packet_protoType pp)]), rw, e)
          else Option.bind (SessionWritePacket_body ops sc pp moreFollows rw e) (\<lambda>(err, rw1, e1).
            Some (err, (case pp of RawPacket bs \<Rightarrow> rw1\<lparr>rw_returned := rw_returned rw1 @ [bs]\<rparr> | _ \<Rightarrow> rw1), e1)))"

end
