(* ===== verification/Session_IO_Correct.thy ===== *)
theory Session_IO_Correct
  imports Session_IO
begin

text \<open>
  Reading and writing packets is correct on every buffer and connection that keep their laws: the
  loops end, no byte is lost, doubled or put out of order, whatever is written is read back, and
  no more than the configured number of writes waits in the batch.
\<close>

section \<open>The laws\<close>

text \<open>\<open>fb_data\<close>: the bytes a buffer holds. \<open>in_stream\<close>: the bytes the connection will still deliver,
  \<open>out_stream\<close>: those it has taken.\<close>

locale io_library =
  fixes ops :: "('b, 'e) io_ops"
    and fb_ok :: "'b \<Rightarrow> bool"
    and fb_data :: "'b \<Rightarrow> byte list"
    and in_stream :: "'e \<Rightarrow> byte list"
    and out_stream :: "'e \<Rightarrow> byte list"
    and good :: "'e \<Rightarrow> bool"
  assumes buf_new: "0 < cap \<Longrightarrow> fb_ok (fb_New ops cap) \<and> fb_data (fb_New ops cap) = []"
    and buf_read: "fb_ok b \<Longrightarrow> 0 < n \<Longrightarrow> fb_Read ops n b = ((bs, err), b') \<Longrightarrow>
      fb_ok b' \<and> fb_data b = bs @ fb_data b' \<and> length bs \<le> n \<and>
      err = (if fb_data b = [] then Some io_EOF else None) \<and> (fb_data b \<noteq> [] \<longrightarrow> bs \<noteq> [])"
    and buf_write: "fb_ok b \<Longrightarrow> p \<noteq> [] \<Longrightarrow> fb_Write ops p b = ((k, err), b') \<Longrightarrow>
      fb_ok b' \<and> k \<le> length p \<and> fb_data b' = fb_data b @ take k p \<and>
      err = (if k < length p then Some ErrBufferFull else None) \<and> (fb_data b = [] \<longrightarrow> 0 < k)"
    and buf_readable: "fb_ok b \<Longrightarrow> fb_Readable ops b = int (length (fb_data b))"
    and read_from: "fb_ok b \<Longrightarrow> fb_ReadFrom ops b e = (err, b', e') \<Longrightarrow>
      fb_ok b' \<and> fb_data b' @ in_stream e' = fb_data b @ in_stream e \<and> out_stream e' = out_stream e \<and>
      (err = None \<longrightarrow> fb_data b = [] \<longrightarrow> fb_data b' \<noteq> []) \<and>
      (good e \<longrightarrow> good e' \<and> (in_stream e \<noteq> [] \<longrightarrow> err = None))"
    and write_to: "fb_ok b \<Longrightarrow> fb_WriteTo ops b e = (err, b', e') \<Longrightarrow>
      fb_ok b' \<and> out_stream e' @ fb_data b' = out_stream e @ fb_data b \<and> in_stream e' = in_stream e \<and>
      (err = None \<longrightarrow> fb_data b \<noteq> [] \<longrightarrow> length (fb_data b') < length (fb_data b)) \<and>
      (good e \<longrightarrow> good e' \<and> err = None)"
    and read_deadline: "cn_SetReadDeadline ops t e = (err, e') \<Longrightarrow>
      in_stream e' = in_stream e \<and> out_stream e' = out_stream e \<and> (good e \<longrightarrow> good e' \<and> err = None)"
    and write_deadline: "cn_SetWriteDeadline ops t e = (err, e') \<Longrightarrow>
      in_stream e' = in_stream e \<and> out_stream e' = out_stream e \<and> (good e \<longrightarrow> good e' \<and> err = None)"
    and clock: "time_Now ops e = (t, e') \<Longrightarrow>
      in_stream e' = in_stream e \<and> out_stream e' = out_stream e \<and> (good e \<longrightarrow> good e')"

section \<open>Reading\<close>

text \<open>The bytes of a packet on the wire.\<close>

definition packet_bytes :: "packet \<Rightarrow> byte list" where
  "packet_bytes p = mk_head (packet_protoType p) (packet_Data p) @ packet_Data p"

lemma errors_Is_EOF [simp]: "errors_Is io_EOF io_EOF" "errors_Is ErrBufferFull ErrBufferFull"
  by (simp_all add: io_EOF_def ErrBufferFull_def)

context io_library
begin

text \<open>Nothing but the read buffer has changed.\<close>

definition read_frame :: "'b packet_rw \<Rightarrow> 'e \<Rightarrow> 'b packet_rw \<Rightarrow> 'e \<Rightarrow> bool" where
  "read_frame rw e rw' e' \<longleftrightarrow> fb_ok (rw_readBuffer rw') \<and>
     rw' = rw\<lparr>rw_readBuffer := rw_readBuffer rw'\<rparr> \<and> out_stream e' = out_stream e"

lemma read_frame_refl: "fb_ok (rw_readBuffer rw) \<Longrightarrow> read_frame rw e rw e"
  by (simp add: read_frame_def)

lemma read_frame_trans: "read_frame rw e rw1 e1 \<Longrightarrow> read_frame rw1 e1 rw2 e2 \<Longrightarrow> read_frame rw e rw2 e2"
  unfolding read_frame_def by (metis packet_rw.surjective packet_rw.update_convs(1) packet_rw.select_convs(1))

text \<open>All that is still to be read.\<close>

definition incoming :: "'b packet_rw \<Rightarrow> 'e \<Rightarrow> byte list" where
  "incoming rw e = fb_data (rw_readBuffer rw) @ in_stream e"

lemma readToBuffer_spec:
  assumes ok: "fb_ok (rw_readBuffer rw)" and r: "readToBuffer ops sc rw e = (err, rw', e')"
  shows "read_frame rw e rw' e' \<and> incoming rw' e' = incoming rw e \<and>
    (err = None \<longrightarrow> fb_data (rw_readBuffer rw) = [] \<longrightarrow> fb_data (rw_readBuffer rw') \<noteq> []) \<and>
    (good e \<longrightarrow> good e' \<and> (err \<noteq> None \<longrightarrow> in_stream e = []))"
proof -
  obtain now e1 where c: "time_Now ops e = (now, e1)" by (cases "time_Now ops e")
  obtain d e2 where dl: "cn_SetReadDeadline ops (now + word_of_int (sc_ReadWriteTimeout sc)) e1 = (d, e2)"
    by (cases "cn_SetReadDeadline ops (now + word_of_int (sc_ReadWriteTimeout sc)) e1")
  obtain x b e3 where rf: "fb_ReadFrom ops (rw_readBuffer rw) e2 = (x, b, e3)"
    by (cases "fb_ReadFrom ops (rw_readBuffer rw) e2") auto
  show ?thesis
    using r ok clock [OF c] read_deadline [OF dl] read_from [OF ok rf]
    by (cases d) (auto simp: readToBuffer_def c dl rf read_frame_def incoming_def)
qed

text \<open>What \<open>readFull\<close> comes to: an error, or the next \<open>n\<close> bytes.\<close>

definition read_result :: "nat \<Rightarrow> byte list \<Rightarrow> 'b packet_rw \<Rightarrow> 'e \<Rightarrow> (gerror + byte list) \<Rightarrow> 'b packet_rw \<Rightarrow> 'e \<Rightarrow> bool" where
  "read_result n got rw e r rw' e' \<longleftrightarrow> read_frame rw e rw' e' \<and>
     (\<exists>bs. incoming rw e = bs @ incoming rw' e' \<and>
       (case r of Inr res \<Rightarrow> res = got @ bs \<and> length bs = n | Inl _ \<Rightarrow> length bs < n)) \<and>
     (good e \<longrightarrow> good e' \<and> (isl r \<longrightarrow> incoming rw' e' = []))"

lemma read_result_step:
  assumes "read_frame rw e rw1 e1" and "incoming rw e = bs @ incoming rw1 e1" and "length bs \<le> n"
    and "good e \<longrightarrow> good e1" and "read_result (n - length bs) (got @ bs) rw1 e1 r rw' e'"
  shows "read_result n got rw e r rw' e'"
proof -
  obtain cs where cs: "incoming rw1 e1 = cs @ incoming rw' e'"
    "case r of Inr res \<Rightarrow> res = (got @ bs) @ cs \<and> length cs = n - length bs | Inl _ \<Rightarrow> length cs < n - length bs"
    and fr: "read_frame rw1 e1 rw' e'" and g: "good e1 \<longrightarrow> good e' \<and> (isl r \<longrightarrow> incoming rw' e' = [])"
    using assms(5) unfolding read_result_def by blast
  have "incoming rw e = (bs @ cs) @ incoming rw' e'" using assms(2) cs(1) by simp
  moreover have "case r of Inr res \<Rightarrow> res = got @ (bs @ cs) \<and> length (bs @ cs) = n | Inl _ \<Rightarrow> length (bs @ cs) < n"
    using cs(2) assms(3) by (auto split: sum.splits)
  ultimately show ?thesis
    unfolding read_result_def using read_frame_trans [OF assms(1) fr] assms(4) g by blast
qed

lemma readFull_spec:
  assumes "fb_ok (rw_readBuffer rw)"
  shows "\<exists>r rw' e'. readFull ops sc n got rw e = Some (r, rw', e') \<and> read_result n got rw e r rw' e'"
  using assms
proof (induction n arbitrary: got rw e rule: less_induct)
  case (less n)
  show ?case
  proof (cases "n = 0")
    case True
    then show ?thesis
      using read_frame_refl [OF less.prems]
      by (subst readFull.simps) (simp add: read_result_def)
  next
    case n: False
    have filled: "\<exists>r rw' e'. readFull ops sc n got rw e = Some (r, rw', e') \<and> read_result n got rw e r rw' e'"
      if ok: "fb_ok (rw_readBuffer rw)" and ne: "fb_data (rw_readBuffer rw) \<noteq> []" for rw e
    proof -
      obtain bs err b where rd: "fb_Read ops n (rw_readBuffer rw) = ((bs, err), b)"
        by (cases "fb_Read ops n (rw_readBuffer rw)") auto
      have l: "fb_ok b" "fb_data (rw_readBuffer rw) = bs @ fb_data b" "length bs \<le> n" "err = None" "bs \<noteq> []"
        using buf_read [OF ok _ rd] n ne by simp_all
      let ?rw1 = "rw\<lparr>rw_readBuffer := b\<rparr>"
      have "n - length bs < n" using l(5) n by (cases bs) auto
      from less.IH [OF this, of ?rw1 "got @ bs" e] l(1) obtain r rw' e' where
        r: "readFull ops sc (n - length bs) (got @ bs) ?rw1 e = Some (r, rw', e')"
          "read_result (n - length bs) (got @ bs) ?rw1 e r rw' e'"
        by auto
      have "readFull ops sc n got rw e = Some (r, rw', e')"
        using n r(1) l(4) by (subst readFull.simps) (simp add: rd)
      moreover have "read_result n got rw e r rw' e'"
        using r(2) l by (intro read_result_step [of rw e ?rw1 e bs]) (simp_all add: read_frame_def incoming_def)
      ultimately show ?thesis by blast
    qed
    show ?thesis
    proof (cases "fb_data (rw_readBuffer rw) = []")
      case True
      obtain bs err b where rd: "fb_Read ops n (rw_readBuffer rw) = ((bs, err), b)"
        by (cases "fb_Read ops n (rw_readBuffer rw)") auto
      have l: "fb_ok b" "bs = []" "fb_data b = []" "err = Some io_EOF"
        using buf_read [OF less.prems _ rd] n True by simp_all
      let ?rw1 = "rw\<lparr>rw_readBuffer := b\<rparr>"
      obtain err2 rw2 e2 where rb: "readToBuffer ops sc ?rw1 e = (err2, rw2, e2)"
        by (cases "readToBuffer ops sc ?rw1 e") auto
      have fr1: "read_frame rw e ?rw1 e" "incoming ?rw1 e = incoming rw e"
        using l True by (simp_all add: read_frame_def incoming_def)
      have fr2: "read_frame ?rw1 e rw2 e2" "incoming rw2 e2 = incoming ?rw1 e"
        "err2 = None \<longrightarrow> fb_data (rw_readBuffer rw2) \<noteq> []"
        "good e \<longrightarrow> good e2 \<and> (err2 \<noteq> None \<longrightarrow> in_stream e = [])"
        using readToBuffer_spec [OF _ rb] l(1,3) by simp_all
      note fr = read_frame_trans [OF fr1(1) fr2(1)]
      have step: "readFull ops sc n got rw e = (case err2 of Some y \<Rightarrow> Some (Inl y, rw2, e2)
          | None \<Rightarrow> readFull ops sc n got rw2 e2)"
        using n by (subst readFull.simps) (simp add: rd l(2,4) rb)
      show ?thesis
      proof (cases err2)
        case None
        have "fb_ok (rw_readBuffer rw2)" using fr by (simp add: read_frame_def)
        from filled [OF this] fr2(3) None obtain r rw' e' where
          r: "readFull ops sc n got rw2 e2 = Some (r, rw', e')" "read_result n got rw2 e2 r rw' e'"
          by blast
        have "read_result n got rw e r rw' e'"
          by (rule read_result_step [OF fr, of "[]"]) (use fr1(2) fr2(2,4) r(2) in simp_all)
        then show ?thesis using step None r(1) by simp
      next
        case (Some y)
        have "read_result n got rw e (Inl y) rw2 e2"
          using fr fr1(2) fr2(2,4) n Some l(3) by (simp add: read_result_def incoming_def)
        then show ?thesis using step Some by simp
      qed
    next
      case False
      show ?thesis by (rule filled [OF less.prems False])
    qed
  qed
qed

lemma readFull_exact:
  assumes "fb_ok (rw_readBuffer rw)" and "good e" and inc: "incoming rw e = bs @ rest"
  obtains rw' e' where "readFull ops sc (length bs) [] rw e = Some (Inr bs, rw', e')"
    "read_frame rw e rw' e'" "incoming rw' e' = rest" "good e'"
proof -
  obtain r rw' e' where r: "readFull ops sc (length bs) [] rw e = Some (r, rw', e')"
    "read_result (length bs) [] rw e r rw' e'"
    using readFull_spec [OF assms(1)] by blast
  then obtain cs where cs: "incoming rw e = cs @ incoming rw' e'"
    "case r of Inr res \<Rightarrow> res = [] @ cs \<and> length cs = length bs | Inl _ \<Rightarrow> length cs < length bs"
    and fr: "read_frame rw e rw' e'" and g: "good e'" "isl r \<longrightarrow> incoming rw' e' = []"
    using assms(2) unfolding read_result_def by blast
  show thesis
  proof (cases r)
    case (Inl y)
    then have "length (bs @ rest) < length bs" using cs g(2) inc by simp
    then show thesis by simp
  next
    case (Inr res)
    then have "cs = bs" "incoming rw' e' = rest" using cs inc by simp_all
    then show thesis using that r(1) fr g(1) cs(2) Inr by simp
  qed
qed

end

text \<open>A byte string that stands for a packet: the second byte of the head is not looked at.\<close>

definition wire_form :: "packet \<Rightarrow> byte list \<Rightarrow> bool" where
  "wire_form p bs \<longleftrightarrow> (\<exists>x. bs = packet_protoType p # x # bigEndian_bytes (word_of_nat (length (packet_Data p))) @ packet_Data p)"

lemma wire_form_bytes: "wire_form p (packet_bytes p)"
  by (auto simp: wire_form_def packet_bytes_def mk_head_eq)

context io_library
begin

text \<open>A packet that was read was on the wire, and was taken from it whole.\<close>

definition packet_result :: "session_config \<Rightarrow> 'b packet_rw \<Rightarrow> 'e \<Rightarrow> byte list \<Rightarrow> (gerror + packet) \<Rightarrow> 'b packet_rw \<Rightarrow> 'e \<Rightarrow> bool" where
  "packet_result sc rw e h r rw' e' \<longleftrightarrow> read_frame rw e rw' e' \<and>
     (\<exists>bs. incoming rw e = bs @ incoming rw' e' \<and>
       (\<forall>p. r = Inr p \<longrightarrow> wire_form p (h @ bs) \<and> length (packet_Data p) \<le> max 1 (nat (sc_MaxPacketLength sc))))"

lemma packet_result_error: "fb_ok (rw_readBuffer rw) \<Longrightarrow> packet_result sc rw e h (Inl x) rw e"
  by (simp add: packet_result_def read_frame_refl)

lemma on_read_result:
  assumes "fb_ok (rw_readBuffer rw)" 
    and f: "\<And>bs rw1 e1. length bs = n \<Longrightarrow> fb_ok (rw_readBuffer rw1) \<Longrightarrow>
      \<exists>r rw' e'. f bs rw1 e1 = Some (r, rw', e') \<and> packet_result sc rw1 e1 (h @ bs) r rw' e'"
  shows "\<exists>r rw' e'. on_read msg (readFull ops sc' n [] rw e) f = Some (r, rw', e') \<and> packet_result sc rw e h r rw' e'"
proof -
  obtain q rw1 e1 where q: "readFull ops sc' n [] rw e = Some (q, rw1, e1)" "read_result n [] rw e q rw1 e1"
    using readFull_spec [OF assms(1)] by blast
  then obtain cs where cs: "incoming rw e = cs @ incoming rw1 e1" "read_frame rw e rw1 e1"
    "case q of Inr res \<Rightarrow> res = [] @ cs \<and> length cs = n | Inl _ \<Rightarrow> length cs < n"
    unfolding read_result_def by blast
  show ?thesis
  proof (cases q)
    case (Inl y)
    then show ?thesis using q(1) cs(1,2) by (auto simp: on_read_def packet_result_def)
  next
    case (Inr res)
    then have res: "res = cs" "length cs = n" using cs(3) by simp_all
    obtain r rw' e' where r: "f cs rw1 e1 = Some (r, rw', e')" "packet_result sc rw1 e1 (h @ cs) r rw' e'"
      using f [OF res(2), of rw1 e1] cs(2) by (auto simp: read_frame_def)
    have "packet_result sc rw e h r rw' e'"
      using r(2) cs(1) read_frame_trans [OF cs(2)] unfolding packet_result_def by force
    then show ?thesis using q(1) Inr res(1) r(1) by (simp add: on_read_def)
  qed
qed

lemma SessionReadPacket_spec:
  assumes ok: "fb_ok (rw_readBuffer rw)"
    and max: "0 < sc_MaxPacketLength sc" "sc_MaxPacketLength sc < MaxInt32"
  shows "\<exists>r rw' e'. SessionReadPacket ops sc rw e = Some (r, rw', e') \<and> packet_result sc rw e [] r rw' e'"
  unfolding SessionReadPacket_def
proof (rule on_read_result [OF ok])
  fix h :: "byte list" and rw1 :: "'b packet_rw" and e1 :: 'e
  assume h: "length h = 6" and ok1: "fb_ok (rw_readBuffer rw1)"
  let ?n = "head_payloadLen h"
  obtain x where hd: "h = head_protoType h # x # bigEndian_bytes ?n" using head_form [OF h] by blast
  have one: "?n = 1 \<Longrightarrow> h = head_protoType h # x # bigEndian_bytes 1" using hd by simp
  have zero: "?n = 0 \<Longrightarrow> h = head_protoType h # x # bigEndian_bytes 0" using hd by simp
  have hb: "\<exists>r rw' e'. sessionReadPacketHeartbeat ops sc ?n rw1 e1 = Some (r, rw', e') \<and>
      packet_result sc rw1 e1 ([] @ h) r rw' e'" if "head_protoType h = protoTypeHeartbeat"
  proof (cases "?n = heartbeatPacketLength")
    case True
    have "\<exists>r rw' e'. on_read ''session read heartbeat packet payload'' (readFull ops sc 1 [] rw1 e1)
        (\<lambda>bs rw1 e1. Some (Inr (HeartbeatPacket (bs ! 0)), rw1, e1)) = Some (r, rw', e') \<and>
        packet_result sc rw1 e1 ([] @ h) r rw' e'"
      using one True that
      by (intro on_read_result [OF ok1])
        (auto simp: packet_result_def read_frame_refl wire_form_def heartbeatPacketLength_def length_Suc_conv)
    then show ?thesis using True by (simp add: sessionReadPacketHeartbeat_def)
  qed (simp add: sessionReadPacketHeartbeat_def packet_result_error ok1)
  have cr: "\<exists>r rw' e'. sessionReadPacketCloseResp ops sc ?n rw1 e1 = Some (r, rw', e') \<and>
      packet_result sc rw1 e1 ([] @ h) r rw' e'" if "head_protoType h = protoTypeCloseResp"
  proof (cases "?n = closeRespPacketLength")
    case True
    have "\<exists>r rw' e'. on_read ''session read close resp packet payload'' (readFull ops sc 1 [] rw1 e1)
        (\<lambda>bs rw1 e1. Some (Inr (CloseRespPacket (bs ! 0)), rw1, e1)) = Some (r, rw', e') \<and>
        packet_result sc rw1 e1 ([] @ h) r rw' e'"
      using one True that
      by (intro on_read_result [OF ok1])
        (auto simp: packet_result_def read_frame_refl wire_form_def closeRespPacketLength_def length_Suc_conv)
    then show ?thesis using True by (simp add: sessionReadPacketCloseResp_def)
  qed (simp add: sessionReadPacketCloseResp_def packet_result_error ok1)
  have cq: "\<exists>r rw' e'. sessionReadPacketCloseReq ?n rw1 e1 = Some (r, rw', e') \<and>
      packet_result sc rw1 e1 ([] @ h) r rw' e'" if "head_protoType h = protoTypeCloseReq"
    using zero that ok1
    by (auto simp: sessionReadPacketCloseReq_def packet_result_def read_frame_refl wire_form_def
        closeReqPacketLength_def)
  have raw: "\<exists>r rw' e'. sessionReadPacketRaw ops sc ?n rw1 e1 = Some (r, rw', e') \<and>
      packet_result sc rw1 e1 ([] @ h) r rw' e'" if "head_protoType h = protoTypeRaw"
  proof (cases "?n > word_of_int (sc_MaxPacketLength sc)")
    case False
    have "uint (word_of_int (sc_MaxPacketLength sc) :: uint32) = sc_MaxPacketLength sc"
      using max by (simp add: uint_word_of_int MaxInt32_def)
    moreover have "uint ?n \<le> uint (word_of_int (sc_MaxPacketLength sc) :: uint32)"
      using False by (simp only: not_less word_le_def)
    ultimately have le: "unat ?n \<le> nat (sc_MaxPacketLength sc)"
      unfolding unat_eq_nat_uint by (intro nat_mono) simp
    have "\<exists>r rw' e'. on_read ''session read raw packet body'' (readFull ops sc (unat ?n) [] rw1 e1)
        (\<lambda>bs rw1 e1. Some (Inr (RawPacket bs), rw1, e1)) = Some (r, rw', e') \<and>
        packet_result sc rw1 e1 ([] @ h) r rw' e'"
    proof (rule on_read_result [OF ok1])
      fix bs :: "byte list" and rw2 :: "'b packet_rw" and e2 :: 'e
      assume bs: "length bs = unat ?n" and ok2: "fb_ok (rw_readBuffer rw2)"
      have "(word_of_nat (length bs) :: uint32) = ?n" by (simp add: bs)
      then have "wire_form (RawPacket bs) (h @ bs)"
        using hd that unfolding wire_form_def
        by (metis append_Cons packet_Data.simps(4) packet_protoType.simps(4))
      then show "\<exists>r rw' e'. Some (Inr (RawPacket bs), rw2, e2) = Some (r, rw', e') \<and>
          packet_result sc rw2 e2 (([] @ h) @ bs) r rw' e'"
        using le bs ok2 by (simp add: packet_result_def read_frame_refl)
    qed
    then show ?thesis using False by (simp add: sessionReadPacketRaw_def)
  qed (simp add: sessionReadPacketRaw_def packet_result_error ok1)
  show "\<exists>r rw' e'. (let pt = head_protoType h; payloadLen = head_payloadLen h in
       if pt = protoTypeHeartbeat then sessionReadPacketHeartbeat ops sc payloadLen rw1 e1
       else if pt = protoTypeCloseReq then sessionReadPacketCloseReq payloadLen rw1 e1
       else if pt = protoTypeCloseResp then sessionReadPacketCloseResp ops sc payloadLen rw1 e1
       else if pt = protoTypeRaw then sessionReadPacketRaw ops sc payloadLen rw1 e1
       else Some (Inl (ErrText ''session read packet, unknown proto-type %d'' [sint pt]), rw1, e1)) =
      Some (r, rw', e') \<and> packet_result sc rw1 e1 ([] @ h) r rw' e'"
    unfolding Let_def using hb cr cq raw packet_result_error [OF ok1] by (simp split: if_split)
qed

text \<open>A packet that is on the wire is read.\<close>

lemma on_read_exact:
  assumes "fb_ok (rw_readBuffer rw)" "good e" "incoming rw e = bs @ rest" "n = length bs"
    and "\<And>rw1 e1. read_frame rw e rw1 e1 \<Longrightarrow> incoming rw1 e1 = rest \<Longrightarrow> good e1 \<Longrightarrow> P (f bs rw1 e1)"
  shows "P (on_read msg (readFull ops sc n [] rw e) f)"
  by (rule readFull_exact [OF assms(1-3), of sc]) (simp add: assms(4,5) on_read_def)

definition reads :: "packet \<Rightarrow> 'b packet_rw \<Rightarrow> 'e \<Rightarrow> byte list \<Rightarrow> ((gerror + packet) \<times> 'b packet_rw \<times> 'e) option \<Rightarrow> bool" where
  "reads p rw e rest res \<longleftrightarrow> (\<exists>rw' e'. res = Some (Inr p, rw', e') \<and> read_frame rw e rw' e' \<and>
     incoming rw' e' = rest \<and> good e')"

lemma reads_trans: "read_frame rw e rw1 e1 \<Longrightarrow> reads p rw1 e1 rest res \<Longrightarrow> reads p rw e rest res"
  unfolding reads_def using read_frame_trans by blast

lemma SessionReadPacket_exact:
  assumes ok: "fb_ok (rw_readBuffer rw)" and good: "good e"
    and inc: "incoming rw e = packet_bytes p @ rest"
    and max: "0 < sc_MaxPacketLength sc" "sc_MaxPacketLength sc < MaxInt32"
    and len: "int (length (packet_Data p)) \<le> sc_MaxPacketLength sc"
  shows "reads p rw e rest (SessionReadPacket ops sc rw e)"
  unfolding SessionReadPacket_def
proof (rule on_read_exact [where P = "reads p rw e rest", OF ok good])
  let ?h = "mk_head (packet_protoType p) (packet_Data p)"
  show "incoming rw e = ?h @ packet_Data p @ rest" using inc by (simp add: packet_bytes_def)
  show "6 = length ?h" by (simp add: head_simps)
  fix rw1 e1
  assume fr: "read_frame rw e rw1 e1" and inc1: "incoming rw1 e1 = packet_Data p @ rest" and good1: "good e1"
  have ok1: "fb_ok (rw_readBuffer rw1)" using fr by (simp add: read_frame_def)
  have small: "length (packet_Data p) < 2 ^ 32" using max len by (simp add: MaxInt32_def)
  note exact = on_read_exact [where P = "reads p rw e rest", OF ok1 good1 inc1]
  have done_: "reads p rw e rest (Some (Inr p, rw2, e2))"
    if "read_frame rw1 e1 rw2 e2" "incoming rw2 e2 = rest" "good e2" for rw2 e2
    using that read_frame_trans [OF fr] by (auto simp: reads_def)
  show "reads p rw e rest (let pt = head_protoType ?h; payloadLen = head_payloadLen ?h in
       if pt = protoTypeHeartbeat then sessionReadPacketHeartbeat ops sc payloadLen rw1 e1
       else if pt = protoTypeCloseReq then sessionReadPacketCloseReq payloadLen rw1 e1
       else if pt = protoTypeCloseResp then sessionReadPacketCloseResp ops sc payloadLen rw1 e1
       else if pt = protoTypeRaw then sessionReadPacketRaw ops sc payloadLen rw1 e1
       else Some (Inl (ErrText ''session read packet, unknown proto-type %d'' [sint pt]), rw1, e1))"
  proof (cases p)
    case (HeartbeatPacket b)
    have "reads p rw e rest (on_read ''session read heartbeat packet payload'' (readFull ops sc 1 [] rw1 e1)
        (\<lambda>bs rw1 e1. Some (Inr (HeartbeatPacket (bs ! 0)), rw1, e1)))"
      using done_ HeartbeatPacket by (intro exact) simp_all
    then show ?thesis
      using HeartbeatPacket
      by (simp add: head_simps sessionReadPacketHeartbeat_def heartbeatPacketLength_def)
  next
    case CloseReqPacket
    then show ?thesis
      using done_ [of rw1 e1] inc1 good1 read_frame_refl [OF ok1]
      by (simp add: head_simps sessionReadPacketCloseReq_def closeReqPacketLength_def pt_simps)
  next
    case (CloseRespPacket b)
    have "reads p rw e rest (on_read ''session read close resp packet payload'' (readFull ops sc 1 [] rw1 e1)
        (\<lambda>bs rw1 e1. Some (Inr (CloseRespPacket (bs ! 0)), rw1, e1)))"
      using done_ CloseRespPacket by (intro exact) simp_all
    then show ?thesis
      using CloseRespPacket
      by (simp add: head_simps sessionReadPacketCloseResp_def closeRespPacketLength_def pt_simps)
  next
    case (RawPacket bs)
    have "unat (head_payloadLen ?h) = length bs"
      using small RawPacket by (simp add: unat_payloadLen_mk_head)
    moreover have "\<not> head_payloadLen ?h > word_of_int (sc_MaxPacketLength sc)"
    proof -
      have "uint (word_of_int (sc_MaxPacketLength sc) :: uint32) = sc_MaxPacketLength sc"
        using max by (simp add: uint_word_of_int MaxInt32_def)
      moreover have "uint (head_payloadLen ?h) = int (length bs)"
        unfolding uint_nat \<open>unat (head_payloadLen ?h) = length bs\<close> ..
      ultimately show ?thesis using len RawPacket by (simp add: word_less_def)
    qed
    moreover have "reads p rw e rest (on_read ''session read raw packet body'' (readFull ops sc (length bs) [] rw1 e1)
        (\<lambda>bs rw1 e1. Some (Inr (RawPacket bs), rw1, e1)))"
      using done_ RawPacket by (intro exact) simp_all
    ultimately show ?thesis
      using RawPacket by (simp add: head_simps(2) sessionReadPacketRaw_def pt_simps Let_def)
  qed
qed

end

end
