(* ===== verification/Session_IO_Write.thy ===== *)
theory Session_IO_Write
  imports Session_IO_Correct "HOL-Library.Sublist"
begin

text \<open>
  Writing packets: the loops end, what is sent is what was written, in order, and it can be read
  back.
\<close>

section \<open>Flushing the buffer\<close>

context io_library
begin

text \<open>Nothing but the write buffer and the batch has changed.\<close>

definition write_frame :: "'b packet_rw \<Rightarrow> 'e \<Rightarrow> 'b packet_rw \<Rightarrow> 'e \<Rightarrow> bool" where
  "write_frame rw e rw' e' \<longleftrightarrow> fb_ok (rw_writeBuffer rw') \<and> rw_readBuffer rw' = rw_readBuffer rw \<and>
     rw_returned rw' = rw_returned rw \<and> in_stream e' = in_stream e"

lemma write_frame_refl: "fb_ok (rw_writeBuffer rw) \<Longrightarrow> write_frame rw e rw e"
  by (simp add: write_frame_def)

lemma write_frame_trans: "write_frame rw e rw1 e1 \<Longrightarrow> write_frame rw1 e1 rw2 e2 \<Longrightarrow> write_frame rw e rw2 e2"
  by (simp add: write_frame_def)

text \<open>All that has been written, sent or not.\<close>

definition outgoing :: "'b packet_rw \<Rightarrow> 'e \<Rightarrow> byte list" where
  "outgoing rw e = out_stream e @ fb_data (rw_writeBuffer rw)"

lemma writeFromBuffer_loop_spec:
  assumes "fb_ok (rw_writeBuffer rw)"
  shows "\<exists>err rw' e'. writeFromBuffer_loop ops rw e = Some (err, rw', e') \<and> write_frame rw e rw' e' \<and>
    outgoing rw' e' = outgoing rw e \<and> rw_batchWriteCount rw' = rw_batchWriteCount rw \<and>
    (err = None \<longrightarrow> fb_data (rw_writeBuffer rw') = []) \<and> (good e \<longrightarrow> good e' \<and> err = None)"
  using assms
proof (induction "length (fb_data (rw_writeBuffer rw))" arbitrary: rw e rule: less_induct)
  case less
  note ok = less.prems
  show ?case
  proof (cases "fb_data (rw_writeBuffer rw) = []")
    case True
    then show ?thesis
      using buf_readable [OF ok] write_frame_refl [OF ok]
      by (subst writeFromBuffer_loop.simps) simp
  next
    case False
    obtain err b e1 where wt: "fb_WriteTo ops (rw_writeBuffer rw) e = (err, b, e1)"
      by (cases "fb_WriteTo ops (rw_writeBuffer rw) e") auto
    let ?rw1 = "rw\<lparr>rw_writeBuffer := b\<rparr>"
    note l = write_to [OF ok wt]
    have step: "writeFromBuffer_loop ops rw e = (case err of Some x \<Rightarrow> Some (Some x, ?rw1, e1)
        | None \<Rightarrow> writeFromBuffer_loop ops ?rw1 e1)"
      using buf_readable [OF ok] False by (subst writeFromBuffer_loop.simps) (simp add: wt)
    have fr: "write_frame rw e ?rw1 e1" "outgoing ?rw1 e1 = outgoing rw e"
      using l by (simp_all add: write_frame_def outgoing_def)
    show ?thesis
    proof (cases err)
      case (Some x)
      then show ?thesis using step fr l by auto
    next
      case None
      have "length (fb_data (rw_writeBuffer ?rw1)) < length (fb_data (rw_writeBuffer rw))" "fb_ok (rw_writeBuffer ?rw1)"
        using l None False by simp_all
      from less.hyps [OF this, of e1] obtain err' rw' e' where
        "writeFromBuffer_loop ops ?rw1 e1 = Some (err', rw', e')" "write_frame ?rw1 e1 rw' e'"
        "outgoing rw' e' = outgoing ?rw1 e1" "rw_batchWriteCount rw' = rw_batchWriteCount ?rw1"
        "err' = None \<longrightarrow> fb_data (rw_writeBuffer rw') = []" "good e1 \<longrightarrow> good e' \<and> err' = None"
        by blast
      then show ?thesis using step None fr l write_frame_trans [OF fr(1)] by simp
    qed
  qed
qed

text \<open>What a flush comes to.\<close>

definition flush_result :: "'b packet_rw \<Rightarrow> 'e \<Rightarrow> gerror option \<Rightarrow> 'b packet_rw \<Rightarrow> 'e \<Rightarrow> bool" where
  "flush_result rw e err rw' e' \<longleftrightarrow> write_frame rw e rw' e' \<and> outgoing rw' e' = outgoing rw e \<and>
     (err = None \<longrightarrow> fb_data (rw_writeBuffer rw') = [] \<and> rw_batchWriteCount rw' = 0 \<and>
        rw_batchWriteStartTime rw' = None) \<and>
     (good e \<longrightarrow> good e' \<and> err = None)"

lemma writeFromBuffer_spec:
  assumes ok: "fb_ok (rw_writeBuffer rw)"
  shows "\<exists>err rw' e'. writeFromBuffer ops sc rw e = Some (err, rw', e') \<and> flush_result rw e err rw' e'"
proof -
  obtain now e1 where c: "time_Now ops e = (now, e1)" by (cases "time_Now ops e")
  obtain d e2 where dl: "cn_SetWriteDeadline ops (now + word_of_int (sc_ReadWriteTimeout sc)) e1 = (d, e2)"
    by (cases "cn_SetWriteDeadline ops (now + word_of_int (sc_ReadWriteTimeout sc)) e1")
  note l = clock [OF c] write_deadline [OF dl]
  show ?thesis
  proof (cases d)
    case (Some x)
    then show ?thesis
      using l ok by (auto simp: writeFromBuffer_def c dl flush_result_def write_frame_def outgoing_def)
  next
    case None
    obtain err rw' e' where r: "writeFromBuffer_loop ops rw e2 = Some (err, rw', e')" "write_frame rw e2 rw' e'"
      "outgoing rw' e' = outgoing rw e2" "err = None \<longrightarrow> fb_data (rw_writeBuffer rw') = []"
      "good e2 \<longrightarrow> good e' \<and> err = None"
      using writeFromBuffer_loop_spec [OF ok] by blast
    show ?thesis
    proof (cases err)
      case None
      then show ?thesis
        using \<open>d = None\<close> r l by (simp add: writeFromBuffer_def c dl flush_result_def write_frame_def outgoing_def)
    next
      case (Some x)
      then show ?thesis
        using \<open>d = None\<close> r l by (simp add: writeFromBuffer_def c dl flush_result_def write_frame_def outgoing_def)
    qed
  qed
qed

section \<open>Writing bytes\<close>

lemma batch_due_env:
  "batch_due ops sc rw e = (due, e') \<Longrightarrow> in_stream e' = in_stream e \<and> out_stream e' = out_stream e \<and>
     (good e \<longrightarrow> good e') \<and> (\<not> due \<longrightarrow> rw_batchWriteCount rw < sc_BatchWriteLimit sc)"
  using clock [of e] by (cases "time_Now ops e") (auto simp: batch_due_def split: if_splits)

text \<open>What writing \<open>p\<close> comes to: all of it has been written, or part of it and an error. At the end
  the batch is not full.\<close>

definition write_result ::
    "session_config \<Rightarrow> byte list \<Rightarrow> 'b packet_rw \<Rightarrow> 'e \<Rightarrow> gerror option \<Rightarrow> 'b packet_rw \<Rightarrow> 'e \<Rightarrow> bool" where
  "write_result sc p rw e err rw' e' \<longleftrightarrow> write_frame rw e rw' e' \<and>
     (\<exists>q. prefix q p \<and> outgoing rw' e' = outgoing rw e @ q \<and> (err = None \<longrightarrow> q = p)) \<and>
     (good e \<longrightarrow> good e' \<and> err = None) \<and>
     (err = None \<longrightarrow> p = [] \<and> rw_batchWriteCount rw' = rw_batchWriteCount rw \<or>
        rw_batchWriteCount rw' < max 1 (sc_BatchWriteLimit sc))"

lemma write_result_step:
  assumes "write_frame rw e rw1 e1" and "outgoing rw1 e1 = outgoing rw e @ take k p" and "k \<le> length p"
    and "good e \<longrightarrow> good e1" and "rw_batchWriteCount rw1 < max 1 (sc_BatchWriteLimit sc)"
    and "write_result sc (drop k p) rw1 e1 err rw' e'"
  shows "write_result sc p rw e err rw' e'"
proof -
  obtain q where q: "prefix q (drop k p)" "outgoing rw' e' = outgoing rw1 e1 @ q" "err = None \<longrightarrow> q = drop k p"
    using assms(6) unfolding write_result_def by blast
  have "prefix (take k p @ q) p"
    using q(1) unfolding prefix_def by (metis append.assoc append_take_drop_id)
  moreover have "outgoing rw' e' = outgoing rw e @ (take k p @ q)" using q(2) assms(2) by simp
  moreover have "err = None \<longrightarrow> take k p @ q = p" using q(3) by simp
  ultimately show ?thesis
    using assms(4-6) write_frame_trans [OF assms(1)] unfolding write_result_def by fastforce
qed

lemma write_result_error:
  assumes "write_frame rw e rw' e'" and "outgoing rw' e' = outgoing rw e @ take k p" and "\<not> good e"
  shows "write_result sc p rw e (Some x) rw' e'"
  using assms take_is_prefix [of k p] by (auto simp: write_result_def)

lemma writeFull_loop_spec:
  assumes "fb_ok (rw_writeBuffer rw)"
  shows "\<exists>err rw' e'. writeFull_loop ops sc p rw e = Some (err, rw', e') \<and> write_result sc p rw e err rw' e'"
  using assms
proof (induction "2 * length p + (if fb_data (rw_writeBuffer rw) = [] then 0 else 1)"
    arbitrary: p rw e rule: less_induct)
  case less
  note ok = less.prems
  show ?case
  proof (cases "p = []")
    case True
    then show ?thesis
      using write_frame_refl [OF ok] by (subst writeFull_loop.simps) (simp add: write_result_def)
  next
    case p: False
    obtain k err b where wr: "fb_Write ops p (rw_writeBuffer rw) = ((k, err), b)"
      by (cases "fb_Write ops p (rw_writeBuffer rw)") auto
    note l = buf_write [OF ok p wr]
    let ?rw1 = "rw\<lparr>rw_writeBuffer := b\<rparr>"
    let ?rw2 = "if k > 0 \<and> drop k p = [] then ?rw1\<lparr>rw_batchWriteCount := rw_batchWriteCount ?rw1 + 1\<rparr> else ?rw1"
    have fr: "write_frame rw e ?rw2 e" "outgoing ?rw2 e = outgoing rw e @ take k p" "fb_ok (rw_writeBuffer ?rw2)"
      using l by (simp_all add: write_frame_def outgoing_def)
    have flush: "\<exists>err rw' e'. Option.bind (writeFromBuffer ops sc ?rw2 e2) (\<lambda>(err2, rw3, e3).
          case err2 of Some y \<Rightarrow> Some (Some y, rw3, e3) | None \<Rightarrow> writeFull_loop ops sc (drop k p) rw3 e3) =
        Some (err, rw', e') \<and> write_result sc p rw e err rw' e'"
      if e2: "in_stream e2 = in_stream e" "out_stream e2 = out_stream e" "good e \<longrightarrow> good e2" for e2
    proof -
      obtain err2 rw3 e3 where f: "writeFromBuffer ops sc ?rw2 e2 = Some (err2, rw3, e3)"
        "flush_result ?rw2 e2 err2 rw3 e3"
        using writeFromBuffer_spec [OF fr(3)] by blast
      have fr3: "write_frame rw e rw3 e3" "outgoing rw3 e3 = outgoing rw e @ take k p"
        "good e \<longrightarrow> good e3 \<and> err2 = None"
        using f(2) e2 fr by (simp_all add: flush_result_def write_frame_def outgoing_def)
      show ?thesis
      proof (cases err2)
        case None
        then have d: "fb_data (rw_writeBuffer rw3) = []" "rw_batchWriteCount rw3 = 0" "fb_ok (rw_writeBuffer rw3)"
          using f(2) by (simp_all add: flush_result_def write_frame_def)
        have "2 * length (drop k p) + (if fb_data (rw_writeBuffer rw3) = [] then 0 else 1) <
            2 * length p + (if fb_data (rw_writeBuffer rw) = [] then 0 else 1)"
          using l p d(1) by (cases "k = 0") auto
        from less.hyps [OF this d(3)] obtain err' rw' e' where
          r: "writeFull_loop ops sc (drop k p) rw3 e3 = Some (err', rw', e')"
            "write_result sc (drop k p) rw3 e3 err' rw' e'"
          by blast
        have "write_result sc p rw e err' rw' e'"
          by (rule write_result_step [OF fr3(1,2) _ _ _ r(2)]) (use l fr3(3) d(2) in auto)
        then show ?thesis using f(1) None r(1) by simp
      next
        case (Some y)
        then have "write_result sc p rw e (Some y) rw3 e3"
          using fr3 by (intro write_result_error [of rw e rw3 e3 k]) auto
        then show ?thesis using f(1) Some by simp
      qed
    qed
    show ?thesis
    proof (cases "k < length p")
      case True
      have "writeFull_loop ops sc p rw e = Option.bind (writeFromBuffer ops sc ?rw2 e) (\<lambda>(err2, rw3, e3).
          case err2 of Some y \<Rightarrow> Some (Some y, rw3, e3) | None \<Rightarrow> writeFull_loop ops sc (drop k p) rw3 e3)"
        using p True l by (subst writeFull_loop.simps) (simp add: wr Let_def)
      then show ?thesis using flush [of e] by simp
    next
      case False
      then have k: "k = length p" "err = None" "drop k p = []" using l by simp_all
      obtain due e2 where bd: "batch_due ops sc ?rw2 e = (due, e2)" by (cases "batch_due ops sc ?rw2 e")
      note bl = batch_due_env [OF bd]
      have step: "writeFull_loop ops sc p rw e = (if due then Option.bind (writeFromBuffer ops sc ?rw2 e2) (\<lambda>(err2, rw3, e3).
          case err2 of Some y \<Rightarrow> Some (Some y, rw3, e3) | None \<Rightarrow> writeFull_loop ops sc (drop k p) rw3 e3)
          else writeFull_loop ops sc (drop k p) ?rw2 e2)"
        using p k bd by (subst writeFull_loop.simps) (simp add: wr Let_def cong: option.case_cong)
      show ?thesis
      proof (cases due)
        case True
        then show ?thesis using step flush [of e2] bl by simp
      next
        case False
        have done_: "writeFull_loop ops sc (drop k p) ?rw2 e2 = Some (None, ?rw2, e2)"
          using k by (subst writeFull_loop.simps) simp
        have "write_result sc p rw e None ?rw2 e2"
          using fr bl False k by (auto simp: write_result_def write_frame_def outgoing_def)
        then show ?thesis using step False done_ by simp
      qed
    qed
  qed
qed

lemma writeFull_spec:
  assumes "fb_ok (rw_writeBuffer rw)"
  shows "\<exists>err rw' e'. writeFull ops sc p rw e = Some (err, rw', e') \<and> write_result sc p rw e err rw' e'"
proof (cases "rw_batchWriteStartTime rw")
  case None
  obtain now e1 where c: "time_Now ops e = (now, e1)" by (cases "time_Now ops e")
  let ?rw1 = "rw\<lparr>rw_batchWriteStartTime := Some now\<rparr>"
  obtain err rw' e' where r: "writeFull_loop ops sc p ?rw1 e1 = Some (err, rw', e')"
    "write_result sc p ?rw1 e1 err rw' e'"
    using writeFull_loop_spec [of ?rw1 sc p e1] assms by auto
  have "write_result sc p rw e err rw' e'"
    using r(2) clock [OF c] by (auto simp: write_result_def write_frame_def outgoing_def)
  then show ?thesis using None r(1) by (simp add: writeFull_def c)
next
  case (Some t)
  then show ?thesis using writeFull_loop_spec [OF assms] by (simp add: writeFull_def)
qed

section \<open>Writing packets\<close>

text \<open>What a call of \<open>SessionWritePacket\<close> comes to: the bytes of the packet have been written, and
  sent unless more is to follow, or part of them and an error.\<close>

definition packet_written ::
    "session_config \<Rightarrow> packet \<Rightarrow> bool \<Rightarrow> 'b packet_rw \<Rightarrow> 'e \<Rightarrow> gerror option \<Rightarrow> 'b packet_rw \<Rightarrow> 'e \<Rightarrow> bool" where
  "packet_written sc p moreFollows rw e err rw' e' \<longleftrightarrow>
     fb_ok (rw_writeBuffer rw') \<and> rw_readBuffer rw' = rw_readBuffer rw \<and> in_stream e' = in_stream e \<and>
     (\<exists>q. prefix q (packet_bytes p) \<and> outgoing rw' e' = outgoing rw e @ q \<and> (err = None \<longrightarrow> q = packet_bytes p)) \<and>
     (good e \<longrightarrow> good e' \<and> err = None) \<and>
     (err = None \<longrightarrow> rw_batchWriteCount rw' < max 1 (sc_BatchWriteLimit sc)) \<and>
     (err = None \<longrightarrow> \<not> moreFollows \<longrightarrow> fb_data (rw_writeBuffer rw') = [])"

lemma write_result_seq:
  assumes "write_result sc p rw e None rw1 e1" and "write_result sc q rw1 e1 err rw' e'" and "p \<noteq> []"
  shows "write_result sc (p @ q) rw e err rw' e'"
proof -
  obtain r where r: "prefix r q" "outgoing rw' e' = outgoing rw1 e1 @ r" "err = None \<longrightarrow> r = q"
    using assms(2) unfolding write_result_def by blast
  have "outgoing rw1 e1 = outgoing rw e @ p" using assms(1) unfolding write_result_def by blast
  then have "prefix (p @ r) (p @ q) \<and> outgoing rw' e' = outgoing rw e @ (p @ r) \<and> (err = None \<longrightarrow> p @ r = p @ q)"
    using r by simp
  moreover have "write_frame rw e rw' e'"
    using assms(1,2) write_frame_trans unfolding write_result_def by blast
  ultimately show ?thesis using assms unfolding write_result_def by auto
qed

lemma SessionWritePacket_body_spec:
  assumes ok: "fb_ok (rw_writeBuffer rw)" and len: "length (packet_Data p) < 2 ^ 32"
  shows "\<exists>err rw' e'. SessionWritePacket_body ops sc p moreFollows rw e = Some (err, rw', e') \<and>
    packet_written sc p moreFollows rw e err rw' e' \<and> rw_returned rw' = rw_returned rw"
proof -
  let ?h = "mk_head (packet_protoType p) (packet_Data p)"
  have ne: "?h \<noteq> []" by (simp add: mk_head_eq)
  have pos: "((word_of_nat (length (packet_Data p)) :: uint32) > 0) = (packet_Data p \<noteq> [])"
    using len by (simp add: word_gt_0 unat_of_nat flip: unat_eq_zero)
  obtain err1 rw1 e1 where w1: "writeFull ops sc ?h rw e = Some (err1, rw1, e1)" "write_result sc ?h rw e err1 rw1 e1"
    using writeFull_spec [OF ok] by blast
  show ?thesis
  proof (cases err1)
    case (Some x)
    then have "packet_written sc p moreFollows rw e (Some (WithMessage x m)) rw1 e1 \<and> rw_returned rw1 = rw_returned rw" for m
      using w1(2) prefix_prefix [of _ ?h "packet_Data p"]
      unfolding write_result_def packet_written_def write_frame_def packet_bytes_def by fastforce
    then show ?thesis using w1(1) Some by (simp add: SessionWritePacket_body_def Let_def)
  next
    case None
    have ok1: "fb_ok (rw_writeBuffer rw1)" using w1(2) by (simp add: write_result_def write_frame_def)
    obtain err2 rw2 e2 where w2: "(if packet_Data p \<noteq> [] then writeFull ops sc (packet_Data p) rw1 e1
        else Some (None, rw1, e1)) = Some (err2, rw2, e2)" "write_result sc (packet_bytes p) rw e err2 rw2 e2"
    proof (cases "packet_Data p = []")
      case True
      then show thesis using that [of None rw1 e1] w1(2) None by (simp add: packet_bytes_def)
    next
      case False
      obtain err2 rw2 e2 where "writeFull ops sc (packet_Data p) rw1 e1 = Some (err2, rw2, e2)"
        "write_result sc (packet_Data p) rw1 e1 err2 rw2 e2"
        using writeFull_spec [OF ok1] by blast
      then show thesis
        using that False write_result_seq [OF _ _ ne] w1(2) None by (simp add: packet_bytes_def)
    qed
    have count: "err2 = None \<Longrightarrow> rw_batchWriteCount rw2 < max 1 (sc_BatchWriteLimit sc)"
      using w2(2) ne by (auto simp: write_result_def packet_bytes_def)
    have part: "packet_written sc p True rw e err2 rw2 e2" "rw_returned rw2 = rw_returned rw" "fb_ok (rw_writeBuffer rw2)"
      using w2(2) count by (auto simp: write_result_def packet_written_def write_frame_def)
    show ?thesis
    proof (cases err2)
      case (Some x)
      then have "packet_written sc p moreFollows rw e (Some (WithMessage x m)) rw2 e2" for m
        using part(1) unfolding packet_written_def by fastforce
      then show ?thesis using w1(1) w2(1) None Some part(2) by (simp add: SessionWritePacket_body_def Let_def pos)
    next
      case no_err: None
      have body: "SessionWritePacket_body ops sc p moreFollows rw e =
        (if \<not> moreFollows \<and> fb_Readable ops (rw_writeBuffer rw2) > 0 then
           Option.bind (writeFromBuffer ops sc rw2 e2) (\<lambda>(err3, rw3, e3).
             Some (map_option (\<lambda>x. WithMessage x ''session writeFull from buffer'') err3, rw3, e3))
         else Some (None, rw2, e2))"
        using w1(1) w2(1) None no_err by (simp add: SessionWritePacket_body_def Let_def pos)
      show ?thesis
      proof (cases "\<not> moreFollows \<and> fb_data (rw_writeBuffer rw2) \<noteq> []")
        case True
        obtain err3 rw3 e3 where f: "writeFromBuffer ops sc rw2 e2 = Some (err3, rw3, e3)"
          "flush_result rw2 e2 err3 rw3 e3"
          using writeFromBuffer_spec [OF part(3)] by blast
        have "packet_written sc p moreFollows rw e (map_option (\<lambda>x. WithMessage x m) err3) rw3 e3 \<and>
            rw_returned rw3 = rw_returned rw" for m
          using f(2) part(1,2) no_err unfolding packet_written_def flush_result_def write_frame_def by auto
        then show ?thesis using True body f(1) buf_readable [OF part(3)] by simp
      next
        case False
        then have "packet_written sc p moreFollows rw e None rw2 e2"
          using part(1) no_err by (auto simp: packet_written_def)
        then show ?thesis using False body part(2) buf_readable [OF part(3)] by auto
      qed
    qed
  qed
qed

lemma SessionWritePacket_spec:
  assumes ok: "fb_ok (rw_writeBuffer rw)" and len: "length (packet_Data p) < 2 ^ 32"
  shows "\<exists>err rw' e'. SessionWritePacket ops sc (Some p) moreFollows rw e = Some (err, rw', e') \<and>
    packet_written sc p moreFollows rw e err rw' e' \<and>
    rw_returned rw' = rw_returned rw @ (case p of RawPacket bs \<Rightarrow> [bs] | _ \<Rightarrow> [])"
proof -
  obtain err rw1 e1 where w: "SessionWritePacket_body ops sc p moreFollows rw e = Some (err, rw1, e1)"
    "packet_written sc p moreFollows rw e err rw1 e1" "rw_returned rw1 = rw_returned rw"
    using SessionWritePacket_body_spec [OF assms] by blast
  have "protoTypesForCommunicating (packet_protoType p)" by (cases p) (simp_all add: protoTypesForCommunicating_def)
  then show ?thesis
    using w by (cases p) (auto simp: SessionWritePacket_def packet_written_def outgoing_def)
qed

end

section \<open>Streams of packets\<close>

text \<open>What gnet does with the pending packets: one call for each, with the flag it was given.\<close>

fun write_packets ::
    "('b, 'e) io_ops \<Rightarrow> session_config \<Rightarrow> (packet \<times> bool) list \<Rightarrow> 'b packet_rw \<Rightarrow> 'e \<Rightarrow>
       (gerror option \<times> 'b packet_rw \<times> 'e) option" where
  "write_packets ops sc [] rw e = Some (None, rw, e)"
| "write_packets ops sc ((p, moreFollows) # ps) rw e =
     Option.bind (SessionWritePacket ops sc (Some p) moreFollows rw e) (\<lambda>(err, rw1, e1).
       case err of Some x \<Rightarrow> Some (Some x, rw1, e1) | None \<Rightarrow> write_packets ops sc ps rw1 e1)"

fun read_packets ::
    "('b, 'e) io_ops \<Rightarrow> session_config \<Rightarrow> nat \<Rightarrow> 'b packet_rw \<Rightarrow> 'e \<Rightarrow>
       ((gerror + packet list) \<times> 'b packet_rw \<times> 'e) option" where
  "read_packets ops sc 0 rw e = Some (Inr [], rw, e)"
| "read_packets ops sc (Suc n) rw e =
     Option.bind (SessionReadPacket ops sc rw e) (\<lambda>(r, rw1, e1).
       case r of Inl x \<Rightarrow> Some (Inl x, rw1, e1)
       | Inr p \<Rightarrow> Option.bind (read_packets ops sc n rw1 e1) (\<lambda>(r', rw2, e2).
           Some (map_sum id (\<lambda>ps. p # ps) r', rw2, e2)))"

context io_library
begin

lemma write_packets_spec:
  assumes "fb_ok (rw_writeBuffer rw)" and "good e" and "\<forall>(p, m)\<in>set ps. length (packet_Data p) < 2 ^ 32"
  shows "\<exists>rw' e'. write_packets ops sc ps rw e = Some (None, rw', e') \<and>
    outgoing rw' e' = outgoing rw e @ concat (map (packet_bytes \<circ> fst) ps) \<and>
    (ps \<noteq> [] \<longrightarrow> \<not> snd (last ps) \<longrightarrow> fb_data (rw_writeBuffer rw') = [])"
  using assms
proof (induction ps arbitrary: rw e)
  case (Cons a ps)
  obtain p m where a: "a = (p, m)" by (cases a)
  obtain err rw1 e1 where w: "SessionWritePacket ops sc (Some p) m rw e = Some (err, rw1, e1)"
    "packet_written sc p m rw e err rw1 e1"
    using SessionWritePacket_spec [OF Cons.prems(1), of p sc m e] Cons.prems(3) a by auto
  then have s: "err = None" "good e1" "outgoing rw1 e1 = outgoing rw e @ packet_bytes p" "fb_ok (rw_writeBuffer rw1)"
    "\<not> m \<longrightarrow> fb_data (rw_writeBuffer rw1) = []"
    using Cons.prems(2) unfolding packet_written_def by auto
  have len: "\<forall>(p, m)\<in>set ps. length (packet_Data p) < 2 ^ 32" using Cons.prems(3) by simp
  obtain rw' e' where r: "write_packets ops sc ps rw1 e1 = Some (None, rw', e')"
    "outgoing rw' e' = outgoing rw1 e1 @ concat (map (packet_bytes \<circ> fst) ps)"
    "ps \<noteq> [] \<longrightarrow> \<not> snd (last ps) \<longrightarrow> fb_data (rw_writeBuffer rw') = []"
    using Cons.IH [OF s(4,2) len] by blast
  show ?case
  proof (cases "ps = []")
    case True
    then show ?thesis using w(1) s a by (simp add: comp_def)
  next
    case False
    then show ?thesis using w(1) s(1,3) r a by (simp add: comp_def)
  qed
qed simp

lemma read_packets_spec:
  assumes "fb_ok (rw_readBuffer rw)" and "good e"
    and "0 < sc_MaxPacketLength sc" "sc_MaxPacketLength sc < MaxInt32"
    and "\<forall>p\<in>set ps. int (length (packet_Data p)) \<le> sc_MaxPacketLength sc"
    and "incoming rw e = concat (map packet_bytes ps) @ rest"
  shows "\<exists>rw' e'. read_packets ops sc (length ps) rw e = Some (Inr ps, rw', e') \<and> incoming rw' e' = rest"
  using assms
proof (induction ps arbitrary: rw e)
  case (Cons p ps)
  have "reads p rw e (concat (map packet_bytes ps) @ rest) (SessionReadPacket ops sc rw e)"
    using Cons.prems by (intro SessionReadPacket_exact) simp_all
  then obtain rw1 e1 where r: "SessionReadPacket ops sc rw e = Some (Inr p, rw1, e1)"
    "read_frame rw e rw1 e1" "incoming rw1 e1 = concat (map packet_bytes ps) @ rest" "good e1"
    unfolding reads_def by blast
  have "fb_ok (rw_readBuffer rw1)" using r(2) by (simp add: read_frame_def)
  from Cons.IH [OF this r(4) Cons.prems(3,4)] r(3) Cons.prems(5) obtain rw' e' where
    "read_packets ops sc (length ps) rw1 e1 = Some (Inr ps, rw', e')" "incoming rw' e' = rest"
    by auto
  then show ?case using r(1) by simp
qed simp

end

end
