(* ===== verification/Session_IO_Properties.thy ===== *)
theory Session_IO_Properties
  imports Session_IO_Write
begin

text \<open>
  The packet stream on a concrete buffer and connection, which keep all the laws, and the
  properties of reading and writing packets.
\<close>

section \<open>A bounded buffer and a connection in memory\<close>

text \<open>The buffer holds at most its capacity. The connection moves at most \<open>lc_chunk\<close> and one bytes
  at a time, and has nothing more to give once \<open>lc_in\<close> is empty.\<close>

record list_buffer =
  lb_cap :: nat
  lb_data :: "byte list"

record list_conn =
  lc_in :: "byte list"
  lc_out :: "byte list"
  lc_chunk :: nat
  lc_now :: int64

definition list_ops :: "(list_buffer, list_conn) io_ops" where
  "list_ops = \<lparr>
     fb_New = (\<lambda>cap. \<lparr>lb_cap = nat cap, lb_data = []\<rparr>),
     fb_Read = (\<lambda>n b. if lb_data b = [] then (([], Some io_EOF), b)
       else ((take n (lb_data b), None), b\<lparr>lb_data := drop n (lb_data b)\<rparr>)),
     fb_Write = (\<lambda>p b. let k = min (length p) (lb_cap b - length (lb_data b)) in
       ((k, if k < length p then Some ErrBufferFull else None), b\<lparr>lb_data := lb_data b @ take k p\<rparr>)),
     fb_Readable = (\<lambda>b. int (length (lb_data b))),
     fb_ReadFrom = (\<lambda>b e. if lc_in e = [] then (Some (ExtErr 2), b, e)
       else let k = min (Suc (lc_chunk e)) (lb_cap b - length (lb_data b)) in
         (None, b\<lparr>lb_data := lb_data b @ take k (lc_in e)\<rparr>, e\<lparr>lc_in := drop k (lc_in e)\<rparr>)),
     fb_WriteTo = (\<lambda>b e. (None, b\<lparr>lb_data := drop (Suc (lc_chunk e)) (lb_data b)\<rparr>,
       e\<lparr>lc_out := lc_out e @ take (Suc (lc_chunk e)) (lb_data b)\<rparr>)),
     cn_SetReadDeadline = (\<lambda>t e. (None, e)),
     cn_SetWriteDeadline = (\<lambda>t e. (None, e)),
     time_Now = (\<lambda>e. (lc_now e, e\<lparr>lc_now := lc_now e + 1\<rparr>))\<rparr>"

definition list_buffer_ok :: "list_buffer \<Rightarrow> bool" where
  "list_buffer_ok b \<longleftrightarrow> 0 < lb_cap b \<and> length (lb_data b) \<le> lb_cap b"

lemma list_ops_laws: "io_library list_ops list_buffer_ok lb_data lc_in lc_out (\<lambda>_. True)"
  by unfold_locales
    (auto simp: list_ops_def list_buffer_ok_def Let_def io_EOF_def ErrBufferFull_def split: if_splits)

interpretation list_io: io_library list_ops list_buffer_ok lb_data lc_in lc_out "\<lambda>_. True"
  by (rule list_ops_laws)

section \<open>Properties\<close>

context io_library
begin

lemma new_rw:
  assumes "session_config_ok sc"
  shows "fb_ok (rw_readBuffer (newSessionPacketReadWriter ops sc))"
    "fb_ok (rw_writeBuffer (newSessionPacketReadWriter ops sc))"
    "incoming (newSessionPacketReadWriter ops sc) e = in_stream e"
    "outgoing (newSessionPacketReadWriter ops sc) e = out_stream e"
  using assms buf_new [of "sc_ReadBufSize sc"] buf_new [of "sc_WriteBufSize sc"]
  by (simp_all add: session_config_ok_def newSessionPacketReadWriter_def incoming_def outgoing_def)

lemma stream_roundtrip:
  assumes cfg: "session_config_ok scw" "session_config_ok scr" and good: "good e"
    and fits: "\<forall>p\<in>fst ` set ps. int (length (packet_Data p)) \<le> min (sc_MaxPacketLength scw) (sc_MaxPacketLength scr)"
    and last: "ps \<noteq> []" "\<not> snd (last ps)"
  shows "\<exists>rw' e'. write_packets ops scw ps (newSessionPacketReadWriter ops scw) e = Some (None, rw', e') \<and>
    out_stream e' = out_stream e @ concat (map (packet_bytes \<circ> fst) ps)"
    and "in_stream e2 = concat (map (packet_bytes \<circ> fst) ps) @ rest \<Longrightarrow> good e2 \<Longrightarrow>
      \<exists>rw' e'. read_packets ops scr (length ps) (newSessionPacketReadWriter ops scr) e2 =
        Some (Inr (map fst ps), rw', e') \<and> incoming rw' e' = rest"
proof -
  have small: "\<forall>(p, m)\<in>set ps. length (packet_Data p) < 2 ^ 32"
  proof (intro ballI, safe)
    fix p m assume "(p, m) \<in> set ps"
    then have "int (length (packet_Data p)) < 2 ^ 32"
      using fits cfg by (force simp: session_config_ok_def MaxInt32_def)
    then show "length (packet_Data p) < 2 ^ 32" by simp
  qed
  obtain rw' e' where w: "write_packets ops scw ps (newSessionPacketReadWriter ops scw) e = Some (None, rw', e')"
    "outgoing rw' e' = outgoing (newSessionPacketReadWriter ops scw) e @ concat (map (packet_bytes \<circ> fst) ps)"
    "fb_data (rw_writeBuffer rw') = []"
    using write_packets_spec [OF new_rw(2) [OF cfg(1)] good small, of scw] last by blast
  then show "\<exists>rw' e'. write_packets ops scw ps (newSessionPacketReadWriter ops scw) e = Some (None, rw', e') \<and>
      out_stream e' = out_stream e @ concat (map (packet_bytes \<circ> fst) ps)"
    using new_rw(4) [OF cfg(1)] by (auto simp: outgoing_def)
  assume e2: "in_stream e2 = concat (map (packet_bytes \<circ> fst) ps) @ rest" "good e2"
  have "\<forall>p\<in>set (map fst ps). int (length (packet_Data p)) \<le> sc_MaxPacketLength scr" using fits by force
  moreover have "0 < sc_MaxPacketLength scr" "sc_MaxPacketLength scr < MaxInt32"
    using cfg(2) by (simp_all add: session_config_ok_def)
  ultimately show "\<exists>rw' e'. read_packets ops scr (length ps) (newSessionPacketReadWriter ops scr) e2 =
      Some (Inr (map fst ps), rw', e') \<and> incoming rw' e' = rest"
    using read_packets_spec [OF new_rw(1) [OF cfg(2)] e2(2), of scr "map fst ps" rest] e2(1)
      new_rw(3) [OF cfg(2)] by (simp add: comp_def)
qed

end

text \<open>C9: Packets survive the stream. Two ends with validated configurations, whatever their buffer
  sizes, batch limits and clocks: every packet that fits both is written without error, and once
  the last one was written with nothing to follow, all bytes have been handed to the connection.
  The other end, reading from a connection that delivers these bytes in any pieces, gets the same
  packets in the same order, and no byte of what follows is consumed. Both loops end.\<close>

theorem packet_stream_roundtrip:
  assumes "io_library ops fb_ok fb_data in_stream out_stream good"
    and "session_config_ok scw" and "session_config_ok scr" and "good e" and "out_stream e = []"
    and "\<forall>p\<in>fst ` set ps. int (length (packet_Data p)) \<le> min (sc_MaxPacketLength scw) (sc_MaxPacketLength scr)"
    and "ps \<noteq> []" and "\<not> snd (last ps)"
  shows "\<exists>rw1 e1. write_packets ops scw ps (newSessionPacketReadWriter ops scw) e = Some (None, rw1, e1) \<and>
    (\<forall>e2 rest. good e2 \<longrightarrow> in_stream e2 = out_stream e1 @ rest \<longrightarrow>
      (\<exists>rw3 e3. read_packets ops scr (length ps) (newSessionPacketReadWriter ops scr) e2 =
         Some (Inr (map fst ps), rw3, e3) \<and> fb_data (rw_readBuffer rw3) @ in_stream e3 = rest))"
proof -
  note rt = io_library.stream_roundtrip [OF assms(1-4,6-8)]
  show ?thesis
    using rt(1) rt(2) assms(5) unfolding io_library.incoming_def [OF assms(1)] by fastforce
qed

text \<open>Three packets through a writer whose buffer of four bytes is smaller than a head, and back.\<close>

definition ex_small_config :: session_config where
  "ex_small_config = (session_config_filled ex_session_config)\<lparr>sc_WriteBufSize := 4, sc_ReadBufSize := 3\<rparr>"

definition ex_packets :: "(packet \<times> bool) list" where
  "ex_packets = [(RawPacket [1, 2, 3], True), (HeartbeatPacket 1, True), (RawPacket [], False)]"

definition ex_conn :: "byte list \<Rightarrow> list_conn" where
  "ex_conn bs = \<lparr>lc_in = bs, lc_out = [], lc_chunk = 1, lc_now = 5\<rparr>"

lemma ex_small_config_ok: "session_config_ok ex_small_config" "sc_MaxPacketLength ex_small_config = 1024"
  by (simp_all add: ex_small_config_def session_config_ok_def session_config_filled_def
      ex_session_config_def or_default_def MaxInt32_def)

theorem packet_stream_roundtrip_witness:
  "\<exists>rw1 e1. write_packets list_ops ex_small_config ex_packets
      (newSessionPacketReadWriter list_ops ex_small_config) (ex_conn []) = Some (None, rw1, e1) \<and>
    (\<exists>rw3 e3. read_packets list_ops ex_small_config 3
      (newSessionPacketReadWriter list_ops ex_small_config) (ex_conn (lc_out e1 @ [7])) =
        Some (Inr [RawPacket [1, 2, 3], HeartbeatPacket 1, RawPacket []], rw3, e3) \<and>
      lb_data (rw_readBuffer rw3) @ lc_in e3 = [7])"
proof -
  have ex: "lc_out (ex_conn []) = []" "lc_in (ex_conn bs) = bs" "length ex_packets = 3"
    "map fst ex_packets = [RawPacket [1, 2, 3], HeartbeatPacket 1, RawPacket []]"
    "ex_packets \<noteq> []" "\<not> snd (last ex_packets)"
    "\<forall>p\<in>fst ` set ex_packets. int (length (packet_Data p)) \<le> min 1024 1024" for bs
    by (simp_all add: ex_conn_def ex_packets_def)
  show ?thesis
    using packet_stream_roundtrip [OF list_ops_laws ex_small_config_ok(1,1) TrueI ex(1) _ ex(5,6)]
    unfolding ex_small_config_ok(2) ex(3,4) using ex(2,7) by blast
qed

text \<open>C24: Reading is total and honest. On any buffer contents and any connection that keeps the
  laws, also one that fails, \<open>SessionReadPacket\<close> returns. If it returns a packet, exactly the
  bytes of that packet were taken from the stream, head included, and its payload is within
  \<open>MaxPacketLength\<close> (one byte is always allowed for the control packets); an error leaves all
  bytes that were not looked at where they are.\<close>

theorem read_packet_total:
  assumes "io_library ops fb_ok fb_data in_stream out_stream good"
    and "fb_ok (rw_readBuffer rw)" and "session_config_ok sc"
  shows "\<exists>r rw' e' bs. SessionReadPacket ops sc rw e = Some (r, rw', e') \<and>
    fb_data (rw_readBuffer rw) @ in_stream e = bs @ fb_data (rw_readBuffer rw') @ in_stream e' \<and>
    rw' = rw\<lparr>rw_readBuffer := rw_readBuffer rw'\<rparr> \<and> out_stream e' = out_stream e \<and>
    (\<forall>p. r = Inr p \<longrightarrow> wire_form p bs \<and> length (packet_Data p) \<le> max 1 (nat (sc_MaxPacketLength sc)))"
proof -
  have max: "0 < sc_MaxPacketLength sc" "sc_MaxPacketLength sc < MaxInt32"
    using assms(3) by (simp_all add: session_config_ok_def)
  show ?thesis
    using io_library.SessionReadPacket_spec [OF assms(1,2) max, of e]
    by (auto simp: io_library.packet_result_def [OF assms(1)] io_library.read_frame_def [OF assms(1)]
        io_library.incoming_def [OF assms(1)])
qed

text \<open>A connection whose first byte is no protocol type, and an announced length beyond the limit.\<close>

theorem read_packet_total_witness:
  "\<exists>r rw' e' bs. SessionReadPacket list_ops ex_small_config
      (newSessionPacketReadWriter list_ops ex_small_config) (ex_conn [20, 0, 0, 0, 0, 1, 9, 8]) = Some (r, rw', e') \<and>
    [20, 0, 0, 0, 0, 1, 9, 8] = bs @ lb_data (rw_readBuffer rw') @ lc_in e' \<and>
    (\<forall>p. r = Inr p \<longrightarrow> wire_form p bs \<and> length (packet_Data p) \<le> 1024)"
proof -
  have "list_buffer_ok (rw_readBuffer (newSessionPacketReadWriter list_ops ex_small_config))"
    by (rule list_io.new_rw [OF ex_small_config_ok(1)])
  moreover have "lb_data (rw_readBuffer (newSessionPacketReadWriter list_ops ex_small_config)) = []"
    by (simp add: newSessionPacketReadWriter_def list_ops_def)
  ultimately show ?thesis
    using read_packet_total [OF list_ops_laws _ ex_small_config_ok(1),
      of "newSessionPacketReadWriter list_ops ex_small_config" "ex_conn [20, 0, 0, 0, 0, 1, 9, 8]"]
    by (fastforce simp: ex_small_config_ok(2) ex_conn_def)
qed

text \<open>C25: Writing is total and in order. On any buffer contents and any connection that keeps the
  laws, \<open>SessionWritePacket\<close> returns. What it adds to the bytes sent and buffered is a prefix of
  head and payload, all of it if no error is returned; then fewer writes are waiting than
  \<open>BatchWriteLimit\<close>, and nothing is if no packet is to follow. A connection that does not fail
  causes no error. The bytes of a raw packet are given back exactly once.\<close>

theorem write_packet_total:
  assumes "io_library ops fb_ok fb_data in_stream out_stream good"
    and "fb_ok (rw_writeBuffer rw)" and "length (packet_Data p) < 2 ^ 32"
  shows "\<exists>err rw' e' q. SessionWritePacket ops sc (Some p) moreFollows rw e = Some (err, rw', e') \<and>
    prefix q (packet_bytes p) \<and> (err = None \<longrightarrow> q = packet_bytes p) \<and>
    out_stream e' @ fb_data (rw_writeBuffer rw') = out_stream e @ fb_data (rw_writeBuffer rw) @ q \<and>
    (err = None \<longrightarrow> rw_batchWriteCount rw' < max 1 (sc_BatchWriteLimit sc)) \<and>
    (err = None \<longrightarrow> \<not> moreFollows \<longrightarrow> fb_data (rw_writeBuffer rw') = []) \<and>
    (good e \<longrightarrow> err = None) \<and> in_stream e' = in_stream e \<and>
    rw_returned rw' = rw_returned rw @ (case p of RawPacket bs \<Rightarrow> [bs] | _ \<Rightarrow> [])"
  using io_library.SessionWritePacket_spec [OF assms, of sc moreFollows e]
  by (auto simp: io_library.packet_written_def [OF assms(1)] io_library.outgoing_def [OF assms(1)])

theorem write_packet_total_witness:
  "\<exists>rw' e'. SessionWritePacket list_ops ex_small_config (Some (RawPacket [1, 2, 3])) False
      (newSessionPacketReadWriter list_ops ex_small_config) (ex_conn []) = Some (None, rw', e') \<and>
    lc_out e' = [20, 0, 0, 0, 0, 3, 1, 2, 3] \<and> rw_returned rw' = [[1, 2, 3]]"
proof -
  have "list_buffer_ok (rw_writeBuffer (newSessionPacketReadWriter list_ops ex_small_config))"
    by (rule list_io.new_rw [OF ex_small_config_ok(1)])
  moreover have "packet_bytes (RawPacket [1, 2, 3]) = [20, 0, 0, 0, 0, 3, 1, 2, 3]"
    by (simp add: packet_bytes_def mk_head_eq bigEndian_bytes_def protoTypeRaw_def)
  ultimately show ?thesis
    using write_packet_total [OF list_ops_laws, of "newSessionPacketReadWriter list_ops ex_small_config"
      "RawPacket [1, 2, 3]" ex_small_config False "ex_conn []"]
    by (auto simp: newSessionPacketReadWriter_def ex_conn_def) (simp add: list_ops_def)
qed

end
