(* ===== verification/Session_Pending.thy ===== *)
theory Session_Pending
  imports Session
begin

text \<open>
  The pending packets of a session at the granularity of their atomic accesses:
  \<open>SessionPendingPacket\<close>, which gnet's writing goroutine calls, against any number of goroutines in
  \<open>sendDirect\<close> and against \<open>close\<close> (net/session.go). Theory Session has \<open>sendDirect\<close> as one step;
  \<open>sendDirect_steps_run\<close> says that running the steps below without interference is that.
\<close>

section \<open>The goroutines\<close>

text \<open>Where a goroutine is in \<open>SessionPendingPacket\<close>: before the first \<open>Dequeue\<close>, before
  \<open>waitNotify.Store(false)\<close>, before \<open>Ready\<close>, before \<open>waitNotify.Store(true)\<close>, before the second
  \<open>Dequeue\<close>, in the \<open>select\<close>, returned.\<close>

datatype pending_pc =
    PP_dequeue
  | PP_store_false packet
  | PP_ready packet
  | PP_store_true
  | PP_dequeue_again
  | PP_select
  | PP_return "gerror + packet \<times> bool"

text \<open>One atomic access; \<open>None\<close> if the goroutine has to wait. Go chooses among the ready cases of a
  \<open>select\<close>: \<open>notified\<close> is the case asked for.\<close>

fun SessionPendingPacket_step ::
    "'q queue_ops \<Rightarrow> bool \<Rightarrow> pending_pc \<Rightarrow> 'q session \<Rightarrow> (pending_pc \<times> 'q session) option" where
  "SessionPendingPacket_step Q notified PP_dequeue s =
     (case q_dequeue Q (ss_pendingPackets s) of
        (Some p, q) \<Rightarrow> Some (PP_store_false p, s\<lparr>ss_pendingPackets := q\<rparr>)
      | (None, q) \<Rightarrow> Some (PP_store_true, s\<lparr>ss_pendingPackets := q\<rparr>))"
| "SessionPendingPacket_step Q notified (PP_store_false p) s = Some (PP_ready p, s\<lparr>ss_waitNotify := False\<rparr>)"
| "SessionPendingPacket_step Q notified (PP_ready p) s =
     Some (PP_return (Inr (p, q_ready Q (ss_pendingPackets s) > 0)), s)"
| "SessionPendingPacket_step Q notified PP_store_true s = Some (PP_dequeue_again, s\<lparr>ss_waitNotify := True\<rparr>)"
| "SessionPendingPacket_step Q notified PP_dequeue_again s =
     (case q_dequeue Q (ss_pendingPackets s) of
        (Some p, q) \<Rightarrow> Some (PP_store_false p, s\<lparr>ss_pendingPackets := q\<rparr>)
      | (None, q) \<Rightarrow> Some (PP_select, s\<lparr>ss_pendingPackets := q\<rparr>))"
| "SessionPendingPacket_step Q notified PP_select s =
     (if notified then (if ss_notify s then Some (PP_dequeue, s\<lparr>ss_notify := False\<rparr>) else None)
      else (if ss_chClose s then Some (PP_return (Inl ErrSessionClosed), s) else None))"
| "SessionPendingPacket_step Q notified (PP_return r) s = None"

text \<open>Where a goroutine is in \<open>sendDirect\<close>: before \<open>Enqueue\<close>, before \<open>refreshActiveTime\<close>, before
  \<open>waitNotify.Load\<close>, before the notification (which never waits), returned.\<close>

datatype send_pc =
    SD_enqueue packet bool
  | SD_refresh
  | SD_load
  | SD_notify
  | SD_return "gerror option"

fun sendDirect_step :: "'q queue_ops \<Rightarrow> int64 \<Rightarrow> send_pc \<Rightarrow> 'q session \<Rightarrow> send_pc \<times> 'q session" where
  "sendDirect_step Q now (SD_enqueue p refresh) s =
     (case q_enqueue Q p (ss_pendingPackets s) of (ok, q) \<Rightarrow>
        (if \<not> ok then SD_return (Some ErrPendingPacketsFull) else if refresh then SD_refresh else SD_load,
         s\<lparr>ss_pendingPackets := q\<rparr>))"
| "sendDirect_step Q now SD_refresh s = (SD_load, refreshActiveTime now s)"
| "sendDirect_step Q now SD_load s = (if ss_waitNotify s then SD_notify else SD_return None, s)"
| "sendDirect_step Q now SD_notify s = (SD_return None, s\<lparr>ss_notify := True\<rparr>)"
| "sendDirect_step Q now (SD_return r) s = (SD_return r, s)"

fun sendDirect_run :: "'q queue_ops \<Rightarrow> int64 \<Rightarrow> nat \<Rightarrow> send_pc \<Rightarrow> 'q session \<Rightarrow> send_pc \<times> 'q session" where
  "sendDirect_run Q now 0 pc s = (pc, s)"
| "sendDirect_run Q now (Suc n) pc s = (case sendDirect_step Q now pc s of (pc', s') \<Rightarrow> sendDirect_run Q now n pc' s')"

section \<open>All goroutines together\<close>

text \<open>\<open>pd_sent\<close> and \<open>pd_got\<close> are ghosts: the packets that were taken by \<open>Enqueue\<close> and those that
  were returned by \<open>SessionPendingPacket\<close>, in order. \<open>pd_senders\<close> has one entry for each goroutine
  that may send; one that is not in \<open>sendDirect\<close> has returned. \<open>pd_qclosed\<close>: \<open>pendingPackets.Close\<close>
  has been called.\<close>

record 'q pending_sys =
  pd_session :: "'q session"
  pd_writer :: pending_pc
  pd_senders :: "nat \<Rightarrow> send_pc"
  pd_sent :: "packet list"
  pd_got :: "packet list"
  pd_qclosed :: bool

definition pending_init :: "'q session \<Rightarrow> 'q pending_sys" where
  "pending_init s = \<lparr>pd_session = s, pd_writer = PP_dequeue, pd_senders = (\<lambda>_. SD_return None),
     pd_sent = [], pd_got = [], pd_qclosed = False\<rparr>"

text \<open>The steps: the writer's, and its next call after it was given a packet; a sender's, and its
  next call; the two effects of \<open>closeBaseLocked\<close> here, in its order; and anything that happens to
  the rest of the session.\<close>

definition taken :: "send_pc \<Rightarrow> send_pc \<Rightarrow> packet list" where
  "taken pc pc' = (case pc of SD_enqueue p _ \<Rightarrow> (case pc' of SD_return _ \<Rightarrow> [] | _ \<Rightarrow> [p]) | _ \<Rightarrow> [])"

definition handed :: "pending_pc \<Rightarrow> packet list" where
  "handed pc = (case pc of PP_return (Inr (p, _)) \<Rightarrow> [p] | _ \<Rightarrow> [])"

inductive pending_step :: "'q queue_ops \<Rightarrow> 'q pending_sys \<Rightarrow> 'q pending_sys \<Rightarrow> bool" for Q where
  writer: "SessionPendingPacket_step Q b (pd_writer S) (pd_session S) = Some (pc, s) \<Longrightarrow>
    pending_step Q S (S\<lparr>pd_writer := pc, pd_session := s, pd_got := pd_got S @ handed pc\<rparr>)"
| next_packet: "pd_writer S = PP_return (Inr r) \<Longrightarrow> pending_step Q S (S\<lparr>pd_writer := PP_dequeue\<rparr>)"
| sender: "sendDirect_step Q now (pd_senders S i) (pd_session S) = (pc, s) \<Longrightarrow>
    pending_step Q S (S\<lparr>pd_senders := (pd_senders S)(i := pc), pd_session := s,
      pd_sent := pd_sent S @ taken (pd_senders S i) pc\<rparr>)"
| next_send: "pd_senders S i = SD_return r \<Longrightarrow>
    pending_step Q S (S\<lparr>pd_senders := (pd_senders S)(i := SD_enqueue p refresh)\<rparr>)"
| close_channel: "pending_step Q S (S\<lparr>pd_session := (pd_session S)\<lparr>ss_chClose := True\<rparr>\<rparr>)"
| close_queue: "ss_chClose (pd_session S) \<Longrightarrow>
    pending_step Q S (S\<lparr>pd_qclosed := True,
      pd_session := (pd_session S)\<lparr>ss_pendingPackets := q_close Q (ss_pendingPackets (pd_session S))\<rparr>\<rparr>)"
| elsewhere: "ss_pendingPackets s = ss_pendingPackets (pd_session S) \<Longrightarrow> ss_notify s = ss_notify (pd_session S) \<Longrightarrow>
    ss_waitNotify s = ss_waitNotify (pd_session S) \<Longrightarrow> ss_chClose s = ss_chClose (pd_session S) \<Longrightarrow>
    pending_step Q S (S\<lparr>pd_session := s\<rparr>)"

inductive_cases pending_stepE: "pending_step Q S S'"

section \<open>The invariant\<close>

text \<open>What the writer holds between taking a packet and returning it.\<close>

definition in_flight :: "pending_pc \<Rightarrow> packet list" where
  "in_flight pc = (case pc of PP_store_false p \<Rightarrow> [p] | PP_ready p \<Rightarrow> [p] | _ \<Rightarrow> [])"

text \<open>A sender that has put its packet into the queue and not yet looked at \<open>waitNotify\<close>, or has
  and will notify.\<close>

fun will_look :: "send_pc \<Rightarrow> bool" where
  "will_look (SD_enqueue p refresh) = False"
| "will_look (SD_return r) = False"
| "will_look pc = True"

locale pending_queue =
  fixes Q :: "'q queue_ops" and items :: "'q \<Rightarrow> packet list"
  assumes laws: "queue_laws Q items"
begin

definition queued :: "'q pending_sys \<Rightarrow> packet list" where
  "queued S = items (ss_pendingPackets (pd_session S))"

definition waits_soundly :: "'q pending_sys \<Rightarrow> bool" where
  "waits_soundly S \<longleftrightarrow>
     (pd_writer S = PP_dequeue_again \<or> pd_writer S = PP_select \<longrightarrow> ss_waitNotify (pd_session S)) \<and>
     (pd_qclosed S \<longrightarrow> ss_chClose (pd_session S)) \<and>
     (pd_writer S = PP_select \<longrightarrow> queued S \<noteq> [] \<longrightarrow> \<not> pd_qclosed S \<longrightarrow>
        ss_notify (pd_session S) \<or> (\<exists>i. will_look (pd_senders S i)))"

definition in_order :: "'q pending_sys \<Rightarrow> bool" where
  "in_order S \<longleftrightarrow> (\<not> pd_qclosed S \<longrightarrow>
     pd_sent S = pd_got S @ in_flight (pd_writer S) @ queued S \<and>
     (\<forall>p. pd_writer S = PP_return (Inr (p, True)) \<longrightarrow> queued S \<noteq> []))"

lemma enqueue: "q_enqueue Q p q = (ok, q') \<Longrightarrow> items q' = (if ok then items q @ [p] else items q)"
  using laws unfolding queue_laws_def by (metis fst_conv snd_conv)

lemma dequeue: "q_dequeue Q q = (r, q') \<Longrightarrow> items q = (case r of None \<Rightarrow> [] | Some p \<Rightarrow> [p]) @ items q' \<and> (r = None \<longrightarrow> items q' = [])"
  using laws [unfolded queue_laws_def, THEN conjunct2, THEN conjunct2, THEN conjunct1, rule_format, of q]
  by (cases r) simp_all

lemma ready: "q_ready Q q = int (length (items q))"
  using laws unfolding queue_laws_def by blast

lemma look_new: "will_look pc \<Longrightarrow> \<exists>j. will_look ((f(i := pc)) j)"
  by (rule exI [of _ i]) simp

lemma look_keep: "\<not> will_look (f i) \<Longrightarrow> \<exists>j. will_look (f j) \<Longrightarrow> \<exists>j. will_look ((f(i := pc)) j)"
  by (metis fun_upd_other)

lemma waits_soundly_step:
  assumes "waits_soundly S" and "pending_step Q S S'"
  shows "waits_soundly S'"
  using assms(2)
proof cases
  case (writer b pc s)
  then show ?thesis
    using assms(1) dequeue [of "ss_pendingPackets (pd_session S)"]
    by (cases "pd_writer S") (auto simp: waits_soundly_def queued_def split: prod.splits option.splits if_splits)
next
  case (sender now i pc s)
  show ?thesis
  proof (cases "pd_senders S i")
    case (SD_enqueue p refresh)
    obtain ok q where q: "q_enqueue Q p (ss_pendingPackets (pd_session S)) = (ok, q)"
      by (cases "q_enqueue Q p (ss_pendingPackets (pd_session S))")
    have same: "pd_writer S' = pd_writer S" "ss_waitNotify (pd_session S') = ss_waitNotify (pd_session S)"
      "ss_notify (pd_session S') = ss_notify (pd_session S)" "pd_qclosed S' = pd_qclosed S"
      "ss_chClose (pd_session S') = ss_chClose (pd_session S)"
      "queued S' = (if ok then queued S @ [p] else queued S)"
      using sender SD_enqueue q enqueue [OF q] by (auto simp: queued_def)
    have look: "\<exists>j. will_look (pd_senders S' j)" if "ok \<or> (\<exists>j. will_look (pd_senders S j))"
      using that sender SD_enqueue q
      by (cases ok) (auto intro: look_new look_keep simp del: fun_upd_apply split: if_splits)
    show ?thesis using assms(1) look unfolding waits_soundly_def same by (cases ok) auto
  next
    case SD_load
    then show ?thesis
      using sender assms(1) look_new [of pc "pd_senders S" i]
      by (auto simp: waits_soundly_def queued_def simp del: fun_upd_apply split: if_splits)
  qed (use sender assms(1) look_new [of pc "pd_senders S" i] look_keep [of "pd_senders S" i pc] in
      \<open>auto simp: waits_soundly_def queued_def session_simps simp del: fun_upd_apply\<close>)
next
  case (next_send i r p refresh)
  then show ?thesis
    using assms(1) look_keep [of "pd_senders S" i] 
    by (auto simp: waits_soundly_def queued_def simp del: fun_upd_apply)
qed (use assms(1) in \<open>auto simp: waits_soundly_def queued_def\<close>)

lemma in_order_step:
  assumes "in_order S" and "pending_step Q S S'"
  shows "in_order S'"
  using assms(2)
proof cases
  case (writer b pc s)
  then show ?thesis
    using assms(1) dequeue [of "ss_pendingPackets (pd_session S)"] ready
    by (cases "pd_writer S")
      (auto simp: in_order_def queued_def in_flight_def handed_def split: prod.splits option.splits if_splits)
next
  case (sender now i pc s)
  then show ?thesis
    using assms(1) enqueue [of _ "ss_pendingPackets (pd_session S)"]
    by (cases "pd_senders S i")
      (auto simp: in_order_def queued_def in_flight_def taken_def session_simps split: prod.splits if_splits)
qed (use assms(1) in \<open>auto simp: in_order_def queued_def in_flight_def\<close>)

lemma pending_reachable:
  assumes "(pending_step Q)\<^sup>*\<^sup>* (pending_init s) S" and "items (ss_pendingPackets s) = []"
  shows "waits_soundly S \<and> in_order S"
  using assms(1)
proof induction
  case base
  then show ?case using assms(2) by (simp add: pending_init_def waits_soundly_def in_order_def queued_def in_flight_def)
next
  case (step S S')
  then show ?case using waits_soundly_step in_order_step by blast
qed

lemma new_empty: "items (ss_pendingPackets (newSession Q cfg node active c)) = []"
  using laws by (simp add: queue_laws_def newSession_def)

text \<open>A sender that is going to look at \<open>waitNotify\<close> wakes the writer within three steps of its own.\<close>

lemma looking_notifies:
  assumes "will_look pc" and "ss_waitNotify s"
  shows "ss_notify (snd (sendDirect_run Q now 3 pc s))"
  using assms by (cases pc) (simp_all add: numeral_eq_Suc session_simps)

end

interpretation list_pending: pending_queue list_queue_ops "\<lambda>(limit, open, ps). ps"
  by unfold_locales (rule list_queue_laws)

section \<open>Properties\<close>

text \<open>C10: No packet is lost, doubled or overtaken. Whatever the interleaving of the writer with any
  number of senders, and of both with \<open>close\<close> up to the point where it closes the queue: the
  packets that \<open>Enqueue\<close> accepted are those that \<open>SessionPendingPacket\<close> has returned, the one it
  holds, and those in the queue, in this order. And if it said that more packets are ready, its
  next \<open>Dequeue\<close> finds one, so a batch that was not flushed is not left waiting.\<close>

theorem pending_packets_in_order:
  assumes "queue_laws Q items"
    and "(pending_step Q)\<^sup>*\<^sup>* (pending_init (newSession Q cfg node active c)) S"
    and "\<not> pd_qclosed S"
  shows "pd_sent S = pd_got S @ in_flight (pd_writer S) @ items (ss_pendingPackets (pd_session S)) \<and>
    (\<forall>p. pd_writer S = PP_return (Inr (p, True)) \<longrightarrow>
       (\<exists>p' s. SessionPendingPacket_step Q b PP_dequeue (pd_session S) = Some (PP_store_false p', s)))"
proof -
  have pq: "pending_queue Q items" using assms(1) by (rule pending_queue.intro)
  have ord: "pending_queue.in_order items S"
    using pending_queue.pending_reachable [OF pq assms(2) pending_queue.new_empty [OF pq]] by blast
  have "\<exists>p' s. SessionPendingPacket_step Q b PP_dequeue (pd_session S) = Some (PP_store_false p', s)"
    if "items (ss_pendingPackets (pd_session S)) \<noteq> []"
    using that pending_queue.dequeue [OF pq, of "ss_pendingPackets (pd_session S)"]
    by (auto split: prod.split option.split)
  then show ?thesis
    using ord assms(3)
    by (simp add: pending_queue.in_order_def [OF pq] pending_queue.queued_def [OF pq])
qed

text \<open>A schedule is played: the writer makes a step, a sender calls or makes a step.\<close>

datatype pending_event = Ev_writer bool | Ev_call nat packet | Ev_sender nat

fun play :: "'q queue_ops \<Rightarrow> pending_event \<Rightarrow> 'q pending_sys \<Rightarrow> 'q pending_sys option" where
  "play Q (Ev_writer b) S =
     (case SessionPendingPacket_step Q b (pd_writer S) (pd_session S) of None \<Rightarrow> None
      | Some (pc, s) \<Rightarrow> Some (S\<lparr>pd_writer := pc, pd_session := s, pd_got := pd_got S @ handed pc\<rparr>))"
| "play Q (Ev_call i p) S =
     (case pd_senders S i of SD_return r \<Rightarrow> Some (S\<lparr>pd_senders := (pd_senders S)(i := SD_enqueue p True)\<rparr>) | _ \<Rightarrow> None)"
| "play Q (Ev_sender i) S =
     (case sendDirect_step Q 0 (pd_senders S i) (pd_session S) of (pc, s) \<Rightarrow>
        Some (S\<lparr>pd_senders := (pd_senders S)(i := pc), pd_session := s,
          pd_sent := pd_sent S @ taken (pd_senders S i) pc\<rparr>))"

fun play_all :: "'q queue_ops \<Rightarrow> pending_event list \<Rightarrow> 'q pending_sys \<Rightarrow> 'q pending_sys option" where
  "play_all Q [] S = Some S"
| "play_all Q (ev # evs) S = Option.bind (play Q ev S) (play_all Q evs)"

lemma play_step: "play Q ev S = Some S' \<Longrightarrow> pending_step Q S S'"
  by (cases ev) (auto split: option.splits send_pc.splits prod.splits intro: pending_step.intros)

lemma play_all_steps: "play_all Q evs S = Some S' \<Longrightarrow> (pending_step Q)\<^sup>*\<^sup>* S S'"
proof (induction evs arbitrary: S)
  case (Cons ev evs)
  then obtain S1 where "play Q ev S = Some S1" "play_all Q evs S1 = Some S'"
    by (auto simp: Option.bind_eq_Some_conv)
  then show ?case
    using play_step [of Q ev S S1] Cons.IH [of S1] by (meson converse_rtranclp_into_rtranclp)
qed simp

definition ex_pending0 :: "(int \<times> bool \<times> packet list) pending_sys" where
  "ex_pending0 = pending_init (newSession list_queue_ops (session_config_filled ex_session_config) ''b'' True 1)"

text \<open>Two senders have put their packets into the queue, and the writer has returned the first.\<close>

definition ex_schedule1 :: "pending_event list" where
  "ex_schedule1 = [Ev_call 0 (RawPacket [5]), Ev_call 1 (RawPacket [6]), Ev_sender 1, Ev_sender 0,
     Ev_writer True, Ev_writer True, Ev_writer True]"

lemma ex_schedule1_play:
  obtains S where "play_all list_queue_ops ex_schedule1 ex_pending0 = Some S"
    "pd_sent S = [RawPacket [6], RawPacket [5]]" "pd_got S = [RawPacket [6]]"
    "pd_writer S = PP_return (Inr (RawPacket [6], True))" "\<not> pd_qclosed S"
  by (rule that [of "the (play_all list_queue_ops ex_schedule1 ex_pending0)"])
    (simp_all add: ex_schedule1_def ex_pending0_def pending_init_def newSession_def list_queue_ops_def taken_def
      handed_def refreshActiveTime_def session_config_filled_def ex_session_config_def or_default_def i64_le_def)

theorem pending_packets_in_order_witness:
  "\<exists>S. (pending_step list_queue_ops)\<^sup>*\<^sup>* ex_pending0 S \<and> pd_sent S = [RawPacket [6], RawPacket [5]] \<and>
    (\<lambda>(limit, open, ps). ps) (ss_pendingPackets (pd_session S)) = [RawPacket [5]]"
proof -
  obtain S where S: "play_all list_queue_ops ex_schedule1 ex_pending0 = Some S"
    "pd_sent S = [RawPacket [6], RawPacket [5]]" "pd_got S = [RawPacket [6]]"
    "pd_writer S = PP_return (Inr (RawPacket [6], True))" "\<not> pd_qclosed S"
    by (rule ex_schedule1_play)
  note run = play_all_steps [OF S(1)]
  show ?thesis
    using pending_packets_in_order [OF list_queue_laws run [unfolded ex_pending0_def] S(5)] run S(2-4)
    by (auto simp: in_flight_def)
qed

text \<open>C11: No wakeup is lost. In every reachable state in which the writer waits in the \<open>select\<close>
  although a packet is in the queue or the session has been closed: it can go on, or a sender is
  about to look at \<open>waitNotify\<close>, and after three steps of that sender the writer can go on.\<close>

theorem no_lost_wakeup:
  assumes "queue_laws Q items"
    and "(pending_step Q)\<^sup>*\<^sup>* (pending_init (newSession Q cfg node active c)) S"
    and "pd_writer S = PP_select"
    and "items (ss_pendingPackets (pd_session S)) \<noteq> [] \<or> ss_chClose (pd_session S)"
  shows "(\<exists>b. SessionPendingPacket_step Q b PP_select (pd_session S) \<noteq> None) \<or>
    (\<exists>i. will_look (pd_senders S i) \<and>
       SessionPendingPacket_step Q True PP_select
         (snd (sendDirect_run Q now 3 (pd_senders S i) (pd_session S))) \<noteq> None)"
proof -
  have pq: "pending_queue Q items" using assms(1) by (rule pending_queue.intro)
  have sound: "pending_queue.waits_soundly items S"
    using pending_queue.pending_reachable [OF pq assms(2) pending_queue.new_empty [OF pq]] by blast
  show ?thesis
  proof (cases "ss_chClose (pd_session S) \<or> ss_notify (pd_session S)")
    case True
    then have "SessionPendingPacket_step Q (ss_notify (pd_session S)) PP_select (pd_session S) \<noteq> None" by auto
    then show ?thesis by blast
  next
    case False
    then have "\<exists>i. will_look (pd_senders S i)" "ss_waitNotify (pd_session S)"
      using sound assms(3,4)
      by (auto simp: pending_queue.waits_soundly_def [OF pq] pending_queue.queued_def [OF pq])
    then show ?thesis using pending_queue.looking_notifies [OF pq] by auto
  qed
qed

text \<open>The writer waits, then a sender has put its packet into the queue and not looked yet.\<close>

definition ex_schedule2 :: "pending_event list" where
  "ex_schedule2 = [Ev_writer True, Ev_writer True, Ev_call 0 (RawPacket [5]), Ev_writer True, Ev_sender 0]"

lemma ex_schedule2_play:
  obtains S where "play_all list_queue_ops ex_schedule2 ex_pending0 = Some S"
    "pd_writer S = PP_select" "(\<lambda>(limit, open, ps). ps) (ss_pendingPackets (pd_session S)) = [RawPacket [5]]"
  by (rule that [of "the (play_all list_queue_ops ex_schedule2 ex_pending0)"])
    (simp_all add: ex_schedule2_def ex_pending0_def pending_init_def newSession_def list_queue_ops_def taken_def
      handed_def refreshActiveTime_def session_config_filled_def ex_session_config_def or_default_def i64_le_def)

theorem no_lost_wakeup_witness:
  "\<exists>S. (pending_step list_queue_ops)\<^sup>*\<^sup>* ex_pending0 S \<and> pd_writer S = PP_select \<and>
    ((\<exists>b. SessionPendingPacket_step list_queue_ops b PP_select (pd_session S) \<noteq> None) \<or>
     (\<exists>i. will_look (pd_senders S i)))"
proof -
  obtain S where S: "play_all list_queue_ops ex_schedule2 ex_pending0 = Some S"
    "pd_writer S = PP_select" "(\<lambda>(limit, open, ps). ps) (ss_pendingPackets (pd_session S)) = [RawPacket [5]]"
    by (rule ex_schedule2_play)
  note run = play_all_steps [OF S(1)]
  show ?thesis
    using no_lost_wakeup [OF list_queue_laws run [unfolded ex_pending0_def] S(2)] run S(2,3)
    by (auto simp del: SessionPendingPacket_step.simps)
qed


end
