(* ===== verification/Handshake.thy ===== *)
theory Handshake
  imports Proto Config
begin

text \<open>
  The framing of handshake messages (net/handshake.go): the registry that relates protocol types
  and message types, and reading and writing one message on a connection.

  The connection, the clock and the generated protobuf code (\<open>proto.Marshal\<close>, \<open>proto.Unmarshal\<close> on
  the messages of protos.pb.go) are parameters: the operations of \<open>hs_ops\<close>, whose laws are the
  locale \<open>handshake_library\<close> of theory Handshake_Correct.
\<close>

section \<open>The registry\<close>

text \<open>\<open>reflect.TypeOf\<close> of a message: a pointer to one of the five generated structs.\<close>

datatype pb_type = PB_HSApply | PB_HSAccepted | PB_HSRejected | PB_HSCompleted | PB_HSCompletedAck

fun reflect_TypeOf :: "hs_message \<Rightarrow> pb_type" where
  "reflect_TypeOf (HSApply _ _ _) = PB_HSApply"
| "reflect_TypeOf (HSAccepted _ _) = PB_HSAccepted"
| "reflect_TypeOf (HSRejected _) = PB_HSRejected"
| "reflect_TypeOf HSCompleted = PB_HSCompleted"
| "reflect_TypeOf HSCompletedAck = PB_HSCompletedAck"

text \<open>\<open>reflect.New\<close>: a message with all fields zero, \<open>&pb.HSApply{}\<close> and so on.\<close>

fun reflect_New :: "pb_type \<Rightarrow> hs_message" where
  "reflect_New PB_HSApply = HSApply [] [] 0"
| "reflect_New PB_HSAccepted = HSAccepted [] []"
| "reflect_New PB_HSRejected = HSRejected 0"
| "reflect_New PB_HSCompleted = HSCompleted"
| "reflect_New PB_HSCompletedAck = HSCompletedAck"

record handshake_helper =
  hh_protoPbType :: "proto_type \<rightharpoonup> pb_type"
  hh_pbProtoType :: "pb_type \<rightharpoonup> proto_type"

definition handshakeHelper_new :: handshake_helper where
  "handshakeHelper_new = \<lparr>hh_protoPbType = Map.empty, hh_pbProtoType = Map.empty\<rparr>"

definition regProtoPb :: "proto_type \<Rightarrow> hs_message \<Rightarrow> handshake_helper \<Rightarrow> handshake_helper outcome" where
  "regProtoPb pt p m =
     (case hh_protoPbType m pt of
        Some _ \<Rightarrow> Panic (''proto-type '' @ protoType_String pt @ '' already exists'')
      | None \<Rightarrow>
          let pbType = reflect_TypeOf p in
          (case hh_pbProtoType m pbType of
             Some pt2 \<Rightarrow> Panic (''pb-type -> proto-type '' @ protoType_String pt2 @ '' already exists'')
           | None \<Rightarrow> Normal (m\<lparr>hh_protoPbType := (hh_protoPbType m)(pt \<mapsto> pbType),
                              hh_pbProtoType := (hh_pbProtoType m)(pbType \<mapsto> pt)\<rparr>)))"

definition handshakeHelper_init :: "handshake_helper \<Rightarrow> handshake_helper outcome" where
  "handshakeHelper_init m =
     obind (regProtoPb protoTypeHSApply (reflect_New PB_HSApply) m) (\<lambda>m.
     obind (regProtoPb protoTypeHSAccepted (reflect_New PB_HSAccepted) m) (\<lambda>m.
     obind (regProtoPb protoTypeHSCompleted (reflect_New PB_HSCompleted) m) (\<lambda>m.
     obind (regProtoPb protoTypeHSRejected (reflect_New PB_HSRejected) m) (\<lambda>m.
     regProtoPb protoTypeHSCompletedAck (reflect_New PB_HSCompletedAck) m))))"

definition createPb :: "handshake_helper \<Rightarrow> proto_type \<Rightarrow> hs_message option" where
  "createPb m pt = map_option reflect_New (hh_protoPbType m pt)"

text \<open>A nil message is \<open>None\<close>; a missing key of the map reads as zero, \<open>protoTypeUnknown\<close>.\<close>

definition getProtoType :: "handshake_helper \<Rightarrow> hs_message option \<Rightarrow> proto_type \<times> bool" where
  "getProtoType m po =
     (case po of None \<Rightarrow> (protoTypeUnknown, False)
      | Some p \<Rightarrow> (case hh_pbProtoType m (reflect_TypeOf p) of
          None \<Rightarrow> (0, False) | Some pt \<Rightarrow> (pt, True)))"

section \<open>The connection and the generated code, parameters\<close>

text \<open>\<open>hs_Read n\<close> is \<open>conn.Read\<close> into a slice of length \<open>n\<close>. The code ignores the errors of the
  deadline calls. \<open>pb_Unmarshal t bs\<close> fills a message of type \<open>t\<close>.\<close>

record 'e hs_ops =
  hs_Read :: "nat \<Rightarrow> 'e \<Rightarrow> (byte list \<times> gerror option) \<times> 'e"
  hs_Write :: "byte list \<Rightarrow> 'e \<Rightarrow> gerror option \<times> 'e"
  hs_SetReadDeadline :: "int64 \<Rightarrow> 'e \<Rightarrow> 'e"
  hs_SetWriteDeadline :: "int64 \<Rightarrow> 'e \<Rightarrow> 'e"
  hs_Now :: "'e \<Rightarrow> int64 \<times> 'e"
  pb_Marshal :: "hs_message \<Rightarrow> gerror + byte list"
  pb_Unmarshal :: "pb_type \<Rightarrow> byte list \<Rightarrow> gerror + hs_message"

text \<open>\<open>io.ReadFull\<close>: read until the slice of length \<open>n\<close>, of which \<open>got\<close> is filled, is full or there
  is an error. An error that comes with the last bytes is dropped; the end of the stream within
  the slice is \<open>io.ErrUnexpectedEOF\<close>.\<close>

definition hs_EOF :: gerror where "hs_EOF = ExtErr 0"
definition io_ErrUnexpectedEOF :: gerror where "io_ErrUnexpectedEOF = ExtErr 3"

partial_function (option) io_ReadFull ::
    "'e hs_ops \<Rightarrow> nat \<Rightarrow> byte list \<Rightarrow> 'e \<Rightarrow> ((gerror + byte list) \<times> 'e) option" where
  "io_ReadFull ops n got e =
     (if n \<le> length got then Some (Inr got, e)
      else case hs_Read ops (n - length got) e of ((bs, err), e1) \<Rightarrow>
        (let got1 = got @ bs in
         case err of None \<Rightarrow> io_ReadFull ops n got1 e1
         | Some x \<Rightarrow> Some (if n \<le> length got1 then Inr got1
             else Inl (if got1 \<noteq> [] \<and> x = hs_EOF then io_ErrUnexpectedEOF else x), e1)))"

section \<open>One message\<close>

definition readProto ::
    "'e hs_ops \<Rightarrow> handshake_helper \<Rightarrow> int \<Rightarrow> 'e \<Rightarrow> ((gerror + hs_message) \<times> 'e) option" where
  "readProto ops m timeout e =
     (let (now, e1) = hs_Now ops e; e2 = hs_SetReadDeadline ops (now + word_of_int timeout) e1 in
      Option.bind (io_ReadFull ops 6 [] e2) (\<lambda>(r, e3).
        case r of Inl x \<Rightarrow> Some (Inl (WithMessage x ''read head''), e3)
        | Inr head \<Rightarrow>
            let protoType = head_protoType head; payloadLen = head_payloadLen head in
            (case createPb m protoType of
               None \<Rightarrow> Some (Inl (ErrText ''wrong proto-type %d'' [sint protoType]), e3)
             | Some p \<Rightarrow> Option.bind (io_ReadFull ops (unat payloadLen) [] e3) (\<lambda>(r, e4).
                 case r of Inl x \<Rightarrow> Some (Inl (WithMessage x (''proto-type '' @ protoType_String protoType @ '' read payload'')), e4)
                 | Inr payload \<Rightarrow>
                     (case pb_Unmarshal ops (reflect_TypeOf p) payload of
                        Inl x \<Rightarrow> Some (Inl (WithMessage x (''proto-type '' @ protoType_String protoType @ '' decode payload'')), e4)
                      | Inr p' \<Rightarrow> Some (Inr p', e4))))))"

definition writeProto ::
    "'e hs_ops \<Rightarrow> handshake_helper \<Rightarrow> hs_message \<Rightarrow> int \<Rightarrow> 'e \<Rightarrow> gerror option \<times> 'e" where
  "writeProto ops m p timeout e =
     (let (protoType, valid) = getProtoType m (Some p) in
      if \<not> valid then (Some (ErrText ''wrong pb-type'' []), e)
      else case pb_Marshal ops p of
        Inl x \<Rightarrow> (Some (WithMessage x (''proto-type '' @ protoType_String protoType @ '' encode payload'')), e)
      | Inr payload \<Rightarrow>
          let (now, e1) = hs_Now ops e; e2 = hs_SetWriteDeadline ops (now + word_of_int timeout) e1;
              (err1, e3) = hs_Write ops (mk_head protoType payload) e2
          in (case err1 of Some x \<Rightarrow> (Some (WithMessage x ''writeFull head''), e3)
              | None \<Rightarrow>
                  let (err2, e4) = hs_Write ops payload e3 in
                  (case err2 of Some x \<Rightarrow> (Some (WithMessage x ''writeFull payload''), e4)
                   | None \<Rightarrow> (None, e4))))"

definition writeApply ::
    "'e hs_ops \<Rightarrow> handshake_helper \<Rightarrow> node_id \<Rightarrow> string \<Rightarrow> int64 \<Rightarrow> int \<Rightarrow> 'e \<Rightarrow> gerror option \<times> 'e" where
  "writeApply ops m nodeId token ts timeout e = writeProto ops m (HSApply nodeId token (sint ts)) timeout e"

definition writeAccepted ::
    "'e hs_ops \<Rightarrow> handshake_helper \<Rightarrow> node_id \<Rightarrow> string \<Rightarrow> int \<Rightarrow> 'e \<Rightarrow> gerror option \<times> 'e" where
  "writeAccepted ops m nodeId token timeout e = writeProto ops m (HSAccepted nodeId token) timeout e"

definition writeCompleted :: "'e hs_ops \<Rightarrow> handshake_helper \<Rightarrow> int \<Rightarrow> 'e \<Rightarrow> gerror option \<times> 'e" where
  "writeCompleted ops m timeout e = writeProto ops m HSCompleted timeout e"

definition writeRejected :: "'e hs_ops \<Rightarrow> handshake_helper \<Rightarrow> int \<Rightarrow> int \<Rightarrow> 'e \<Rightarrow> gerror option \<times> 'e" where
  "writeRejected ops m reason timeout e = writeProto ops m (HSRejected reason) timeout e"

definition writeCompletedAck :: "'e hs_ops \<Rightarrow> handshake_helper \<Rightarrow> int \<Rightarrow> 'e \<Rightarrow> gerror option \<times> 'e" where
  "writeCompletedAck ops m timeout e = writeProto ops m HSCompletedAck timeout e"

text \<open>\<open>readHandshakeProto\<close> at the message type \<open>Pt\<close>.\<close>

definition readHandshakeProto ::
    "'e hs_ops \<Rightarrow> handshake_helper \<Rightarrow> pb_type \<Rightarrow> int \<Rightarrow> 'e \<Rightarrow> ((gerror + hs_message) \<times> 'e) option" where
  "readHandshakeProto ops m Pt timeout e =
     Option.bind (readProto ops m timeout e) (\<lambda>(r, e1).
       case r of Inl x \<Rightarrow> Some (Inl x, e1)
       | Inr p \<Rightarrow>
           if reflect_TypeOf p = Pt then Some (Inr p, e1)
           else Some (Inl (ErrText (''wrong proto-type '' @ protoType_String (fst (getProtoType m (Some p)))) []), e1))"

section \<open>The registry after init\<close>

definition pb_proto_type :: "pb_type \<Rightarrow> proto_type" where
  "pb_proto_type t = (case t of PB_HSApply \<Rightarrow> protoTypeHSApply | PB_HSAccepted \<Rightarrow> protoTypeHSAccepted
     | PB_HSRejected \<Rightarrow> protoTypeHSRejected | PB_HSCompleted \<Rightarrow> protoTypeHSCompleted
     | PB_HSCompletedAck \<Rightarrow> protoTypeHSCompletedAck)"

text \<open>The two maps are inverse to each other, and hold the five messages.\<close>

definition registered :: "handshake_helper \<Rightarrow> bool" where
  "registered m \<longleftrightarrow> (\<forall>t. hh_pbProtoType m t = Some (pb_proto_type t)) \<and>
     (\<forall>pt t. hh_protoPbType m pt = Some t \<longleftrightarrow> pt = pb_proto_type t)"

definition the_helper :: handshake_helper where
  "the_helper = \<lparr>hh_protoPbType = [protoTypeHSApply \<mapsto> PB_HSApply, protoTypeHSAccepted \<mapsto> PB_HSAccepted,
       protoTypeHSCompleted \<mapsto> PB_HSCompleted, protoTypeHSRejected \<mapsto> PB_HSRejected,
       protoTypeHSCompletedAck \<mapsto> PB_HSCompletedAck],
     hh_pbProtoType = [PB_HSApply \<mapsto> protoTypeHSApply, PB_HSAccepted \<mapsto> protoTypeHSAccepted,
       PB_HSCompleted \<mapsto> protoTypeHSCompleted, PB_HSRejected \<mapsto> protoTypeHSRejected,
       PB_HSCompletedAck \<mapsto> protoTypeHSCompletedAck]\<rparr>"

lemma handshakeHelper_init_run: "handshakeHelper_init handshakeHelper_new = Normal the_helper"
  by (simp add: handshakeHelper_init_def handshakeHelper_new_def regProtoPb_def the_helper_def pt_simps)

lemma registered_the_helper: "registered the_helper"
  unfolding registered_def the_helper_def pb_proto_type_def
  by (intro conjI allI; case_tac t) (auto simp: pt_simps)

lemma TypeOf_New [simp]: "reflect_TypeOf (reflect_New t) = t"
  by (cases t) simp_all

lemma registered_simps:
  assumes "registered m"
  shows "getProtoType m (Some p) = (pb_proto_type (reflect_TypeOf p), True)"
    and "createPb m (pb_proto_type t) = Some (reflect_New t)"
    and "createPb m pt = Some q \<Longrightarrow> \<exists>t. pt = pb_proto_type t \<and> q = reflect_New t"
  using assms by (auto simp: registered_def getProtoType_def createPb_def)

end
