(* ===== verification/Handshake_Correct.thy ===== *)
theory Handshake_Correct
  imports Handshake "HOL-Library.Sublist"
begin

text \<open>
  Handshake messages survive the connection: reading ends, takes exactly the bytes of one message,
  and gives back what was written, on every connection and protobuf codec that keep their laws.
\<close>

section \<open>The laws\<close>

text \<open>\<open>in_stream\<close>: the bytes the connection will still deliver, \<open>out_stream\<close>: those it has taken.
  A \<open>net.Conn\<close> gives at least one byte or an error, and takes all bytes or returns an error. A
  message that can be encoded is decoded to itself.\<close>

locale handshake_library =
  fixes ops :: "'e hs_ops"
    and in_stream :: "'e \<Rightarrow> byte list"
    and out_stream :: "'e \<Rightarrow> byte list"
    and good :: "'e \<Rightarrow> bool"
  assumes conn_read: "0 < n \<Longrightarrow> hs_Read ops n e = ((bs, err), e') \<Longrightarrow>
      in_stream e = bs @ in_stream e' \<and> out_stream e' = out_stream e \<and> length bs \<le> n \<and>
      (err = None \<longrightarrow> bs \<noteq> []) \<and> (good e \<longrightarrow> good e' \<and> (in_stream e \<noteq> [] \<longrightarrow> err = None))"
    and conn_write: "hs_Write ops p e = (err, e') \<Longrightarrow>
      in_stream e' = in_stream e \<and> (good e \<longrightarrow> good e' \<and> err = None) \<and>
      (\<exists>k. out_stream e' = out_stream e @ take k p \<and> (err = None \<longrightarrow> length p \<le> k))"
    and deadlines: "in_stream (hs_SetReadDeadline ops t e) = in_stream e \<and>
      out_stream (hs_SetReadDeadline ops t e) = out_stream e \<and> (good e \<longrightarrow> good (hs_SetReadDeadline ops t e)) \<and>
      in_stream (hs_SetWriteDeadline ops t e) = in_stream e \<and>
      out_stream (hs_SetWriteDeadline ops t e) = out_stream e \<and> (good e \<longrightarrow> good (hs_SetWriteDeadline ops t e))"
    and clock: "hs_Now ops e = (t, e') \<Longrightarrow>
      in_stream e' = in_stream e \<and> out_stream e' = out_stream e \<and> (good e \<longrightarrow> good e')"
    and unmarshal: "pb_Unmarshal ops pt bs = Inr m \<Longrightarrow> reflect_TypeOf m = pt"
    and marshal: "pb_Marshal ops m = Inr bs \<Longrightarrow> pb_Unmarshal ops (reflect_TypeOf m) bs = Inr m"

section \<open>Reading and writing\<close>

text \<open>The bytes of a message whose payload is \<open>payload\<close>.\<close>

definition hs_frame :: "hs_message \<Rightarrow> byte list \<Rightarrow> byte list" where
  "hs_frame m payload = mk_head (pb_proto_type (reflect_TypeOf m)) payload @ payload"

context handshake_library
begin

definition filled :: "nat \<Rightarrow> byte list \<Rightarrow> 'e \<Rightarrow> (gerror + byte list) \<Rightarrow> 'e \<Rightarrow> bool" where
  "filled n got e r e' \<longleftrightarrow> out_stream e' = out_stream e \<and>
     (\<exists>bs. in_stream e = bs @ in_stream e' \<and>
       (case r of Inr res \<Rightarrow> res = got @ bs \<and> length res = n | Inl _ \<Rightarrow> length (got @ bs) < n)) \<and>
     (good e \<longrightarrow> good e' \<and> (isl r \<longrightarrow> in_stream e' = []))"

lemma io_ReadFull_spec:
  assumes "length got \<le> n"
  shows "\<exists>r e'. io_ReadFull ops n got e = Some (r, e') \<and> filled n got e r e'"
  using assms
proof (induction "n - length got" arbitrary: got e rule: less_induct)
  case less
  show ?case
  proof (cases "length got = n")
    case True
    then show ?thesis by (subst io_ReadFull.simps) (simp add: filled_def)
  next
    case False
    obtain bs err e1 where rd: "hs_Read ops (n - length got) e = ((bs, err), e1)"
      by (cases "hs_Read ops (n - length got) e") auto
    have l: "in_stream e = bs @ in_stream e1" "out_stream e1 = out_stream e" "length (got @ bs) \<le> n"
      "err = None \<longrightarrow> bs \<noteq> []" "good e \<longrightarrow> good e1 \<and> (in_stream e \<noteq> [] \<longrightarrow> err = None)"
    proof -
      have pos: "0 < n - length got" using False less.prems by simp
      note c = conn_read [OF pos rd]
      show "in_stream e = bs @ in_stream e1" "out_stream e1 = out_stream e"
        "err = None \<longrightarrow> bs \<noteq> []" "good e \<longrightarrow> good e1 \<and> (in_stream e \<noteq> [] \<longrightarrow> err = None)"
        using c by blast+
      have "length bs \<le> n - length got" using c by blast
      then show "length (got @ bs) \<le> n" using less.prems by simp
    qed
    show ?thesis
    proof (cases err)
      case None
      have "n - length (got @ bs) < n - length got" using l(3,4) None False less.prems by (cases bs) auto
      from less.hyps [OF this l(3), of e1] obtain r e' where
        r: "io_ReadFull ops n (got @ bs) e1 = Some (r, e')" "filled n (got @ bs) e1 r e'"
        by blast
      then obtain cs where cs: "in_stream e1 = cs @ in_stream e'"
        "case r of Inr res \<Rightarrow> res = (got @ bs) @ cs \<and> length res = n | Inl _ \<Rightarrow> length ((got @ bs) @ cs) < n"
        unfolding filled_def by blast
      have "in_stream e = (bs @ cs) @ in_stream e'" using l(1) cs(1) by simp
      moreover have "case r of Inr res \<Rightarrow> res = got @ (bs @ cs) \<and> length res = n | Inl _ \<Rightarrow> length (got @ (bs @ cs)) < n"
        using cs(2) by (simp split: sum.splits)
      moreover have "out_stream e' = out_stream e" "good e \<longrightarrow> good e' \<and> (isl r \<longrightarrow> in_stream e' = [])"
        using r(2) l(2,5) by (simp_all add: filled_def)
      ultimately have "filled n got e r e'" unfolding filled_def by blast
      moreover have "io_ReadFull ops n got e = Some (r, e')"
        using False less.prems r(1) by (subst io_ReadFull.simps) (simp add: rd None)
      ultimately show ?thesis by blast
    next
      case (Some x)
      let ?r = "if n \<le> length (got @ bs) then Inr (got @ bs)
        else Inl (if got @ bs \<noteq> [] \<and> x = hs_EOF then io_ErrUnexpectedEOF else x)"
      have "io_ReadFull ops n got e = Some (?r, e1)"
        using False less.prems Some by (subst io_ReadFull.simps) (simp add: rd Let_def)
      moreover have "filled n got e ?r e1"
        using l Some unfolding filled_def by auto
      ultimately show ?thesis by blast
    qed
  qed
qed

lemma io_ReadFull_exact:
  assumes "good e" and "in_stream e = bs @ rest"
  obtains e' where "io_ReadFull ops (length bs) [] e = Some (Inr bs, e')" "in_stream e' = rest"
    "out_stream e' = out_stream e" "good e'"
proof -
  obtain r e' where r: "io_ReadFull ops (length bs) [] e = Some (r, e')" "filled (length bs) [] e r e'"
    using io_ReadFull_spec [of "[]" "length bs" e] by auto
  show thesis
  proof (cases r)
    case (Inl x)
    then obtain cs where "in_stream e = cs @ in_stream e'" "length cs < length bs" "in_stream e' = []"
      using r(2) assms(1) by (auto simp: filled_def)
    then have "length (bs @ rest) < length bs" using assms(2) by simp
    then show thesis by simp
  next
    case (Inr res)
    then show thesis using that r assms by (auto simp: filled_def)
  qed
qed

text \<open>What reading a message comes to: the bytes that were taken are those of a message of its type,
  with a payload that decodes to it, or there is an error.\<close>

definition message_read :: "'e \<Rightarrow> (gerror + hs_message) \<Rightarrow> 'e \<Rightarrow> bool" where
  "message_read e r e' \<longleftrightarrow> out_stream e' = out_stream e \<and>
     (\<exists>bs. in_stream e = bs @ in_stream e' \<and>
       (\<forall>m. r = Inr m \<longrightarrow> (\<exists>x payload. bs = pb_proto_type (reflect_TypeOf m) # x #
           bigEndian_bytes (word_of_nat (length payload)) @ payload \<and>
         length payload < 2 ^ 32 \<and> pb_Unmarshal ops (reflect_TypeOf m) payload = Inr m)))"

lemma readProto_spec:
  assumes reg: "registered m"
  shows "\<exists>r e'. readProto ops m timeout e = Some (r, e') \<and> message_read e r e'"
proof -
  obtain now e1 where c: "hs_Now ops e = (now, e1)" by (cases "hs_Now ops e")
  let ?e2 = "hs_SetReadDeadline ops (now + word_of_int timeout) e1"
  have l: "in_stream ?e2 = in_stream e" "out_stream ?e2 = out_stream e"
    using clock [OF c] deadlines by simp_all
  obtain r3 e3 where r3: "io_ReadFull ops 6 [] ?e2 = Some (r3, e3)" "filled 6 [] ?e2 r3 e3"
    using io_ReadFull_spec [of "[]" 6 ?e2] by auto
  show ?thesis
  proof (cases r3)
    case (Inl x)
    then show ?thesis using r3 l by (auto simp: readProto_def c message_read_def filled_def)
  next
    case (Inr h)
    then have h: "in_stream e = h @ in_stream e3" "length h = 6" "out_stream e3 = out_stream e"
      using r3(2) l by (auto simp: filled_def)
    show ?thesis
    proof (cases "createPb m (head_protoType h)")
      case None
      then show ?thesis using r3(1) Inr h by (auto simp: readProto_def c message_read_def)
    next
      case (Some p)
      then obtain t where t: "head_protoType h = pb_proto_type t" "p = reflect_New t"
        using registered_simps(3) [OF reg] by blast
      let ?n = "head_payloadLen h"
      obtain r4 e4 where r4: "io_ReadFull ops (unat ?n) [] e3 = Some (r4, e4)" "filled (unat ?n) [] e3 r4 e4"
        using io_ReadFull_spec [of "[]" "unat ?n" e3] by auto
      then have out: "out_stream e4 = out_stream e" using h(3) by (simp add: filled_def)
      obtain bs where bs: "in_stream e3 = bs @ in_stream e4" "\<forall>res. r4 = Inr res \<longrightarrow> res = bs \<and> length res = unat ?n"
          using r4(2) by (cases r4) (auto simp: filled_def)
      have taken: "in_stream e = (h @ bs) @ in_stream e4" using h(1) bs(1) by simp
      show ?thesis
      proof (cases r4)
        case (Inl x)
        then show ?thesis
          using r3(1) \<open>r3 = Inr h\<close> Some r4(1) taken out
          by (auto simp: readProto_def c message_read_def intro: exI [of _ "h @ bs"])
      next
        case (Inr payload)
        note payload = this
        show ?thesis
        proof (cases "pb_Unmarshal ops t payload")
          case (Inl x)
          then show ?thesis
            using r3(1) \<open>r3 = Inr h\<close> Some r4(1) taken out payload t
            by (auto simp: readProto_def c message_read_def intro: exI [of _ "h @ bs"])
        next
          case (Inr q)
          have q: "reflect_TypeOf q = t" by (rule unmarshal [OF Inr])
          have b: "payload = bs" "length bs = unat ?n" using bs(2) payload by auto
          obtain x where x: "h = pb_proto_type t # x # bigEndian_bytes ?n" using head_form [OF h(2)] t(1) by auto
          have "h @ bs = pb_proto_type t # x # bigEndian_bytes (word_of_nat (length bs)) @ bs"
            unfolding b(2) by (subst x) simp
          moreover have "length bs < 2 ^ 32" unfolding b(2) using unsigned_less [of ?n, where 'a = nat] by simp
          ultimately have "message_read e (Inr q) e4"
            using taken out q Inr b(1) unfolding message_read_def by blast
          then show ?thesis
            using r3(1) \<open>r3 = Inr h\<close> Some r4(1) payload t Inr by (simp add: readProto_def c)
        qed
      qed
    qed
  qed
qed

lemma readProto_exact:
  assumes reg: "registered m" and "good e" and "pb_Marshal ops p = Inr payload" and "length payload < 2 ^ 32"
    and "in_stream e = hs_frame p payload @ rest"
  obtains e' where "readProto ops m timeout e = Some (Inr p, e')" "in_stream e' = rest"
    "out_stream e' = out_stream e" "good e'"
proof -
  obtain now e1 where c: "hs_Now ops e = (now, e1)" by (cases "hs_Now ops e")
  let ?e2 = "hs_SetReadDeadline ops (now + word_of_int timeout) e1"
  let ?h = "mk_head (pb_proto_type (reflect_TypeOf p)) payload"
  have l: "in_stream ?e2 = ?h @ payload @ rest" "out_stream ?e2 = out_stream e" "good ?e2"
    using clock [OF c] deadlines assms(2,5) by (simp_all add: hs_frame_def)
  obtain e3 where e3: "io_ReadFull ops 6 [] ?e2 = Some (Inr ?h, e3)" "in_stream e3 = payload @ rest"
    "out_stream e3 = out_stream ?e2" "good e3"
    using io_ReadFull_exact [OF l(3,1)] by (auto simp: length_mk_head)
  obtain e4 where e4: "io_ReadFull ops (length payload) [] e3 = Some (Inr payload, e4)" "in_stream e4 = rest"
    "out_stream e4 = out_stream e3" "good e4"
    using io_ReadFull_exact [OF e3(4,2)] by auto
  have "readProto ops m timeout e = Some (Inr p, e4)"
    using e3(1) e4(1) marshal [OF assms(3)] assms(4)
    by (simp add: readProto_def c protoType_mk_head unat_payloadLen_mk_head registered_simps(2) [OF reg])
  then show thesis using that e4 e3 l by simp
qed

lemma writeProto_spec:
  assumes reg: "registered m" and w: "writeProto ops m p timeout e = (err, e')"
  shows "in_stream e' = in_stream e \<and>
    (\<forall>payload. pb_Marshal ops p = Inr payload \<longrightarrow>
      (\<exists>q. out_stream e' = out_stream e @ q \<and> prefix q (hs_frame p payload) \<and> (err = None \<longrightarrow> q = hs_frame p payload)) \<and>
      (good e \<longrightarrow> good e' \<and> err = None)) \<and>
    (isl (pb_Marshal ops p) \<longrightarrow> err \<noteq> None \<and> e' = e)"
proof (cases "pb_Marshal ops p")
  case (Inl x)
  then show ?thesis using w by (auto simp: writeProto_def registered_simps(1) [OF reg])
next
  case (Inr payload)
  obtain now e1 where c: "hs_Now ops e = (now, e1)" by (cases "hs_Now ops e")
  let ?e2 = "hs_SetWriteDeadline ops (now + word_of_int timeout) e1"
  let ?h = "mk_head (pb_proto_type (reflect_TypeOf p)) payload"
  have l: "in_stream ?e2 = in_stream e" "out_stream ?e2 = out_stream e" "good e \<longrightarrow> good ?e2"
    using clock [OF c] deadlines by simp_all
  obtain err1 e3 where w1: "hs_Write ops ?h ?e2 = (err1, e3)" by (cases "hs_Write ops ?h ?e2")
  obtain k where k: "out_stream e3 = out_stream e @ take k ?h" "err1 = None \<longrightarrow> length ?h \<le> k"
    "in_stream e3 = in_stream e" "good e \<longrightarrow> good e3 \<and> err1 = None"
    using conn_write [OF w1] l by auto
  show ?thesis
  proof (cases err1)
    case (Some x)
    then have "err = Some (WithMessage x ''writeFull head'')" "e' = e3"
      using w Inr w1 by (simp_all add: writeProto_def registered_simps(1) [OF reg] c)
    then show ?thesis
      using k Some Inr prefix_prefix [OF take_is_prefix [of k ?h], of payload] by (auto simp: hs_frame_def)
  next
    case None
    obtain err2 e4 where w2: "hs_Write ops payload e3 = (err2, e4)" by (cases "hs_Write ops payload e3")
    obtain j where j: "out_stream e4 = out_stream e3 @ take j payload" "err2 = None \<longrightarrow> length payload \<le> j"
      "in_stream e4 = in_stream e3" "good e3 \<longrightarrow> good e4 \<and> err2 = None"
      using conn_write [OF w2] by auto
    have "(err = None) = (err2 = None)" "e' = e4"
      using w Inr w1 w2 None
      by (auto simp: writeProto_def registered_simps(1) [OF reg] c split: option.splits)
    moreover have "out_stream e4 = out_stream e @ (?h @ take j payload)"
      using j(1) k(1,2) None by simp
    moreover have "prefix (?h @ take j payload) (hs_frame p payload)"
      by (simp add: hs_frame_def take_is_prefix)
    moreover have "err2 = None \<longrightarrow> ?h @ take j payload = hs_frame p payload"
      using j(2) by (simp add: hs_frame_def)
    ultimately show ?thesis using j(3,4) k(3,4) Inr None by auto
  qed
qed

end

end
