(* ===== verification/Handshake_Properties.thy ===== *)
theory Handshake_Properties
  imports Handshake_Correct Establish
begin

text \<open>
  A connection in memory with a small codec, which keep the laws of theory Handshake_Correct, the
  properties of the handshake messages, and how the steps of theory Establish, which are given the
  message that was read, fit the calls of \<open>readProto\<close> and \<open>readHandshakeProto\<close>.
\<close>

section \<open>A connection and a codec in memory\<close>

text \<open>The codec has a length byte before each string, and one byte for a number.\<close>

fun enc_string :: "string \<Rightarrow> byte list" where
  "enc_string s = word_of_nat (length s) # map (\<lambda>c. word_of_nat (of_char c)) s"

fun dec_string :: "byte list \<Rightarrow> (string \<times> byte list) option" where
  "dec_string [] = None"
| "dec_string (n # bs) = (if length bs < unat n then None
     else Some (map (\<lambda>b. char_of (unat b)) (take (unat n) bs), drop (unat n) bs))"

lemma dec_enc_string: "length s < 256 \<Longrightarrow> dec_string (enc_string s @ bs) = Some (s, bs)"
  by (simp add: unat_of_nat take_bit_nat_def comp_def)

definition one_byte :: "int \<Rightarrow> bool" where
  "one_byte n \<longleftrightarrow> 0 \<le> n \<and> n < 256"

fun small_Marshal :: "hs_message \<Rightarrow> gerror + byte list" where
  "small_Marshal (HSApply node token t) = (if length node < 256 \<and> length token < 256 \<and> one_byte t
     then Inr (enc_string node @ enc_string token @ [word_of_int t]) else Inl (ExtErr 4))"
| "small_Marshal (HSAccepted node token) = (if length node < 256 \<and> length token < 256
     then Inr (enc_string node @ enc_string token) else Inl (ExtErr 4))"
| "small_Marshal (HSRejected r) = (if one_byte r then Inr [word_of_int r] else Inl (ExtErr 4))"
| "small_Marshal HSCompleted = Inr []"
| "small_Marshal HSCompletedAck = Inr []"

fun small_Unmarshal :: "pb_type \<Rightarrow> byte list \<Rightarrow> gerror + hs_message" where
  "small_Unmarshal PB_HSApply bs = (case dec_string bs of None \<Rightarrow> Inl (ExtErr 5)
     | Some (node, bs1) \<Rightarrow> (case dec_string bs1 of None \<Rightarrow> Inl (ExtErr 5)
         | Some (token, bs2) \<Rightarrow> (case bs2 of [b] \<Rightarrow> Inr (HSApply node token (uint b)) | _ \<Rightarrow> Inl (ExtErr 5))))"
| "small_Unmarshal PB_HSAccepted bs = (case dec_string bs of None \<Rightarrow> Inl (ExtErr 5)
     | Some (node, bs1) \<Rightarrow> (case dec_string bs1 of None \<Rightarrow> Inl (ExtErr 5)
         | Some (token, bs2) \<Rightarrow> Inr (HSAccepted node token)))"
| "small_Unmarshal PB_HSRejected bs = (case bs of [b] \<Rightarrow> Inr (HSRejected (uint b)) | _ \<Rightarrow> Inl (ExtErr 5))"
| "small_Unmarshal PB_HSCompleted bs = Inr HSCompleted"
| "small_Unmarshal PB_HSCompletedAck bs = Inr HSCompletedAck"

record list_wire =
  lw_in :: "byte list"
  lw_out :: "byte list"
  lw_now :: int64

text \<open>At most three bytes come at a time.\<close>

definition wire_ops :: "list_wire hs_ops" where
  "wire_ops = \<lparr>
     hs_Read = (\<lambda>n e. if lw_in e = [] then (([], Some hs_EOF), e)
       else ((take (min n 3) (lw_in e), None), e\<lparr>lw_in := drop (min n 3) (lw_in e)\<rparr>)),
     hs_Write = (\<lambda>p e. (None, e\<lparr>lw_out := lw_out e @ p\<rparr>)),
     hs_SetReadDeadline = (\<lambda>t e. e), hs_SetWriteDeadline = (\<lambda>t e. e),
     hs_Now = (\<lambda>e. (lw_now e, e\<lparr>lw_now := lw_now e + 1\<rparr>)),
     pb_Marshal = small_Marshal, pb_Unmarshal = small_Unmarshal\<rparr>"

lemma small_Unmarshal_type: "small_Unmarshal pt bs = Inr m \<Longrightarrow> reflect_TypeOf m = pt"
  by (cases pt) (auto split: option.splits prod.splits list.splits)

lemma uint_one_byte: "one_byte n \<Longrightarrow> uint (word_of_int n :: byte) = n"
  by (simp add: one_byte_def uint_word_of_int)

lemma small_roundtrip: "small_Marshal m = Inr bs \<Longrightarrow> small_Unmarshal (reflect_TypeOf m) bs = Inr m"
  using dec_enc_string [of _ "[]"]
  by (cases m) (auto simp: dec_enc_string uint_one_byte simp del: enc_string.simps split: if_splits)

lemma wire_ops_laws: "handshake_library wire_ops lw_in lw_out (\<lambda>_. True)"
proof (unfold_locales, goal_cases)
  case (2 p e err e')
  then have "err = None" "e' = e\<lparr>lw_out := lw_out e @ p\<rparr>" by (simp_all add: wire_ops_def)
  then show ?case by (auto intro: exI [of _ "length p"])
qed (auto simp: wire_ops_def small_Unmarshal_type small_roundtrip split: if_splits)


section \<open>Properties\<close>

text \<open>C28: The package's \<open>init\<close> does not panic. It leaves a registry in which every one of the five
  messages has its protocol type and every such type creates an empty message of its struct, no
  other type creates any, and registering one of these types or structs once more panics.\<close>

theorem handshake_registry:
  "\<exists>m. handshakeHelper_init handshakeHelper_new = Normal m \<and>
    (\<forall>p. getProtoType m (Some p) = (pb_proto_type (reflect_TypeOf p), True)) \<and>
    (\<forall>pt p. (createPb m pt = Some p) = (\<exists>t. pt = pb_proto_type t \<and> p = reflect_New t)) \<and>
    getProtoType m None = (protoTypeUnknown, False) \<and>
    (\<forall>pt p. is_panic (regProtoPb pt p m))"
proof (rule exI [of _ the_helper], intro conjI allI)
  fix pt p
  note reg = registered_the_helper
  show "getProtoType the_helper (Some p) = (pb_proto_type (reflect_TypeOf p), True)"
    by (rule registered_simps(1) [OF reg])
  show "(createPb the_helper pt = Some p) = (\<exists>t. pt = pb_proto_type t \<and> p = reflect_New t)"
    using registered_simps(2,3) [OF reg] by metis
  show "is_panic (regProtoPb pt p the_helper)"
    using reg by (auto simp: regProtoPb_def registered_def split: option.split)
qed (simp_all add: handshakeHelper_init_run getProtoType_def)

text \<open>C23: A handshake message survives the connection. On a connection that works and a codec that
  decodes what it encodes, a message that can be encoded is written without error as one frame; on
  a connection that delivers this frame, in any pieces, the other end reads the same message,
  and asking for a certain type gets the message exactly if it has this type, an error otherwise.
  What follows the frame stays on the connection.\<close>

theorem handshake_message_roundtrip:
  assumes "handshake_library ops in_stream out_stream good"
    and "handshakeHelper_init handshakeHelper_new = Normal m"
    and "pb_Marshal ops p = Inr payload" and "length payload < 2 ^ 32" and "good e"
  shows "\<exists>e1. writeProto ops m p timeout e = (None, e1) \<and>
    out_stream e1 = out_stream e @ hs_frame p payload \<and>
    (\<forall>e2 rest. good e2 \<longrightarrow> in_stream e2 = hs_frame p payload @ rest \<longrightarrow>
      (\<exists>e3. readProto ops m timeout' e2 = Some (Inr p, e3) \<and> in_stream e3 = rest \<and>
        (\<exists>x. readHandshakeProto ops m Pt timeout' e2 =
           Some (if reflect_TypeOf p = Pt then Inr p else Inl x, e3))))"
proof -
  have reg: "registered m" using assms(2) registered_the_helper by (simp add: handshakeHelper_init_run)
  obtain err e1 where w: "writeProto ops m p timeout e = (err, e1)" by (cases "writeProto ops m p timeout e")
  have written: "err = None" "out_stream e1 = out_stream e @ hs_frame p payload"
    using handshake_library.writeProto_spec [OF assms(1) reg w] assms(3,5) by auto
  have read: "\<exists>e3. readProto ops m timeout' e2 = Some (Inr p, e3) \<and> in_stream e3 = rest \<and>
      (\<exists>x. readHandshakeProto ops m Pt timeout' e2 = Some (if reflect_TypeOf p = Pt then Inr p else Inl x, e3))"
    if "good e2" "in_stream e2 = hs_frame p payload @ rest" for e2 rest
    by (rule handshake_library.readProto_exact [OF assms(1) reg that(1) assms(3,4) that(2), of timeout'])
      (auto simp: readHandshakeProto_def)
  show ?thesis using w written read by blast
qed

lemma ex_frame:
  "hs_frame (HSAccepted ''b'' ''t'') [1, 98, 1, 116] = [2, 0, 0, 0, 0, 4, 1, 98, 1, 116]"
  "pb_Marshal wire_ops (HSAccepted ''b'' ''t'') = Inr [1, 98, 1, 116]"
  by (simp_all add: hs_frame_def mk_head_eq pb_proto_type_def pt_simps bigEndian_bytes_def wire_ops_def of_char_def)


theorem handshake_message_roundtrip_witness:
  "\<exists>e1. writeProto wire_ops the_helper (HSAccepted ''b'' ''t'') 5 \<lparr>lw_in = [], lw_out = [], lw_now = 0\<rparr> = (None, e1) \<and>
    lw_out e1 = [2, 0, 0, 0, 0, 4, 1, 98, 1, 116] \<and>
    (\<exists>e3. readProto wire_ops the_helper 5 \<lparr>lw_in = [2, 0, 0, 0, 0, 4, 1, 98, 1, 116, 9], lw_out = [], lw_now = 0\<rparr> =
      Some (Inr (HSAccepted ''b'' ''t''), e3) \<and> lw_in e3 = [9])"
proof -
  obtain e1 where e1: "writeProto wire_ops the_helper (HSAccepted ''b'' ''t'') 5 \<lparr>lw_in = [], lw_out = [], lw_now = 0\<rparr> = (None, e1)"
      "lw_out e1 = [2, 0, 0, 0, 0, 4, 1, 98, 1, 116]"
    and rd: "\<forall>e2 rest. lw_in e2 = [2, 0, 0, 0, 0, 4, 1, 98, 1, 116] @ rest \<longrightarrow>
      (\<exists>e3. readProto wire_ops the_helper 5 e2 = Some (Inr (HSAccepted ''b'' ''t''), e3) \<and> lw_in e3 = rest)"
    using handshake_message_roundtrip [OF wire_ops_laws handshakeHelper_init_run ex_frame(2), where
      e = "\<lparr>lw_in = [], lw_out = [], lw_now = 0\<rparr>" and timeout = 5 and timeout' = 5 and Pt = PB_HSAccepted]
    unfolding ex_frame(1) by fastforce
  show ?thesis
    using e1 rd [rule_format, of "\<lparr>lw_in = [2, 0, 0, 0, 0, 4, 1, 98, 1, 116, 9], lw_out = [], lw_now = 0\<rparr>" "[9]"]
    by simp
qed



section \<open>Reading in the establishing goroutines\<close>




end
