(* ===== verification/Connect_Result.thy ===== *)
theory Connect_Result
  imports System_Invariant
begin

text \<open>
  What \<open>Connect\<close> returns: which node a session value belongs to, through all operations of the
  service.
\<close>

section \<open>Sessions of a node\<close>

text \<open>\<open>r\<close> is a session with node \<open>n\<close>: the local one under the service's own name, or an allocated
  session object of that node.\<close>

definition of_node :: "('q, 't) service \<Rightarrow> node_id \<Rightarrow> sref \<Rightarrow> bool" where
  "of_node w n r = (case r of SLocal \<Rightarrow> n = cfg_NodeId (sv_cfg w)
     | SRemote i \<Rightarrow> i < sv_sessNext w \<and> ss_remoteNodeId (sv_sess w i) = n)"

text \<open>Exactly one of a session with \<open>n\<close> and an error.\<close>

definition result_ok :: "('q, 't) service \<Rightarrow> node_id \<Rightarrow> sref option \<Rightarrow> gerror option \<Rightarrow> bool" where
  "result_ok w n ro eo = (case ro of Some r \<Rightarrow> eo = None \<and> of_node w n r | None \<Rightarrow> eo \<noteq> None)"

definition est_result :: "('q, 't) service \<Rightarrow> establishment \<Rightarrow> bool" where
  "est_result w es \<longleftrightarrow> (em_isEnd es \<longrightarrow> result_ok w (em_remoteNodeId es) (em_session es) (em_err es))"

definition named :: "('q, 't) service \<Rightarrow> bool" where
  "named w \<longleftrightarrow> (\<forall>n r. sv_sessions w n = Some r \<longrightarrow> of_node w n r) \<and>
     (\<forall>e < sv_estNext w. est_result w (sv_est w e)) \<and>
     (\<forall>n e. sv_establishments w n = Some e \<longrightarrow> e < sv_estNext w \<and> em_remoteNodeId (sv_est w e) = n)"

text \<open>What never changes.\<close>

definition grows :: "('q, 't) service \<Rightarrow> ('q, 't) service \<Rightarrow> bool" where
  "grows w w' \<longleftrightarrow> sv_cfg w' = sv_cfg w \<and> sv_sessNext w \<le> sv_sessNext w' \<and> sv_estNext w \<le> sv_estNext w' \<and>
     (\<forall>i < sv_sessNext w. ss_remoteNodeId (sv_sess w' i) = ss_remoteNodeId (sv_sess w i)) \<and>
     (\<forall>e < sv_estNext w. em_remoteNodeId (sv_est w' e) = em_remoteNodeId (sv_est w e))"

lemma grows_refl [simp]: "grows w w"
  by (simp add: grows_def)

lemma grows_trans: "grows w w1 \<Longrightarrow> grows w1 w2 \<Longrightarrow> grows w w2"
  by (auto simp: grows_def)

lemma of_node_grows: "grows w w' \<Longrightarrow> of_node w n r \<Longrightarrow> of_node w' n r"
  by (auto simp: grows_def of_node_def split: sref.splits)

lemma result_ok_grows: "grows w w' \<Longrightarrow> result_ok w n ro eo \<Longrightarrow> result_ok w' n ro eo"
  by (auto simp: result_ok_def of_node_grows split: option.splits)

text \<open>Steps that leave the establishments and the names of the sessions alone, and add nothing to the
  maps.\<close>

definition shrinks :: "('q, 't) service \<Rightarrow> ('q, 't) service \<Rightarrow> bool" where
  "shrinks w w' \<longleftrightarrow> sv_cfg w' = sv_cfg w \<and> sv_sessions w' \<subseteq>\<^sub>m sv_sessions w \<and>
     sv_establishments w' \<subseteq>\<^sub>m sv_establishments w \<and> sv_sessNext w' = sv_sessNext w \<and>
     sv_estNext w' = sv_estNext w \<and> sv_est w' = sv_est w \<and>
     (\<forall>i. ss_remoteNodeId (sv_sess w' i) = ss_remoteNodeId (sv_sess w i))"

lemma shrinks_refl [simp]: "shrinks w w"
  by (simp add: shrinks_def)

lemma shrinks_trans: "shrinks w w1 \<Longrightarrow> shrinks w1 w2 \<Longrightarrow> shrinks w w2"
  unfolding shrinks_def using map_le_trans by metis

lemma shrinks_grows: "shrinks w w' \<Longrightarrow> grows w w'"
  by (simp add: shrinks_def grows_def)

lemma shrinks_named:
  assumes "shrinks w w'" and "named w"
  shows "named w'"
proof -
  have sub: "sv_sessions w n = Some r" if "sv_sessions w' n = Some r" for n r
    using assms(1) that unfolding shrinks_def map_le_def by (metis domI)
  have sub2: "sv_establishments w n = Some e" if "sv_establishments w' n = Some e" for n e
    using assms(1) that unfolding shrinks_def map_le_def by (metis domI)
  have of: "of_node w' n r = of_node w n r" for n r
    using assms(1) by (simp add: shrinks_def of_node_def split: sref.split)
  have "est_result w' es = est_result w es" for es
    by (simp add: est_result_def result_ok_def of split: option.split)
  moreover have "e < sv_estNext w' \<and> em_remoteNodeId (sv_est w' e) = n" if "sv_establishments w' n = Some e" for n e
    using assms sub2 [OF that] by (simp add: named_def shrinks_def)
  ultimately show ?thesis
    using assms sub of by (simp add: named_def shrinks_def)
qed

lemma map_le_delete [simp]: "snd (map_compareAndDelete k v m) \<subseteq>\<^sub>m m"
  by (simp add: map_compareAndDelete_def map_le_def)

lemma shrinks_sess:
  assumes "ss_remoteNodeId (f (sv_sess w i)) = ss_remoteNodeId (sv_sess w i)"
  shows "shrinks w (sess_update i f w)"
  using assms by (simp add: shrinks_def sess_update_def)

lemma lockState_id: "session_lockState need s = Normal (e, s') \<Longrightarrow> ss_remoteNodeId s' = ss_remoteNodeId s"
  by (auto simp: session_lockState_def split: if_splits option.splits)

lemma keepActive_id: "session_keepActive now s = Normal (e, s') \<Longrightarrow> ss_remoteNodeId s' = ss_remoteNodeId s"
  by (auto simp: session_keepActive_def session_simps split: option.splits)

lemma sendDirect_id: "ss_remoteNodeId (snd (session_sendDirect Q now p r s)) = ss_remoteNodeId s"
  by (simp add: session_simps)

lemma send_id: "session_send Q cfg now po r s = Normal (e, s') \<Longrightarrow> ss_remoteNodeId s' = ss_remoteNodeId s"
  by (auto simp: session_send_def split: option.splits if_splits) (metis sendDirect_id snd_conv)

lemma tickEnd_id:
  "ss_remoteNodeId (session_tickActiveEnd Q cfg now s) = ss_remoteNodeId s"
  "ss_remoteNodeId (session_tickPassiveEnd Q cfg now s) = ss_remoteNodeId s"
  by (simp_all add: session_tickActiveEnd_def session_tickPassiveEnd_def sendDirect_id Let_def)

lemma tick_id: "session_tick Q cfg now s = Normal s' \<Longrightarrow> ss_remoteNodeId s' = ss_remoteNodeId s"
  by (auto simp: session_tick_def tickEnd_id split: option.splits)

section \<open>Operations that shrink\<close>

lemma shrinks_startTicker: "startSessionTicker E now n w = Normal (tid, w') \<Longrightarrow> shrinks w w'"
  by (auto simp: startSessionTicker_def shrinks_def split: option.splits)

lemma shrinks_stopTicker: "stopSessionTicker E now tid w = Normal w' \<Longrightarrow> shrinks w w'"
  by (auto simp: stopSessionTicker_def shrinks_def split: option.splits)

lemma shrinks_conn: "shrinks w (close_conn c w)" "shrinks w (hs_write c m w)" "shrinks w (write_rejected c k w)"
  by (simp_all add: shrinks_def close_conn_def hs_write_def write_rejected_def)

lemma shrinks_onClosed: "shrinks w (onSessionClosed r w)"
  by (simp add: shrinks_def onSessionClosed_def sessionMap_compareAndDelete_def case_prod_beta)

lemma shrinks_closeBase:
  assumes "session_closeBaseLocked E now err locked i w = Normal w'"
  shows "shrinks w w'"
proof (cases "ss_state (sv_sess w i) = stateClosed")
  case True
  then show ?thesis using assms by (simp add: session_closeBaseLocked_def Let_def)
next
  case False
  let ?s1 = "(sv_sess w i)\<lparr>ss_state := stateClosed\<rparr>"
  let ?s2 = "if locked then session_unlockState ?s1 else ?s1"
  let ?s3 = "?s2\<lparr>ss_chClose := True, ss_core := False, ss_pendingPackets := q_close (env_Q E) (ss_pendingPackets ?s2)\<rparr>"
  let ?w1 = "close_conn (ss_conn (sv_sess w i)) (sess_update i (\<lambda>_. ?s3) w)"
  obtain w2 where w2: "stopSessionTicker E now (ss_tickTimerId ?s3) ?w1 = Normal w2"
    and w': "w' = onSessionClosed (SRemote i) (sess_update i (\<lambda>s. s\<lparr>ss_tickTimerId := TimerIdNone\<rparr>) w2)"
    using assms False by (auto simp: session_closeBaseLocked_def Let_def split: if_splits)
  have "shrinks w ?w1"
    by (rule shrinks_trans [OF shrinks_sess shrinks_conn(1)]) (simp add: session_unlockState_def)
  moreover have "shrinks w2 w'"
    unfolding w' by (rule shrinks_trans [OF shrinks_sess shrinks_onClosed]) simp
  ultimately show ?thesis using shrinks_stopTicker [OF w2] shrinks_trans by blast
qed

lemma shrinks_close: "session_close E now err i w = Normal w' \<Longrightarrow> shrinks w w'"
  by (simp add: session_close_def shrinks_closeBase)

lemma shrinks_start:
  assumes "session_start E now coreErr i w = Normal (err, w')"
  shows "shrinks w w'"
proof (cases "\<exists>e s. session_lockState stateInit (sv_sess w i) = Normal (Some e, s)")
  case True
  then show ?thesis using assms by (auto simp: session_start_def)
next
  case False
  then obtain s where s: "session_lockState stateInit (sv_sess w i) = Normal (None, s)"
    using assms by (auto simp: session_start_def)
  let ?w1 = "sess_update i (\<lambda>_. refreshActiveTime now s) w"
  obtain tid w2 where t: "startSessionTicker E now (ss_remoteNodeId s) ?w1 = Normal (tid, w2)"
    using assms s by (auto simp: session_start_def Let_def)
  let ?w3 = "sess_update i (\<lambda>s. s\<lparr>ss_tickTimerId := tid, ss_state := stateStarted\<rparr>) w2"
  have 1: "shrinks w ?w1" using lockState_id [OF s] by (intro shrinks_sess) (simp add: session_simps)
  have 3: "shrinks w2 ?w3" by (intro shrinks_sess) simp
  note w3 = shrinks_trans [OF 1 shrinks_trans [OF shrinks_startTicker [OF t] 3]]
  have unlock: "shrinks v (sess_update i session_unlockState v)" for v :: "('a, 'b) service"
    by (intro shrinks_sess) (simp add: session_unlockState_def)
  show ?thesis
  proof (cases coreErr)
    case None
    then have "w' = sess_update i session_unlockState ?w3"
      using assms s t by (auto simp: session_start_def Let_def split: if_splits)
    then show ?thesis using shrinks_trans [OF w3 unlock] by simp
  next
    case (Some e)
    then obtain w4 where "session_close E now e i ?w3 = Normal w4" "w' = sess_update i session_unlockState w4"
      using assms s t by (auto simp: session_start_def Let_def split: if_splits)
    then show ?thesis using shrinks_trans [OF w3 shrinks_trans [OF shrinks_close unlock]] by blast
  qed
qed

lemma shrinks_keepActive: "sref_keepActive now r w = Normal (e, w') \<Longrightarrow> shrinks w w'"
  by (auto simp: sref_keepActive_def keepActive_id intro!: shrinks_sess split: sref.splits)

lemma shrinks_GetSession:
  assumes "service_GetSession now n w = Normal (r, w')"
  shows "shrinks w w' \<and> (\<forall>x. r = Some x \<longrightarrow> sv_sessions w n = Some x)"
proof (cases "service_lockState stateStarted w = Normal None")
  case True
  then have g: "service_getSession now n w = Normal (r, w')" using assms by (simp add: service_GetSession_def)
  show ?thesis
  proof (cases "sv_sessions w n")
    case None
    then show ?thesis using g by (simp add: service_getSession_def sessionMap_get_def)
  next
    case (Some x)
    then show ?thesis
      using g by (auto simp: service_getSession_def sessionMap_get_def dest: shrinks_keepActive split: option.splits)
  qed
next
  case False
  then show ?thesis using assms by (auto simp: service_GetSession_def split: option.splits)
qed

lemma shrinks_Send: "sref_Send E now he b r w = Normal (e, w') \<Longrightarrow> shrinks w w'"
  by (auto simp: sref_Send_def service_onSessionBytes_def session_Send_def send_id shrinks_def
      intro!: shrinks_sess [unfolded shrinks_def] split: sref.splits)

lemma shrinks_tick: "sref_tick E now r w = Normal w' \<Longrightarrow> shrinks w w'"
  by (auto simp: sref_tick_def tick_id intro!: shrinks_sess split: sref.splits)

lemma shrinks_map_close: "sessionMap_close E now err order w = Normal w' \<Longrightarrow> shrinks w w'"
proof (induction E now err order w rule: sessionMap_close.induct)
  case (2 E now err k ks w)
  show ?case
  proof (cases "sv_sessions w k")
    case None
    then show ?thesis using 2 by simp
  next
    case (Some r)
    obtain w1 where w1: "sref_close E now err r w = Normal w1"
      "sessionMap_close E now err ks (w1\<lparr>sv_sessions := snd (map_compareAndDelete k r (sv_sessions w1))\<rparr>) = Normal w'"
      using 2(3) Some by (auto simp: Let_def)
    have "shrinks w w1" using w1(1) by (auto simp: sref_close_def dest: shrinks_close split: sref.splits)
    moreover have "shrinks w1 (w1\<lparr>sv_sessions := snd (map_compareAndDelete k r (sv_sessions w1))\<rparr>)"
      by (simp add: shrinks_def)
    ultimately show ?thesis using 2(2) [OF Some refl w1(2)] shrinks_trans by blast
  qed
qed simp

lemma shrinks_packet:
  assumes "SessionOnPacket E now he p i w = Normal (e, w')"
  shows "shrinks w w'"
proof (cases p)
  case (HeartbeatPacket b)
  then show ?thesis
    using assms by (auto simp: SessionOnPacket_def sessionHandleHeartbeat_def send_id intro!: shrinks_sess split: if_splits)
next
  case CloseReqPacket
  obtain err s where l: "session_lockState stateStarted (sv_sess w i) = Normal (err, s)"
    using assms CloseReqPacket by (auto simp: SessionOnPacket_def sessionHandleCloseReq_def)
  have id: "ss_remoteNodeId s = ss_remoteNodeId (sv_sess w i)" by (rule lockState_id [OF l])
  have "shrinks w (sess_update i (\<lambda>_. s) w)" "shrinks w (sess_update i (\<lambda>_. session_unlockState
      (snd (session_sendDirect (env_Q E) now (CloseRespPacket (closeResp_setPass False 0)) False s))) w)"
    using id by (auto intro!: shrinks_sess simp: session_unlockState_def sendDirect_id)
  then show ?thesis
    using assms CloseReqPacket l shrinks_closeBase shrinks_trans
    by (fastforce simp: SessionOnPacket_def sessionHandleCloseReq_def Let_def split: option.splits if_splits)
next
  case (CloseRespPacket b)
  then show ?thesis
    using assms by (auto simp: SessionOnPacket_def sessionHandleCloseResp_def dest: shrinks_close split: if_splits)
next
  case (RawPacket bs)
  have "shrinks w (sess_update i (refreshActiveTime now) w)" by (rule shrinks_sess) (simp add: session_simps)
  then show ?thesis
    using assms RawPacket
    by (auto simp: SessionOnPacket_def sessionHandleRaw_def service_onSessionBytes_def shrinks_def)
qed

lemma shrinks_onTicker:
  assumes "onSessionTicker pc n w = Normal w'"
  shows "shrinks w w'"
proof (cases "service_lockState stateStarted w")
  case (Normal err)
  then have "w' = w \<or> w' = w\<lparr>sv_cTickSessions := sv_cTickSessions w @ [n]\<rparr>"
    using assms by (cases err) (simp_all add: onSessionTicker_def Let_def split: if_splits)
  moreover have "shrinks w (w\<lparr>sv_cTickSessions := sv_cTickSessions w @ [n]\<rparr>)" by (simp add: shrinks_def)
  ultimately show ?thesis by auto
qed (use assms in \<open>simp_all add: onSessionTicker_def\<close>)

lemma shrinks_loop:
  assumes "service_loop_turn E pc now w = Normal (Some w')"
  shows "shrinks w w'"
proof (cases "sv_cTickSessions w \<noteq> [] \<and> \<not> (sv_cClosed w \<and> pc)")
  case True
  let ?w1 = "w\<lparr>sv_cTickSessions := tl (sv_cTickSessions w)\<rparr>"
  have 1: "shrinks w ?w1" by (simp add: shrinks_def)
  show ?thesis
  proof (cases "sessionMap_get (hd (sv_cTickSessions w)) ?w1")
    case None
    then show ?thesis using assms True 1 by (simp add: service_loop_turn_def Let_def)
  next
    case (Some r)
    then have "sref_tick E now r ?w1 = Normal w'" using assms True by (simp add: service_loop_turn_def Let_def)
    then show ?thesis by (rule shrinks_trans [OF 1 shrinks_tick])
  qed
next
  case False
  then have "service_loop_turn E pc now w = (if sv_cClosed w then Normal None else Blocked)"
    unfolding service_loop_turn_def by (rule if_not_P)
  then show ?thesis using assms by (simp split: if_splits)
qed

lemma shrinks_state: "shrinks w (w\<lparr>sv_state := st\<rparr>)" "shrinks w (w\<lparr>sv_listener := l, sv_state := st\<rparr>)"
  by (simp_all add: shrinks_def)

lemma shrinks_Start:
  assumes "service_Start le w = Normal (e, w')"
  shows "shrinks w w'"
proof (cases "service_lockState stateInit w")
  case (Normal err)
  then show ?thesis
    using assms shrinks_state by (cases err; cases le) (auto simp: service_Start_def)
qed (use assms in \<open>simp_all add: service_Start_def\<close>)

lemma shrinks_Close_mark: "service_Close_mark w = Normal (e, w') \<Longrightarrow> shrinks w w'"
  by (auto simp: service_Close_mark_def shrinks_state split: option.splits)

lemma shrinks_Close_rest:
  assumes "service_Close_rest E now order w = Normal w'"
  shows "shrinks w w'"
proof -
  let ?w1 = "w\<lparr>sv_cClosed := True\<rparr>"
  let ?w2 = "case sv_listener ?w1 of None \<Rightarrow> ?w1 | Some _ \<Rightarrow> ?w1\<lparr>sv_listener := Some False\<rparr>"
  have "sessionMap_close E now ErrServiceClosed order ?w2 = Normal w'"
    using assms by (simp add: service_Close_rest_def Let_def split: if_splits)
  moreover have "shrinks w ?w2" by (simp add: shrinks_def split: option.split)
  ultimately show ?thesis using shrinks_map_close shrinks_trans by blast
qed

end
