(* ===== verification/Connect_Steps.thy ===== *)
theory Connect_Steps
  imports Connect_Result
begin

text \<open>
  Every step of a goroutine keeps the names of sessions and establishments, and gives the result
  that \<open>Connect\<close> promises.
\<close>

section \<open>What a goroutine knows\<close>

text \<open>The establishment a goroutine refers to, whether it runs in a call of \<open>Connect\<close>, and the session
  of that establishment's node it has at hand.\<close>

fun est_of :: "pc \<Rightarrow> nat option" where
  "est_of (C_Wait e) = Some e"
| "est_of (A_Start e) = Some e"
| "est_of (A_Check e) = Some e"
| "est_of (A_EndWith e _) = Some e"
| "est_of (A_Dial e) = Some e"
| "est_of (A_Handshake e _) = Some e"
| "est_of (A_WriteApply e _) = Some e"
| "est_of (A_ReadResp e _) = Some e"
| "est_of (A_About e _) = Some e"
| "est_of (A_WriteCompleted e _) = Some e"
| "est_of (A_ReadAck e _) = Some e"
| "est_of (A_Success e _) = Some e"
| "est_of (A_Fail e _ _) = Some e"
| "est_of (P_Start e _ _) = Some e"
| "est_of (P_Check e _) = Some e"
| "est_of (P_EndWith e _) = Some e"
| "est_of (P_WriteAccepted e _) = Some e"
| "est_of (P_ReadReply e _) = Some e"
| "est_of (P_WriteAck e _) = Some e"
| "est_of (P_Success e _) = Some e"
| "est_of (P_Fail e _ _) = Some e"
| "est_of (P_Wait e) = Some e"
| "est_of (E_Create _ e _ _) = Some e"
| "est_of (E_Check _ e _) = Some e"
| "est_of (E_Commit _ e _) = Some e"
| "est_of (E_Finish _ e _) = Some e"
| "est_of _ = None"

fun in_Connect :: "pc \<Rightarrow> bool" where
  "in_Connect (P_Start _ _ _) = False"
| "in_Connect (P_Check _ _) = False"
| "in_Connect (P_EndWith _ _) = False"
| "in_Connect (P_WriteAccepted _ _) = False"
| "in_Connect (P_ReadReply _ _) = False"
| "in_Connect (P_WriteAck _ _) = False"
| "in_Connect (P_Success _ _) = False"
| "in_Connect (P_Fail _ _ _) = False"
| "in_Connect (P_Wait _) = False"
| "in_Connect (E_Create r _ _ _) = (r = ActiveSide)"
| "in_Connect (E_Check r _ _) = (r = ActiveSide)"
| "in_Connect (E_Commit r _ _) = (r = ActiveSide)"
| "in_Connect (E_Finish r _ _) = (r = ActiveSide)"
| "in_Connect _ = True"

fun has_session :: "pc \<Rightarrow> sref option" where
  "has_session (A_EndWith _ r) = Some r"
| "has_session (P_EndWith _ r) = Some r"
| "has_session (E_Check _ _ i) = Some (SRemote i)"
| "has_session (E_Commit _ _ i) = Some (SRemote i)"
| "has_session (E_Finish _ _ i) = Some (SRemote i)"
| "has_session _ = None"

definition th_ok :: "('q, 't) service \<Rightarrow> node_id \<Rightarrow> pc \<Rightarrow> bool" where
  "th_ok w me pc \<longleftrightarrow>
     (case est_of pc of None \<Rightarrow> True
      | Some e \<Rightarrow> e < sv_estNext w \<and> (in_Connect pc \<longrightarrow> em_remoteNodeId (sv_est w e) = me) \<and>
          (case has_session pc of None \<Rightarrow> True | Some r \<Rightarrow> of_node w (em_remoteNodeId (sv_est w e)) r)) \<and>
     (\<forall>ro eo. pc = C_Done ro eo \<longrightarrow> result_ok w me ro eo)"

lemma th_ok_grows: "grows w w' \<Longrightarrow> th_ok w me pc \<Longrightarrow> th_ok w' me pc"
proof -
  assume g: "grows w w'" and th: "th_ok w me pc"
  have "e < sv_estNext w' \<and> em_remoteNodeId (sv_est w' e) = em_remoteNodeId (sv_est w e)" if "e < sv_estNext w" for e
    using g that by (simp add: grows_def)
  then show ?thesis
    using th of_node_grows [OF g] result_ok_grows [OF g]
    by (auto simp: th_ok_def split: option.splits)
qed

text \<open>A step of a goroutine that keeps all this.\<close>

definition keeps :: "node_id \<Rightarrow> ('q, 't) service \<Rightarrow> (pc \<times> ('q, 't) service) outcome \<Rightarrow> bool" where
  "keeps me w r = (case r of Normal (pc', w') \<Rightarrow> named w' \<and> grows w w' \<and> th_ok w' me pc' | _ \<Rightarrow> True)"

lemma keeps_simps [simp]:
  "keeps me w (Normal (pc', w')) = (named w' \<and> grows w w' \<and> th_ok w' me pc')"
  "keeps me w Blocked" "keeps me w (Panic m)"
  by (simp_all add: keeps_def)

lemma keeps_bind:
  "(\<And>x. m = Normal x \<Longrightarrow> keeps me w (f x)) \<Longrightarrow> keeps me w (obind m f)"
  by (cases m) simp_all

lemma keeps_trans: "grows w w1 \<Longrightarrow> keeps me w1 r \<Longrightarrow> keeps me w r"
  by (auto simp: keeps_def grows_trans split: outcome.splits)

text \<open>A step that shrinks, and goes on with the same knowledge.\<close>

definition same_knowledge :: "pc \<Rightarrow> pc \<Rightarrow> bool" where
  "same_knowledge pc pc' \<longleftrightarrow> est_of pc' = est_of pc \<and> (in_Connect pc' \<longrightarrow> in_Connect pc) \<and>
     has_session pc' = None \<and> (\<forall>ro eo. pc' \<noteq> C_Done ro eo)"

lemma th_ok_same:
  assumes "th_ok w me pc" and "same_knowledge pc pc'"
  shows "th_ok w me pc'"
proof -
  have k: "est_of pc' = est_of pc" "in_Connect pc' \<Longrightarrow> in_Connect pc" "has_session pc' = None" "\<And>r x. pc' \<noteq> C_Done r x"
    using assms(2) unfolding same_knowledge_def by blast+
  show ?thesis
  proof (cases "est_of pc")
    case None
    then show ?thesis by (simp add: th_ok_def k(1,4))
  next
    case (Some e)
    have "e < sv_estNext w \<and> (in_Connect pc \<longrightarrow> em_remoteNodeId (sv_est w e) = me)"
      using assms(1) Some by (simp add: th_ok_def)
    then show ?thesis using k(2) by (simp add: th_ok_def Some k(1,3,4))
  qed
qed

lemma keeps_stay:
  assumes "shrinks w w'" and "named w" and "th_ok w me pc" and "same_knowledge pc pc'"
  shows "keeps me w (Normal (pc', w'))"
  using assms shrinks_named shrinks_grows th_ok_grows th_ok_same by (metis keeps_simps(1))

section \<open>Updates of an establishment\<close>

lemma of_node_est: "of_node (est_update e f w) n r = of_node w n r"
  by (simp add: of_node_def est_update_def split: sref.split)

lemma result_ok_est: "result_ok (est_update e f w) n ro eo = result_ok w n ro eo"
  by (simp add: result_ok_def of_node_est split: option.split)

lemma est_result_est: "est_result (est_update e f w) es = est_result w es"
  by (simp add: est_result_def result_ok_est)

lemma named_est:
  assumes "named w" and "em_remoteNodeId (f (sv_est w e)) = em_remoteNodeId (sv_est w e)"
    and "e < sv_estNext w \<Longrightarrow> est_result w (f (sv_est w e))"
  shows "named (est_update e f w) \<and> grows w (est_update e f w)"
proof
  show "grows w (est_update e f w)" using assms(2) by (simp add: grows_def est_update_def)
  have n: "em_remoteNodeId (sv_est (est_update e f w) d) = em_remoteNodeId (sv_est w d)" for d
    using assms(2) by (simp add: est_update_def)
  have r: "est_result w (sv_est (est_update e f w) d)" if "d < sv_estNext w" for d
    using that assms(1,3) by (simp add: est_update_def named_def)
  show "named (est_update e f w)"
    using assms(1) r unfolding named_def of_node_est est_result_est n by (simp add: est_update_def)
qed

text \<open>Everything but the end leaves the result alone.\<close>

definition same_res :: "establishment \<Rightarrow> establishment \<Rightarrow> bool" where
  "same_res es es' \<longleftrightarrow> em_remoteNodeId es' = em_remoteNodeId es \<and> em_isEnd es' = em_isEnd es \<and>
     em_session es' = em_session es \<and> em_err es' = em_err es"

lemma est_result_same: "same_res es es' \<Longrightarrow> est_result w es' = est_result w es"
  by (simp add: same_res_def est_result_def)

lemma same_res_locked [simp]: "same_res es (es\<lparr>em_locked := b\<rparr>)"
  by (simp add: same_res_def em_isEnd_def)

lemma same_res_ops:
  "em_startActive t es = (ok, es') \<Longrightarrow> same_res es es'"
  "em_startPassive t es = (ok, es') \<Longrightarrow> same_res es es'"
  "em_startActiveHandshake es = (ok, es') \<Longrightarrow> same_res es es'"
  "em_activeAboutSuccess es = (ok, es') \<Longrightarrow> same_res es es'"
  "em_activeSuccess c es = (ok, es') \<Longrightarrow> same_res es es'"
  "em_activeFail x es = (ok, es') \<Longrightarrow> same_res es es'"
  "em_passiveSuccess c es = (ok, es') \<Longrightarrow> same_res es es'"
  "em_passiveFail x es = (ok, es') \<Longrightarrow> same_res es es'"
  by (auto simp: em_startActive_def em_startPassive_def em_startActiveHandshake_def em_activeAboutSuccess_def
      em_activeSuccess_def em_activeFail_def em_passiveSuccess_def em_passiveFail_def same_res_def
      em_isEnd_def em_changeState_def state_simps Let_def split: if_splits option.splits prod.splits)

lemma keeps_est:
  assumes "shrinks w w1" and "named w" and "th_ok w me pc" and "same_knowledge pc pc'"
    and "same_res (sv_est w e) (f (sv_est w e))"
  shows "keeps me w (Normal (pc', est_update e f w1))"
proof -
  have w1: "named w1" "grows w w1" "sv_est w1 = sv_est w"
    using assms(1,2) shrinks_named shrinks_grows by (auto simp: shrinks_def)
  have est: "est_result w1 (f (sv_est w1 e))" if "e < sv_estNext w1"
    using w1(1) that est_result_same [OF assms(5), of w1] by (simp add: named_def w1(3))
  have "named (est_update e f w1) \<and> grows w1 (est_update e f w1)"
    by (rule named_est [OF w1(1)]) (use assms(5) est in \<open>simp_all add: w1(3) same_res_def\<close>)
  then show ?thesis
    using grows_trans [OF w1(2)] th_ok_grows [OF _ th_ok_same [OF assms(3,4)]] by simp
qed

text \<open>The end sets a result, unless there is one.\<close>

lemma end_result:
  assumes "em_end ro eo es = Normal es'" and "est_result w es" and "result_ok w (em_remoteNodeId es) ro eo"
  shows "est_result w es' \<and> em_remoteNodeId es' = em_remoteNodeId es"
  using assms by (auto simp: em_end_def em_changeState_def est_result_def Let_def split: if_splits)

lemma named_end:
  assumes "named w" and "e < sv_estNext w" and "em_end ro eo (sv_est w e) = Normal es"
    and "result_ok w (em_remoteNodeId (sv_est w e)) ro eo"
  shows "named (est_update e (\<lambda>_. es) w) \<and> grows w (est_update e (\<lambda>_. es) w)"
proof -
  have "est_result w (sv_est w e)" using assms(1,2) by (simp add: named_def)
  from end_result [OF assms(3) this assms(4)] show ?thesis by (intro named_est [OF assms(1)]) simp_all
qed

lemma named_failed:
  assumes "named w" and "e < sv_estNext w" and "establishEndFailed err e w = Normal w'"
  shows "named w' \<and> grows w w'"
proof -
  obtain es where es: "em_end None (Some err) (sv_est w e) = Normal es"
    and w': "w' = (est_update e (\<lambda>_. es) w)\<lparr>sv_establishments :=
      snd (map_compareAndDelete (em_remoteNodeId es) e (sv_establishments (est_update e (\<lambda>_. es) w)))\<rparr>"
    using assms(3) by (auto simp: establishEndFailed_def Let_def)
  have 1: "named (est_update e (\<lambda>_. es) w) \<and> grows w (est_update e (\<lambda>_. es) w)"
    by (rule named_end [OF assms(1,2) es]) (simp add: result_ok_def)
  have 2: "shrinks (est_update e (\<lambda>_. es) w) w'" unfolding w' by (simp add: shrinks_def)
  show ?thesis using 1 shrinks_named [OF 2] shrinks_grows [OF 2] grows_trans by blast
qed

section \<open>Finding the establishment\<close>

lemma named_obtain:
  assumes "named w" and "getOrCreateEstablishment missed n w = (e, w')"
  shows "named w' \<and> grows w w' \<and> e < sv_estNext w' \<and> em_remoteNodeId (sv_est w' e) = n"
proof -
  have add: "named w1 \<and> grows w w1"
    if w1: "w1 = w\<lparr>sv_est := (sv_est w)(sv_estNext w := es), sv_estNext := Suc (sv_estNext w), sv_establishments := m\<rparr>"
      and es: "\<not> em_isEnd es" and m: "\<And>k d. m k = Some d \<Longrightarrow> sv_establishments w k = Some d \<or>
        d = sv_estNext w \<and> k = em_remoteNodeId es" for w1 es m
  proof -
    have r: "of_node w1 k r = of_node w k r" for k r by (simp add: of_node_def w1 split: sref.split)
    have "est_result w1 d = est_result w d" for d by (simp add: est_result_def result_ok_def r split: option.split)
    moreover have "d < Suc (sv_estNext w) \<and> em_remoteNodeId (((sv_est w)(sv_estNext w := es)) d) = k"
      if "m k = Some d" for k d
      using m [OF that] assms(1) unfolding named_def by (auto simp: less_Suc_eq)
    moreover have "est_result w (((sv_est w)(sv_estNext w := es)) d)" if "d < Suc (sv_estNext w)" for d
      using that assms(1) es by (auto simp: named_def est_result_def less_Suc_eq)
    ultimately show ?thesis
      using assms(1) unfolding named_def r by (simp add: w1 grows_def)
  qed
  show ?thesis
  proof (cases "sv_establishments w n")
    case None
    have "w' = w\<lparr>sv_est := (sv_est w)(sv_estNext w := new_establishment n), sv_estNext := Suc (sv_estNext w),
        sv_establishments := (sv_establishments w)(n \<mapsto> sv_estNext w)\<rparr>" "e = sv_estNext w"
      using assms(2) None by (auto simp: getOrCreateEstablishment_def)
    moreover from this(1) have "named w' \<and> grows w w'"
      by (rule add) (auto simp: new_establishment_def em_isEnd_def state_simps split: if_splits)
    ultimately show ?thesis by (simp add: new_establishment_def)
  next
    case (Some d)
    have d: "d < sv_estNext w" "em_remoteNodeId (sv_est w d) = n" using assms(1) Some by (simp_all add: named_def)
    show ?thesis
    proof (cases missed)
      case True
      let ?es = "(new_establishment n)\<lparr>em_chEnd := True\<rparr>"
      have "w' = w\<lparr>sv_est := (sv_est w)(sv_estNext w := ?es), sv_estNext := Suc (sv_estNext w)\<rparr>" "e = d"
        using assms(2) Some True by (simp_all add: getOrCreateEstablishment_def)
      moreover have "named w' \<and> grows w w'"
        by (rule add [of _ "sv_establishments w" ?es])
          (simp_all add: calculation(1) new_establishment_def em_isEnd_def state_simps)
      ultimately show ?thesis using d by simp
    next
      case False
      then show ?thesis using assms Some d by (simp add: getOrCreateEstablishment_def)
    qed
  qed
qed

section \<open>The steps\<close>

lemma shrinks_getSession: "service_getSession now n w = Normal (r, w') \<Longrightarrow> shrinks w w'"
  by (auto simp: service_getSession_def dest: shrinks_keepActive split: option.splits)

lemma keeps_done: "shrinks w w' \<Longrightarrow> named w \<Longrightarrow> est_of pc' = None \<Longrightarrow> \<forall>ro eo. pc' \<noteq> C_Done ro eo \<Longrightarrow>
    keeps me w (Normal (pc', w'))"
  by (auto simp: th_ok_def shrinks_named shrinks_grows split: option.splits)

lemma keeps_found:
  assumes "shrinks w w1" and "named w" and "getOrCreateEstablishment missed n w1 = (e, w2)"
    and "est_of pc' = Some e" and "in_Connect pc' \<Longrightarrow> n = me" and "has_session pc' = None"
  shows "keeps me w (Normal (pc', w2))"
proof -
  have "named w1" "grows w w1" using assms(1,2) shrinks_named shrinks_grows by blast+
  moreover have "\<forall>ro eo. pc' \<noteq> C_Done ro eo" using assms(4) by auto
  ultimately show ?thesis
    using named_obtain [OF _ assms(3)] assms(4-6) grows_trans [of w w1 w2]
    by (auto simp: th_ok_def split: option.splits)
qed

lemma keeps_Connect_obtain:
  assumes "named w"
  shows "keeps me w (Connect_obtain missed me w)"
  unfolding Connect_obtain_def
proof (rule keeps_bind)
  fix err assume "service_lockState stateStarted w = Normal err"
  obtain e w' where g: "getOrCreateEstablishment missed me w = (e, w')" by fastforce
  have "keeps me w (Normal (A_Start e, w'))"
    using assms g by (intro keeps_found [of w w missed me e w']) simp_all
  then show "keeps me w (case err of Some e \<Rightarrow> Normal (C_Done None (Some e), w)
      | None \<Rightarrow> (case getOrCreateEstablishment missed me w of (eid, w1) \<Rightarrow> Normal (A_Start eid, w1)))"
    using assms by (auto simp: g th_ok_def result_ok_def split: option.split)
qed

lemma keeps_onPassiveConn_obtain:
  assumes "named w"
  shows "keeps me w (onPassiveConn_obtain now missed c n t w)"
  unfolding onPassiveConn_obtain_def
proof (rule keeps_bind)
  fix err assume "service_lockState stateStarted w = Normal err"
  have close: "keeps me w (Normal (P_Done, close_conn c w))"
    using assms shrinks_conn by (intro keeps_done) simp_all
  have "keeps me w (obind (service_getSession now n w) (\<lambda>(session, w1).
      case session of Some _ \<Rightarrow> Normal (P_Done, close_conn c (write_rejected c HSRejectedReason_SessionEstablished w1))
      | None \<Rightarrow> (case getOrCreateEstablishment missed n w1 of (eid, w2) \<Rightarrow> Normal (P_Start eid c t, w2))))"
  proof (rule keeps_bind, clarify)
    fix session w1
    assume g: "service_getSession now n w = Normal (session, w1)"
    obtain e w2 where o: "getOrCreateEstablishment missed n w1 = (e, w2)" by fastforce
    have "keeps me w (Normal (P_Start e c t, w2))"
      using assms o by (intro keeps_found [OF shrinks_getSession [OF g] _ o]) simp_all
    moreover have "keeps me w (Normal (P_Done, close_conn c (write_rejected c HSRejectedReason_SessionEstablished w1)))"
      using shrinks_trans [OF shrinks_getSession [OF g] shrinks_trans [OF shrinks_conn(3) shrinks_conn(1)]] assms
      by (intro keeps_done) simp_all
    ultimately show "keeps me w (case session of
        Some _ \<Rightarrow> Normal (P_Done, close_conn c (write_rejected c HSRejectedReason_SessionEstablished w1))
      | None \<Rightarrow> (case getOrCreateEstablishment missed n w1 of (eid, w2) \<Rightarrow> Normal (P_Start eid c t, w2)))"
      by (simp add: o split: option.split)
  qed
  then show "keeps me w (case err of Some _ \<Rightarrow> Normal (P_Done, close_conn c w)
      | None \<Rightarrow> obind (service_getSession now n w) (\<lambda>(session, w1).
      case session of Some _ \<Rightarrow> Normal (P_Done, close_conn c (write_rejected c HSRejectedReason_SessionEstablished w1))
      | None \<Rightarrow> (case getOrCreateEstablishment missed n w1 of (eid, w2) \<Rightarrow> Normal (P_Start eid c t, w2))))"
    using close by (simp split: option.split)
qed

text \<open>\<open>GetSession\<close> in between: what it finds is a session of the node asked for.\<close>

lemma GetSession_of:
  assumes "named w" and "service_GetSession now n w = Normal (r, w')"
  shows "shrinks w w' \<and> named w' \<and> grows w w' \<and> (\<forall>x. r = Some x \<longrightarrow> of_node w' n x)"
proof -
  have "shrinks w w'" "\<forall>x. r = Some x \<longrightarrow> of_node w n x"
    using shrinks_GetSession [OF assms(2)] assms(1) by (auto simp: named_def)
  then show ?thesis using assms(1) shrinks_named shrinks_grows of_node_grows by blast
qed

lemma keeps_Connect_enter:
  assumes "named w"
  shows "keeps me w (Connect_enter now me w)"
  unfolding Connect_enter_def
proof (rule keeps_bind, clarify)
  fix r w' assume "service_GetSession now me w = Normal (r, w')"
  from GetSession_of [OF assms this] show "keeps me w (case r of
      Some r \<Rightarrow> Normal (C_Done (Some r) None, w') | None \<Rightarrow> Normal (C_Obtain, w'))"
    by (auto simp: th_ok_def result_ok_def split: option.split)
qed

lemma keeps_Connect_wait:
  assumes "named w" and "th_ok w me (C_Wait e)" and "em_chEnd (sv_est w e) = em_isEnd (sv_est w e)"
  shows "keeps me w (Connect_wait now me e w)"
  unfolding Connect_wait_def
proof (rule keeps_bind, clarify)
  fix session err assume wt: "em_wait (sv_est w e) = Normal (session, err)"
  have e: "e < sv_estNext w" "em_remoteNodeId (sv_est w e) = me" using assms(2) by (simp_all add: th_ok_def)
  have "result_ok w me session err"
    using wt assms(1,3) e by (auto simp: em_wait_def named_def est_result_def split: if_splits)
  moreover have "keeps me w (obind (service_GetSession now me w) (\<lambda>(session', w1).
      case session' of Some r \<Rightarrow> Normal (C_Done (Some r) None, w1) | None \<Rightarrow> Normal (C_Done None (Some x), w1)))" for x
  proof (rule keeps_bind, clarify)
    fix r w' assume "service_GetSession now me w = Normal (r, w')"
    from GetSession_of [OF assms(1) this] show "keeps me w (case r of
        Some r \<Rightarrow> Normal (C_Done (Some r) None, w') | None \<Rightarrow> Normal (C_Done None (Some x), w'))"
      by (auto simp: th_ok_def result_ok_def split: option.split)
  qed
  ultimately show "keeps me w (case err of None \<Rightarrow> Normal (C_Done session None, w)
      | Some e \<Rightarrow> obind (service_GetSession now me w) (\<lambda>(session', w1).
          case session' of Some r \<Rightarrow> Normal (C_Done (Some r) None, w1) | None \<Rightarrow> Normal (C_Done None (Some e), w1)))"
    using assms(1) by (auto simp: th_ok_def split: option.split)
qed

subsection \<open>Starting a direction\<close>

lemmas knowledge_defs = same_knowledge_def th_ok_def

lemma keeps_start:
  assumes "named w"
  shows "th_ok w me (A_Start e) \<Longrightarrow> keeps me w (startActiveEstablish now e w)"
    and "th_ok w me (P_Start e c t) \<Longrightarrow> keeps me w (startPassiveEstablish e c t w)"
    and "th_ok w me (A_Handshake e c) \<Longrightarrow> keeps me w (activeEstablishHandshake_begin e c w)"
    and "th_ok w me (A_About e c) \<Longrightarrow> keeps me w (activeEstablishAboutSuccess_begin e c w)"
proof -
  have same: "keeps me w (Normal (pc', est_update e (\<lambda>_. es) w))"
    if "th_ok w me pc" "same_knowledge pc pc'" "same_res (sv_est w e) es" for pc pc' es
    using that by (intro keeps_est [OF shrinks_refl assms]) simp_all
  show "keeps me w (startActiveEstablish now e w)" if "th_ok w me (A_Start e)"
  proof (cases "em_locked (sv_est w e)")
    case False
    obtain ok es where s: "em_startActive (sint now) (sv_est w e) = (ok, es)"
      by (cases "em_startActive (sint now) (sv_est w e)")
    have "keeps me w (Normal (if ok then A_Check e else C_Wait e, est_update e (\<lambda>_. es) w))"
      using same_res_ops(1) [OF s] by (intro same [OF that]) (simp_all add: same_knowledge_def)
    then show ?thesis using s False by (simp add: startActiveEstablish_def)
  qed (simp add: startActiveEstablish_def)
  show "keeps me w (activeEstablishHandshake_begin e c w)" if "th_ok w me (A_Handshake e c)"
  proof (cases "em_locked (sv_est w e)")
    case False
    obtain ok es where s: "em_startActiveHandshake (sv_est w e) = (ok, es)"
      by (cases "em_startActiveHandshake (sv_est w e)")
    have "keeps me w (Normal (if ok then A_WriteApply e c else C_Wait e, est_update e (\<lambda>_. es) w))"
      using same_res_ops(3) [OF s] by (intro same [OF that]) (simp_all add: same_knowledge_def)
    then show ?thesis using s False by (simp add: activeEstablishHandshake_begin_def)
  qed (simp add: activeEstablishHandshake_begin_def)
  have about: "same_res es (snd (em_activeAboutSuccess es))" for es
    using same_res_ops(4) [of es] by (metis prod.collapse)
  show "keeps me w (activeEstablishAboutSuccess_begin e c w)" if "th_ok w me (A_About e c)"
    using keeps_est [OF shrinks_refl assms that, where pc' = "A_WriteCompleted e c" and
      f = "\<lambda>es. snd (em_activeAboutSuccess es)" and e = e] about
    by (auto simp: activeEstablishAboutSuccess_begin_def same_knowledge_def)
  show "keeps me w (startPassiveEstablish e c t w)" if pc: "th_ok w me (P_Start e c t)"
  proof (cases "em_locked (sv_est w e)")
    case False
    obtain ok es where s: "em_startPassive t (sv_est w e) = (ok, es)" by (cases "em_startPassive t (sv_est w e)")
    have ok: "keeps me w (Normal (P_Check e c, est_update e (\<lambda>_. es) w))"
      using same_res_ops(2) [OF s] by (intro same [OF pc]) (simp_all add: same_knowledge_def)
    then have "named (est_update e (\<lambda>_. es) w)" "grows w (est_update e (\<lambda>_. es) w)" by simp_all
    moreover have "shrinks v (close_conn c (write_rejected c k v))" for v :: "('a, 'b) service" and k
      using shrinks_trans [OF shrinks_conn(3) shrinks_conn(1)] by blast
    ultimately have rejected: "keeps me w (Normal (P_Done, close_conn c (write_rejected c k (est_update e (\<lambda>_. es) w))))" for k
      by (intro keeps_trans [OF _ keeps_done]) simp_all
    show ?thesis
      using ok rejected False
      by (cases ok) (simp_all only: startPassiveEstablish_def Let_def s if_True if_False prod.case simp_thms)
  qed (simp add: startPassiveEstablish_def)
qed

lemma keeps_check:
  assumes "named w"
  shows "th_ok w me (A_Check e) \<Longrightarrow> keeps me w (startActiveEstablish_check now e w)"
    and "th_ok w me (P_Check e c) \<Longrightarrow> keeps me w (startPassiveEstablish_check now e c w)"
proof -
  have found: "keeps me w (Normal (pc', w1))"
    if "service_GetSession now (em_remoteNodeId (sv_est w e)) w = Normal (r, w1)" "th_ok w me pc" "est_of pc = Some e"
      "est_of pc' = Some e" "in_Connect pc' = in_Connect pc" "\<forall>ro eo. pc' \<noteq> C_Done ro eo" "has_session pc' = r"
    for r w1 pc pc'
  proof -
    note g = GetSession_of [OF assms that(1)]
    then have "sv_est w1 = sv_est w" by (simp add: shrinks_def)
    then show ?thesis
      using g that th_ok_grows [of w w1 me pc] by (auto simp: th_ok_def split: option.splits)
  qed
  show "keeps me w (startActiveEstablish_check now e w)" if "th_ok w me (A_Check e)"
    unfolding startActiveEstablish_check_def
  proof (rule keeps_bind, clarify)
    fix r w1 assume g: "service_GetSession now (em_remoteNodeId (sv_est w e)) w = Normal (r, w1)"
    show "keeps me w (case r of Some r \<Rightarrow> Normal (A_EndWith e r, w1) | None \<Rightarrow> Normal (A_Dial e, w1))"
      using found [OF g that, of "A_Dial e"] found [OF g that, of "A_EndWith e (the r)"] by (cases r) simp_all
  qed
  show "keeps me w (startPassiveEstablish_check now e c w)" if "th_ok w me (P_Check e c)"
    unfolding startPassiveEstablish_check_def
  proof (rule keeps_bind, clarify)
    fix r w1 assume g: "service_GetSession now (em_remoteNodeId (sv_est w e)) w = Normal (r, w1)"
    show "keeps me w (case r of Some r \<Rightarrow> Normal (P_EndWith e r, w1) | None \<Rightarrow> Normal (P_WriteAccepted e c, w1))"
      using found [OF g that, of "P_WriteAccepted e c"] found [OF g that, of "P_EndWith e (the r)"] by (cases r) simp_all
  qed
qed

lemma keeps_end_with:
  assumes "named w"
  shows "th_ok w me (A_EndWith e r) \<Longrightarrow> keeps me w (startActiveEstablish_end e r w)"
    and "th_ok w me (P_EndWith e r) \<Longrightarrow> keeps me w (startPassiveEstablish_end e r w)"
proof -
  have ended: "keeps me w (Normal (pc', w1))"
    if w1: "establish_end_with e r w = Normal w1" and pc: "th_ok w me pc" "est_of pc = Some e" "has_session pc = Some r"
      and k: "same_knowledge pc pc'" for w1 pc pc'
  proof -
    obtain es where es: "em_end (Some r) None (sv_est w e) = Normal es" "w1 = est_update e (\<lambda>_. es) w"
      using w1 by (auto simp: establish_end_with_def split: if_splits)
    have e: "e < sv_estNext w" "of_node w (em_remoteNodeId (sv_est w e)) r"
      using pc by (auto simp: th_ok_def)
    have "named w1 \<and> grows w w1"
      unfolding es(2) by (rule named_end [OF assms e(1) es(1)]) (simp add: result_ok_def e(2))
    then show ?thesis using th_ok_grows th_ok_same [OF pc(1) k] by auto
  qed
  show "keeps me w (startActiveEstablish_end e r w)" if "th_ok w me (A_EndWith e r)"
    unfolding startActiveEstablish_end_def
    by (rule keeps_bind, rule ended [OF _ that]) (simp_all add: same_knowledge_def)
  show "keeps me w (startPassiveEstablish_end e r w)" if "th_ok w me (P_EndWith e r)"
    unfolding startPassiveEstablish_end_def
    by (rule keeps_bind, rule ended [OF _ that]) (simp_all add: same_knowledge_def)
qed

subsection \<open>The end of a direction\<close>

lemma th_ok_wait_create:
  "th_ok w me (wait_pc role e) \<Longrightarrow> th_ok w me (E_Create role e c a)"
  by (cases role) (simp_all add: th_ok_def)

lemma keeps_enter:
  assumes "named w" and "th_ok w me (wait_pc role e)"
  shows "keeps me w (establishEnd_enter role e w)"
proof (cases "em_isEnd (sv_est w e)")
  case True
  then show ?thesis using assms by (simp add: establishEnd_enter_def Let_def)
next
  case False
  define ch where "ch = establishEnd_choice (cfg_NodeId (sv_cfg w)) (sv_est w e)"
  define w1 where "w1 = (case ec_loser ch of None \<Rightarrow> w | Some l \<Rightarrow> close_conn l w)"
  have s: "shrinks w w1" unfolding w1_def by (simp add: shrinks_conn split: option.split)
  then have w1: "named w1" "grows w w1" using assms(1) shrinks_named shrinks_grows by blast+
  have e: "e < sv_estNext w1"
    using assms(2) s by (cases role) (simp_all add: th_ok_def shrinks_def)
  have fail: "keeps me w (obind (establishEndFailed x e w1) (\<lambda>w2. Normal (wait_pc role e, w2)))" for x
  proof (rule keeps_bind)
    fix w2 assume "establishEndFailed x e w1 = Normal w2"
    from named_failed [OF w1(1) e this] show "keeps me w (Normal (wait_pc role e, w2))"
      using grows_trans [OF w1(2)] th_ok_grows [OF _ assms(2)] by simp
  qed
  have th: "th_ok w me (E_Create role e c a)" for c a using th_ok_wait_create [OF assms(2)] .
  have go: "keeps me w (Normal (E_Create role e c a, es_lock e w1))" for c a
    unfolding es_lock_def
    by (rule keeps_est [OF s assms(1) th [of c a]]) (simp_all add: same_knowledge_def)
  show ?thesis
    using False fail go
    by (simp add: establishEnd_enter_def Let_def flip: ch_def w1_def split: option.split del: keeps_simps(1))
qed

lemma keeps_finished:
  assumes "named w" and "th_ok w me pc" and "same_knowledge pc (wait_pc role e)"
    and "shrinks w w0" and "same_res (sv_est w e) es"
  shows "keeps me w (Normal (wait_pc role e, est_update e (\<lambda>_. es) w0))"
    and "keeps me w (establishEnd_enter role e (est_update e (\<lambda>_. es) w0))"
proof -
  show k: "keeps me w (Normal (wait_pc role e, est_update e (\<lambda>_. es) w0))"
    using assms by (intro keeps_est) simp_all
  then show "keeps me w (establishEnd_enter role e (est_update e (\<lambda>_. es) w0))"
    by (intro keeps_trans [OF _ keeps_enter]) simp_all
qed

lemma keeps_success_fail:
  assumes "named w"
  shows "th_ok w me (A_Success e c) \<Longrightarrow> keeps me w (activeEstablishSuccess e c w)"
    and "th_ok w me (A_Fail e co x) \<Longrightarrow> keeps me w (activeEstablishFail e co x w)"
    and "th_ok w me (P_Success e c) \<Longrightarrow> keeps me w (passiveEstablishSuccess e c w)"
    and "th_ok w me (P_Fail e c x) \<Longrightarrow> keeps me w (passiveEstablishFail e c x w)"
proof -
  note fin = keeps_finished [OF assms]
  show "keeps me w (activeEstablishSuccess e c w)" if pc: "th_ok w me (A_Success e c)"
  proof (cases "em_locked (sv_est w e)")
    case False
    obtain ok es where s: "em_activeSuccess c (sv_est w e) = (ok, es)" by (cases "em_activeSuccess c (sv_est w e)")
    have k: "same_knowledge (A_Success e c) (wait_pc ActiveSide e)" by (simp add: same_knowledge_def)
    note f = fin [OF pc k shrinks_refl same_res_ops(5) [OF s]]
    have "keeps me w (Normal (C_Wait e, close_conn c (est_update e (\<lambda>_. es) w)))"
    proof (rule keeps_trans)
      show "grows w (est_update e (\<lambda>_. es) w)" using f(1) by simp
      show "keeps me (est_update e (\<lambda>_. es) w) (Normal (C_Wait e, close_conn c (est_update e (\<lambda>_. es) w)))"
        using f(1) by (intro keeps_stay [OF shrinks_conn(1), of _ _ "C_Wait e"]) (simp_all add: same_knowledge_def)
    qed
    then show ?thesis using f s False by (simp add: activeEstablishSuccess_def Let_def del: keeps_simps(1))
  qed (simp add: activeEstablishSuccess_def)
  show "keeps me w (activeEstablishFail e co x w)" if pc: "th_ok w me (A_Fail e co x)"
  proof (cases "em_locked (sv_est w e)")
    case False
    let ?w0 = "case co of None \<Rightarrow> w | Some c \<Rightarrow> close_conn c w"
    have s0: "shrinks w ?w0" by (simp add: shrinks_conn split: option.split)
    then have "sv_est ?w0 = sv_est w" by (simp add: shrinks_def)
    then obtain ok es where s: "em_activeFail x (sv_est ?w0 e) = (ok, es)" "same_res (sv_est w e) es"
      using same_res_ops(6) [of x "sv_est w e"] by (metis prod.exhaust)
    have k: "same_knowledge (A_Fail e co x) (wait_pc ActiveSide e)" by (simp add: same_knowledge_def)
    show ?thesis using fin [OF pc k s0 s(2)] s(1) False
      by (simp add: activeEstablishFail_def Let_def del: keeps_simps(1))
  qed (simp add: activeEstablishFail_def)
  show "keeps me w (passiveEstablishSuccess e c w)" if pc: "th_ok w me (P_Success e c)"
  proof (cases "em_locked (sv_est w e)")
    case False
    obtain ok es where s: "em_passiveSuccess c (sv_est w e) = (ok, es)" by (cases "em_passiveSuccess c (sv_est w e)")
    have k: "same_knowledge (P_Success e c) (wait_pc PassiveSide e)" by (simp add: same_knowledge_def)
    show ?thesis using fin [OF pc k shrinks_refl same_res_ops(7) [OF s]] s False
      by (simp add: passiveEstablishSuccess_def Let_def del: keeps_simps(1))
  qed (simp add: passiveEstablishSuccess_def)
  show "keeps me w (passiveEstablishFail e c x w)" if pc: "th_ok w me (P_Fail e c x)"
  proof (cases "em_locked (sv_est w e)")
    case False
    have "sv_est (close_conn c w) = sv_est w" by (simp add: close_conn_def)
    then obtain ok es where s: "em_passiveFail x (sv_est (close_conn c w) e) = (ok, es)" "same_res (sv_est w e) es"
      using same_res_ops(8) [of x "sv_est w e"] by (metis prod.exhaust)
    have k: "same_knowledge (P_Fail e c x) (wait_pc PassiveSide e)" by (simp add: same_knowledge_def)
    show ?thesis using fin [OF pc k shrinks_conn(1) s(2)] s(1) False
      by (simp add: passiveEstablishFail_def Let_def del: keeps_simps(1))
  qed (simp add: passiveEstablishFail_def)
qed

subsection \<open>Making the session\<close>

lemma th_ok_E:
  "th_ok w me (E_Create role e c a) = th_ok w me (wait_pc role e)"
  "th_ok w me (E_Check role e i) =
     (th_ok w me (wait_pc role e) \<and> of_node w (em_remoteNodeId (sv_est w e)) (SRemote i))"
  "th_ok w me (E_Commit role e i) = th_ok w me (E_Check role e i)"
  "th_ok w me (E_Finish role e i) = th_ok w me (E_Check role e i)"
  by (cases role; auto simp: th_ok_def)+

lemma keeps_unlock:
  assumes "named w1" and "grows w w1" and "th_ok w me (wait_pc role e)"
  shows "keeps me w (Normal (wait_pc role e, es_unlock e w1))"
proof -
  have "keeps me w1 (Normal (wait_pc role e, es_unlock e w1))"
    unfolding es_unlock_def
    using assms(1) th_ok_grows [OF assms(2,3)]
    by (intro keeps_est [of _ _ _ "wait_pc role e"]) (cases role; simp add: same_knowledge_def)+
  then show ?thesis by (rule keeps_trans [OF assms(2)])
qed

text \<open>A part of \<open>establishEndCreateSession\<close> that goes on with the session, or has failed.\<close>

lemma keeps_continue:
  assumes "th_ok w me (wait_pc role e)"
    and "\<And>r w1. m = Normal (r, w1) \<Longrightarrow> named w1 \<and> grows w w1 \<and> (\<forall>i. r = Some i \<longrightarrow> th_ok w1 me (next i))"
  shows "keeps me w (end_continue role e next m)"
  unfolding end_continue_def
proof (rule keeps_bind, clarify)
  fix r w1 assume "m = Normal (r, w1)"
  note a = assms(2) [OF this]
  then show "keeps me w (case r of Some i \<Rightarrow> Normal (next i, w1) | None \<Rightarrow> Normal (wait_pc role e, es_unlock e w1))"
    using keeps_unlock [OF _ _ assms(1)] by (cases r) simp_all
qed

lemma wait_est: "th_ok w me (wait_pc role e) \<Longrightarrow> e < sv_estNext w"
  by (cases role) (simp_all add: th_ok_def)

lemma named_create:
  assumes "named w" and "ecs_start E now coreErr c a e w = Normal (r, w')" and "e < sv_estNext w"
  shows "named w' \<and> grows w w' \<and> (\<forall>i. r = Some i \<longrightarrow> of_node w' (em_remoteNodeId (sv_est w' e)) (SRemote i))"
proof -
  let ?s = "newSession (env_Q E) (cfg_Session (sv_cfg w)) (em_remoteNodeId (sv_est w e)) a c"
  let ?w1 = "w\<lparr>sv_sess := (sv_sess w)(sv_sessNext w := ?s), sv_sessNext := Suc (sv_sessNext w)\<rparr>"
  obtain err w2 where s: "session_start E now coreErr (sv_sessNext w) ?w1 = Normal (err, w2)"
    and w': "(case err of None \<Rightarrow> Normal (Some (sv_sessNext w), w2)
      | Some x \<Rightarrow> obind (establishEndFailed x e (close_conn c w2)) (\<lambda>w3. Normal (None, w3))) = Normal (r, w')"
    using assms(2) by (auto simp: ecs_start_def Let_def)
  have g1: "grows w ?w1" by (simp add: grows_def)
  have "named ?w1"
  proof -
    have est: "est_result w es \<Longrightarrow> est_result ?w1 es" for es
      using result_ok_grows [OF g1] by (simp add: est_result_def)
    show ?thesis using assms(1) of_node_grows [OF g1] est by (simp add: named_def)
  qed
  moreover have s2: "shrinks ?w1 w2" by (rule shrinks_start [OF s])
  ultimately have w2: "named w2" "grows w w2" using shrinks_named shrinks_grows g1 grows_trans by blast+
  have new: "of_node w2 (em_remoteNodeId (sv_est w2 e)) (SRemote (sv_sessNext w))"
    using s2 by (simp add: shrinks_def of_node_def newSession_def)
  show ?thesis
  proof (cases err)
    case None
    then show ?thesis using w' w2 new by auto
  next
    case (Some x)
    then obtain w3 where "establishEndFailed x e (close_conn c w2) = Normal w3" "r = None" "w' = w3" using w' by auto
    moreover have "named (close_conn c w2)" "grows w2 (close_conn c w2)"
      using shrinks_conn(1) w2(1) shrinks_named shrinks_grows by blast+
    moreover have "e < sv_estNext (close_conn c w2)"
      using assms(3) s2 by (simp add: close_conn_def shrinks_def)
    ultimately show ?thesis using named_failed w2(2) grows_trans by blast
  qed
qed

lemma named_check:
  assumes "named w" and "ecs_check e i w = Normal (r, w')" and "e < sv_estNext w"
  shows "named w' \<and> grows w w' \<and> (r = None \<or> r = Some i)"
proof -
  obtain err s where l: "session_lockState stateStarted (sv_sess w i) = Normal (err, s)"
    using assms(2) by (auto simp: ecs_check_def)
  have s: "shrinks w (sess_update i (\<lambda>_. s) w)" using lockState_id [OF l] by (intro shrinks_sess)
  show ?thesis
  proof (cases err)
    case None
    then show ?thesis
      using assms(2) l shrinks_named [OF s assms(1)] shrinks_grows [OF s] by (auto simp: ecs_check_def)
  next
    case (Some x)
    then obtain w1 where "establishEndFailed x e w = Normal w1" "r = None" "w' = w1"
      using assms(2) l by (auto simp: ecs_check_def)
    then show ?thesis using named_failed [OF assms(1,3)] by blast
  qed
qed

lemma named_commit:
  assumes "named w" and "ecs_commit E now e i w = Normal (r, w')" and "e < sv_estNext w"
    and "of_node w n (SRemote i)"
  shows "named w' \<and> grows w w' \<and> (r = None \<or> r = Some i)"
proof -
  obtain err where l: "service_lockState stateStarted w = Normal err" using assms(2) by (auto simp: ecs_commit_def)
  have unlock: "shrinks v (sess_update i session_unlockState v)" for v :: "('a, 'b) service"
    by (intro shrinks_sess) (simp add: session_unlockState_def)
  show ?thesis
  proof (cases err)
    case None
    let ?w0 = "sessionMap_add (SRemote i) w"
    let ?w1 = "sess_update i session_unlockState ?w0"
    have "named ?w0 \<and> grows w ?w0"
    proof -
      have r: "of_node ?w0 k x = of_node w k x" for k x by (simp add: of_node_def sessionMap_add_def split: sref.split)
      have "est_result ?w0 d = est_result w d" for d by (simp add: est_result_def result_ok_def r split: option.split)
      then show ?thesis
        using assms(1,4) unfolding named_def r
        by (auto simp: sessionMap_add_def grows_def sref_RemoteNodeId_def of_node_def)
    qed
    moreover have "shrinks ?w1 (?w1\<lparr>sv_establishments := snd (map_compareAndDelete k e (sv_establishments ?w1))\<rparr>)" for k
      by (simp add: shrinks_def)
    moreover have "w' = ?w1\<lparr>sv_establishments :=
        snd (map_compareAndDelete (em_remoteNodeId (sv_est ?w1 e)) e (sv_establishments ?w1))\<rparr>" "r = Some i"
      using assms(2) l None by (auto simp: ecs_commit_def Let_def)
    ultimately show ?thesis using unlock [of ?w0] shrinks_trans shrinks_named shrinks_grows grows_trans by metis
  next
    case (Some x)
    obtain w1 w2 where "session_close E now x i (sess_update i session_unlockState w) = Normal w1"
      "establishEndFailed x e w1 = Normal w2" "r = None" "w' = w2"
      using assms(2) l Some by (auto simp: ecs_commit_def)
    moreover from this(1) have s: "shrinks w w1" using shrinks_trans [OF unlock] shrinks_close by blast
    moreover have "e < sv_estNext w1" using s assms(3) by (simp add: shrinks_def)
    ultimately show ?thesis
      using named_failed shrinks_named [OF s assms(1)] shrinks_grows [OF s] grows_trans by blast
  qed
qed

lemma keeps_E:
  assumes "named w"
  shows "th_ok w me (E_Create role e c a) \<Longrightarrow> keeps me w (end_create E now ans role e c a w)"
    and "th_ok w me (E_Check role e i) \<Longrightarrow>
      keeps me w (end_continue role e (\<lambda>_. E_Commit role e i) (ecs_check e i w))"
    and "th_ok w me (E_Commit role e i) \<Longrightarrow>
      keeps me w (end_continue role e (\<lambda>_. E_Finish role e i) (ecs_commit E now e i w))"
    and "th_ok w me (E_Finish role e i) \<Longrightarrow> keeps me w (end_finish role e i w)"
proof -
  show "keeps me w (end_create E now ans role e c a w)" if "th_ok w me (E_Create role e c a)"
  proof (cases ans)
    case (CoreStart ce)
    have th: "th_ok w me (wait_pc role e)" using that by (simp add: th_ok_E)
    have "keeps me w (end_continue role e (E_Check role e) (ecs_start E now ce c a e w))"
      using named_create [OF assms _ wait_est [OF th]] th_ok_grows [OF _ th]
      by (intro keeps_continue [OF th]) (simp add: th_ok_E)
    then show ?thesis by (simp add: end_create_def CoreStart)
  qed (simp_all add: end_create_def)
  show "keeps me w (end_continue role e (\<lambda>_. E_Commit role e i) (ecs_check e i w))"
    if pc: "th_ok w me (E_Check role e i)"
  proof -
    have th: "th_ok w me (wait_pc role e)" using pc by (simp add: th_ok_E)
    show ?thesis
      using named_check [OF assms _ wait_est [OF th]] th_ok_grows [OF _ pc]
      by (intro keeps_continue [OF th]) (simp add: th_ok_E(3))
  qed
  show "keeps me w (end_continue role e (\<lambda>_. E_Finish role e i) (ecs_commit E now e i w))"
    if pc: "th_ok w me (E_Commit role e i)"
  proof -
    have th: "th_ok w me (wait_pc role e)" and i: "of_node w (em_remoteNodeId (sv_est w e)) (SRemote i)"
      using pc by (simp_all add: th_ok_E)
    show ?thesis
      using named_commit [OF assms _ wait_est [OF th] i] th_ok_grows [OF _ pc]
      by (intro keeps_continue [OF th]) (simp add: th_ok_E(3,4))
  qed
  show "keeps me w (end_finish role e i w)" if pc: "th_ok w me (E_Finish role e i)"
    unfolding end_finish_def
  proof (rule keeps_bind)
    fix w1 assume "ecs_finish e i w = Normal w1"
    then obtain es where es: "em_end (Some (SRemote i)) None (sv_est w e) = Normal es" "w1 = est_update e (\<lambda>_. es) w"
      by (auto simp: ecs_finish_def)
    have th: "th_ok w me (wait_pc role e)" and i: "of_node w (em_remoteNodeId (sv_est w e)) (SRemote i)"
      using pc by (simp_all add: th_ok_E)
    have "named w1 \<and> grows w w1"
      unfolding es(2) by (rule named_end [OF assms wait_est [OF th] es(1)]) (simp add: result_ok_def i)
    then show "keeps me w (Normal (wait_pc role e, es_unlock e w1))" using th by (intro keeps_unlock) simp_all
  qed
qed

subsection \<open>Any step\<close>

lemma keeps_network:
  assumes "named w"
  shows "th_ok w me (A_Dial e) \<Longrightarrow> keeps me w (activeEstablishConnect ans e w)"
    and "th_ok w me (A_WriteApply e c) \<Longrightarrow> keeps me w (activeEstablishHandshake_apply ans e c w)"
    and "th_ok w me (A_ReadResp e c) \<Longrightarrow> keeps me w (activeEstablishHandshake_resp ans e c w)"
    and "th_ok w me (A_WriteCompleted e c) \<Longrightarrow> keeps me w (activeEstablishAboutSuccess_write ans e c w)"
    and "th_ok w me (A_ReadAck e c) \<Longrightarrow> keeps me w (activeEstablishAboutSuccess_ack ans e c w)"
    and "keeps me w (onPassiveConn_read ans c w)"
    and "th_ok w me (P_WriteAccepted e c) \<Longrightarrow> keeps me w (passiveEstablishHandshake_accept ans e c w)"
    and "th_ok w me (P_ReadReply e c) \<Longrightarrow> keeps me w (passiveEstablishHandshake_reply ans e c w)"
    and "th_ok w me (P_WriteAck e c) \<Longrightarrow> keeps me w (passiveEstablishHandshake_ack ans e c w)"
proof -
  note stay = keeps_stay [OF _ assms]
  note w = shrinks_refl shrinks_conn(2)
  show "keeps me w (activeEstablishConnect ans e w)" if "th_ok w me (A_Dial e)"
    using stay [OF shrinks_refl that]
    by (simp add: activeEstablishConnect_def same_knowledge_def del: keeps_simps(1) split: answer.split)
  show "keeps me w (activeEstablishHandshake_apply ans e c w)" if "th_ok w me (A_WriteApply e c)"
    using stay [OF w(1) that] stay [OF w(2) that]
    by (simp add: activeEstablishHandshake_apply_def same_knowledge_def del: keeps_simps(1) split: answer.split)
  show "keeps me w (activeEstablishHandshake_resp ans e c w)" if "th_ok w me (A_ReadResp e c)"
    using stay [OF w(1) that] stay [OF shrinks_conn(3) that]
    by (simp add: activeEstablishHandshake_resp_def same_knowledge_def del: keeps_simps(1)
        split: answer.split hs_message.split)
  show "keeps me w (activeEstablishAboutSuccess_write ans e c w)" if "th_ok w me (A_WriteCompleted e c)"
    using stay [OF w(1) that] stay [OF w(2) that]
    by (simp add: activeEstablishAboutSuccess_write_def same_knowledge_def del: keeps_simps(1) split: answer.split)
  show "keeps me w (activeEstablishAboutSuccess_ack ans e c w)" if "th_ok w me (A_ReadAck e c)"
    using stay [OF w(1) that]
    by (simp add: activeEstablishAboutSuccess_ack_def same_knowledge_def del: keeps_simps(1)
        split: answer.split hs_message.split)
  have a: "keeps me w (Normal (P_Done, close_conn c w))"
    by (rule keeps_done [OF shrinks_conn(1) assms]) simp_all
  have b: "keeps me w (Normal (P_Done, close_conn c (write_rejected c k w)))" for k
    by (rule keeps_done [OF shrinks_trans [OF shrinks_conn(3) shrinks_conn(1)] assms]) simp_all
  have d: "keeps me w (Normal (P_Obtain c n t, w))" for n t
    by (rule keeps_done [OF shrinks_refl assms]) simp_all
  from a b d show "keeps me w (onPassiveConn_read ans c w)"
    by (simp add: onPassiveConn_read_def del: keeps_simps(1) split: answer.split hs_message.split)
  show "keeps me w (passiveEstablishHandshake_accept ans e c w)" if "th_ok w me (P_WriteAccepted e c)"
    using stay [OF w(1) that] stay [OF w(2) that]
    by (simp add: passiveEstablishHandshake_accept_def same_knowledge_def del: keeps_simps(1) split: answer.split)
  show "keeps me w (passiveEstablishHandshake_reply ans e c w)" if "th_ok w me (P_ReadReply e c)"
    using stay [OF w(1) that]
    by (simp add: passiveEstablishHandshake_reply_def same_knowledge_def del: keeps_simps(1)
        split: answer.split hs_message.split)
  show "keeps me w (passiveEstablishHandshake_ack ans e c w)" if "th_ok w me (P_WriteAck e c)"
    using stay [OF w(1) that] stay [OF w(2) that]
    by (simp add: passiveEstablishHandshake_ack_def same_knowledge_def del: keeps_simps(1) split: answer.split)
qed

lemma keeps_thread:
  assumes "named w" and "th_ok w me pc"
    and "\<And>e. pc = C_Wait e \<Longrightarrow> em_chEnd (sv_est w e) = em_isEnd (sv_est w e)"
  shows "keeps me w (thread_step E now missed ans me pc w)"
proof (cases pc)
  case (P_Wait e)
  have "keeps me w (Normal (P_Done, w))" using assms(1) by (intro keeps_done) simp_all
  then show ?thesis unfolding P_Wait thread_step.simps onPassiveConn_wait_def by (intro keeps_bind)
next
  case (C_Wait e)
  then show ?thesis using keeps_Connect_wait [OF assms(1)] assms(2,3) by simp
qed (use assms(2) keeps_Connect_enter [OF assms(1)] keeps_Connect_obtain [OF assms(1)]
    keeps_onPassiveConn_obtain [OF assms(1)] keeps_start [OF assms(1)] keeps_check [OF assms(1)]
    keeps_end_with [OF assms(1)] keeps_network [OF assms(1)] keeps_success_fail [OF assms(1)]
    keeps_E [OF assms(1)] in simp_all)

end
