(* ===== verification/Connect_Properties.thy ===== *)
theory Connect_Properties
  imports Connect_Steps System_Properties
begin

text \<open>
  What \<open>Connect\<close> and \<open>GetSession\<close> return in every reachable state, and that the two sides of a
  handshake understand each other.
\<close>

section \<open>The names in every reachable state\<close>

definition sys_named :: "('q, 't) system \<Rightarrow> bool" where
  "sys_named S \<longleftrightarrow> named (sys_svc S) \<and> (\<forall>t me pc. sys_th S t = Some (me, pc) \<longrightarrow> th_ok (sys_svc S) me pc)"

lemma sys_named_init:
  assumes "sys_init tok S"
  shows "sys_named S"
proof -
  obtain cfg options timers sess0 est0 where
    "CreateService (Some cfg) False options timers sess0 est0 = Inr (sys_svc S)" and th: "sys_th S = Map.empty"
    using assms by (auto simp: sys_init_def)
  note st = CreateService_state [OF this(1)]
  have "named (sys_svc S)" using st(6,7,9) by (simp add: named_def of_node_def)
  then show ?thesis by (simp add: sys_named_def th)
qed

text \<open>The steps that are not a goroutine's.\<close>

lemma sys_named_shrinks:
  assumes "sys_named S" and "shrinks (sys_svc S) w"
  shows "sys_named (S\<lparr>sys_svc := w\<rparr>)"
  using assms shrinks_named shrinks_grows th_ok_grows unfolding sys_named_def
  by (metis system.select_convs(1,2) system.surjective system.update_convs(1))

lemma listen_pc:
  assumes "listen_turn ans w = (go, Some pc, w')"
  shows "shrinks w w' \<and> est_of pc = None \<and> (\<forall>ro eo. pc \<noteq> C_Done ro eo)"
  using assms by (auto simp: listen_turn_def split: if_splits accept_answer.splits)

context svc_timers
begin

lemma wait_end:
  assumes "sys_ok tok S" and "sys_th S t = Some (me, C_Wait e)"
  shows "em_chEnd (sv_est (sys_svc S) e) = em_isEnd (sv_est (sys_svc S) e)"
proof -
  have inv: "ainv (abs_sys S)" using assms(1) by (simp add: sys_ok_def)
  have "x_th (abs_sys S) t = HWait e" using assms(2) by (simp add: abs_sys_def holds_of_def)
  then have "known (abs_sys S) e" using ainvD(1) [OF inv, of t] by simp
  then show ?thesis by (simp add: known_def abs_sys_def em_ok_def)
qed

lemma sys_named_step:
  assumes "sys_step E tok room S S'" and "sys_ok tok S" and "sys_named S"
  shows "sys_named S'"
  using assms(1)
proof cases
  case (Connect_called t n)
  then show ?thesis using assms(3) by (auto simp: sys_named_def th_ok_def)
next
  case (Conn_accepted t ans go pc w)
  note l = listen_pc [OF Conn_accepted(3)]
  have "sys_named (S\<lparr>sys_svc := w\<rparr>)" using sys_named_shrinks [OF assms(3)] l by blast
  then show ?thesis using l unfolding Conn_accepted(1) by (auto simp: sys_named_def th_ok_def)
next
  case (Goroutine t me pc now missed ans pc' w)
  have "th_ok (sys_svc S) me pc" "named (sys_svc S)" using assms(3) Goroutine(2) by (auto simp: sys_named_def)
  then have "keeps me (sys_svc S) (thread_step E now missed ans me pc (sys_svc S))"
    using wait_end [OF assms(2), of t me] Goroutine(2) by (intro keeps_thread) simp_all
  then have k: "named w" "grows (sys_svc S) w" "th_ok w me pc'" unfolding Goroutine(5) by simp_all
  have "th_ok w me' pc''" if "sys_th S t' = Some (me', pc'')" for t' me' pc''
    using th_ok_grows [OF k(2)] assms(3) that by (simp add: sys_named_def)
  then show ?thesis using k unfolding Goroutine(1) by (simp add: sys_named_def)
next
  case (Timers_run t)
  have "shrinks (sys_svc S) ((sys_svc S)\<lparr>sv_timers := t\<rparr>)" by (simp add: shrinks_def)
  then show ?thesis using sys_named_shrinks [OF assms(3)] unfolding Timers_run(1) by blast
next
  case (Close_goes_on order now w)
  show ?thesis unfolding Close_goes_on(1) by (rule sys_named_shrinks [OF assms(3) shrinks_Close_rest [OF Close_goes_on(4)]])
next
  case (Packet_arrives i now handlerErr p e w)
  show ?thesis unfolding Packet_arrives(1) by (rule sys_named_shrinks [OF assms(3) shrinks_packet [OF Packet_arrives(3)]])
next
  case (Core_closed i now err w)
  show ?thesis unfolding Core_closed(1)
    by (rule sys_named_shrinks [OF assms(3) shrinks_close [OF Core_closed(3) [unfolded SessionOnClosed_def]]])
next
  case (Start_called listenErr e w)
  show ?thesis unfolding Start_called(1) by (rule sys_named_shrinks [OF assms(3) shrinks_Start [OF Start_called(2)]])
next
  case (Close_called e w)
  show ?thesis unfolding Close_called(1) by (rule sys_named_shrinks [OF assms(3) shrinks_Close_mark [OF Close_called(2)]])
next
  case (Send_called r now handlerErr b e w)
  show ?thesis unfolding Send_called(1) by (rule sys_named_shrinks [OF assms(3) shrinks_Send [OF Send_called(3)]])
next
  case (GetSession_called now n r w)
  show ?thesis unfolding GetSession_called(1)
    using sys_named_shrinks [OF assms(3)] shrinks_GetSession [OF GetSession_called(2)] by blast
next
  case (Tick_due preferClosed n w)
  show ?thesis unfolding Tick_due(1) by (rule sys_named_shrinks [OF assms(3) shrinks_onTicker [OF Tick_due(2)]])
next
  case (Loop_turns preferClosed now w)
  show ?thesis unfolding Loop_turns(1) by (rule sys_named_shrinks [OF assms(3) shrinks_loop [OF Loop_turns(2)]])
qed

lemma reachable_named:
  assumes "reachable E tok room S"
  shows "sys_named S"
proof -
  obtain S0 where S0: "sys_init tok S0" "(sys_step E tok room)\<^sup>*\<^sup>* S0 S" using assms by (auto simp: reachable_def)
  from S0(2) show ?thesis
  proof (induction rule: rtranclp_induct)
    case base
    then show ?case by (rule sys_named_init [OF S0(1)])
  next
    case (step S1 S2)
    have "reachable E tok room S1" using S0(1) step(1) by (auto simp: reachable_def)
    then show ?case using sys_named_step [OF step(2)] reachable_ok step(3) by blast
  qed
qed

end

section \<open>Properties\<close>

text \<open>C8: A call of \<open>Connect\<close> that has returned gave exactly one of a session and an error. The
  session is one with the node asked for: the service's own local session if it asked for itself,
  or a session object made for this node. This is so in every reachable state, whether the call
  made the session, waited for another goroutine to make it, or found it.\<close>

theorem Connect_result:
  assumes "timer_system (env_T E) tok room live" and "reachable E tok room S"
    and "sys_th S t = Some (n, C_Done session err)"
  shows "(\<exists>r. session = Some r \<and> err = None \<and> sref_RemoteNodeId (sys_svc S) r = n \<and>
      (\<forall>i. r = SRemote i \<longrightarrow> i < sv_sessNext (sys_svc S))) \<or>
    (session = None \<and> (\<exists>e. err = Some e))"
proof -
  have loc: "svc_timers E tok room live" unfolding svc_timers_def by (rule assms(1))
  have "th_ok (sys_svc S) n (C_Done session err)"
    using svc_timers.reachable_named [OF loc assms(2)] assms(3) by (simp add: sys_named_def)
  then show ?thesis
    by (auto simp: th_ok_def result_ok_def of_node_def sref_RemoteNodeId_def split: option.splits sref.splits)
qed

text \<open>A node that connects to itself gets its local session.\<close>

lemma ex_self:
  obtains S where "reachable heap_env heap_tok th_room S" "sys_th S 1 = Some (''a'', C_Done (Some SLocal) None)"
proof -
  let ?S1 = "ex_sys\<lparr>sys_th := (sys_th ex_sys)(1 \<mapsto> (''a'', C_Enter))\<rparr>"
  have s1: "sys_step heap_env heap_tok th_room ex_sys ?S1"
    by (rule sys_step.Connect_called) (simp add: ex_sys_def)
  have go: "thread_step heap_env 7 False Go ''a'' C_Enter (sys_svc ?S1) =
      Normal (C_Done (Some SLocal) None, sys_svc ?S1)"
    by (simp add: Connect_enter_def service_GetSession_def service_lockState_def service_getSession_def
        sessionMap_get_def sref_keepActive_def ex_sys_def ex_svc_fields)
  have s2: "sys_step heap_env heap_tok th_room ?S1
      (?S1\<lparr>sys_svc := sys_svc ?S1, sys_th := (sys_th ?S1)(1 \<mapsto> (''a'', C_Done (Some SLocal) None))\<rparr>)"
    by (rule sys_step.Goroutine [OF _ sane_clock_7 _ go]) (simp_all add: ex_sys_svc ex_room)
  obtain S0 where "sys_init heap_tok S0" "(sys_step heap_env heap_tok th_room)\<^sup>*\<^sup>* S0 ex_sys"
    using ex_sys_reachable by (auto simp: reachable_def)
  then have "reachable heap_env heap_tok th_room
      (?S1\<lparr>sys_svc := sys_svc ?S1, sys_th := (sys_th ?S1)(1 \<mapsto> (''a'', C_Done (Some SLocal) None))\<rparr>)"
    using s1 s2 unfolding reachable_def by (meson rtranclp.rtrancl_into_rtrancl)
  then show thesis by (rule that) simp
qed

theorem Connect_result_witness:
  "\<exists>S. reachable heap_env heap_tok th_room S \<and> sys_th S 1 = Some (''a'', C_Done (Some SLocal) None) \<and>
     sref_RemoteNodeId (sys_svc S) SLocal = ''a''"
proof -
  obtain S where S: "reachable heap_env heap_tok th_room S" "sys_th S 1 = Some (''a'', C_Done (Some SLocal) None)"
    by (rule ex_self)
  show ?thesis using Connect_result [OF heap_timers S] S by auto
qed

text \<open>C32: \<open>GetSession\<close> in a reachable state returns a session exactly if the service is started and
  the map holds, under this name, the local session or a session object that is started at this
  moment. It is a session with the node asked for, and its activity is refreshed; everything else
  stays as it is.\<close>

theorem GetSession_exact:
  assumes "timer_system (env_T E) tok room live" and "reachable E tok room S" and "w = sys_svc S"
  shows "\<exists>r w'. service_GetSession now n w = Normal (r, w') \<and>
    (\<forall>x. (r = Some x) = (sv_state w = stateStarted \<and> sv_sessions w n = Some x \<and>
       (x = SLocal \<or> (\<exists>i. x = SRemote i \<and> ss_state (sv_sess w i) = stateStarted)))) \<and>
    (\<forall>x. r = Some x \<longrightarrow> sref_RemoteNodeId w x = n) \<and>
    w' = (case r of Some (SRemote i) \<Rightarrow> sess_update i (refreshActiveTime now) w | _ \<Rightarrow> w)"
proof -
  have loc: "svc_timers E tok room live" unfolding svc_timers_def by (rule assms(1))
  have ok: "svc_ok tok w" and inv: "ainv (abs_sys S)" and nm: "named w"
    using svc_timers.reachable_ok [OF loc assms(2)] svc_timers.reachable_named [OF loc assms(2)] assms(3)
    by (simp_all add: sys_ok_def sys_named_def)
  have st: "svc_state_ok w" using svc_state_okI [of w "holds_of (sys_th S)"] inv assms(3) by (simp add: abs_sys_def)
  have same: "sess_update i (\<lambda>_. sv_sess w i) w = w" for i by (simp add: sess_update_def)
  show ?thesis
  proof (cases "sv_state w = stateStarted")
    case False
    then show ?thesis
      using st by (auto simp: service_GetSession_def lockState_ok split: option.splits)
  next
    case started: True
    show ?thesis
    proof (cases "sv_sessions w n")
      case None
      then show ?thesis
        using started by (simp add: service_GetSession_def service_lockState_def service_getSession_def sessionMap_get_def)
    next
      case (Some x)
      have name: "sref_RemoteNodeId w x = n"
        using nm Some by (auto simp: named_def of_node_def sref_RemoteNodeId_def split: sref.splits)
      show ?thesis
      proof (cases x)
        case SLocal
        then show ?thesis
          using started Some name
          by (auto simp: service_GetSession_def service_lockState_def service_getSession_def sessionMap_get_def sref_keepActive_def)
      next
        case (SRemote i)
        have "of_node w n (SRemote i)" using nm Some SRemote by (simp add: named_def)
        then have wf: "session_wf (sv_sess w i)" using ok by (simp add: of_node_def svc_ok_def)
        show ?thesis
        proof (cases "ss_state (sv_sess w i) = stateStarted")
          case True
          then show ?thesis
            using started Some SRemote name
            by (auto simp: service_GetSession_def service_lockState_def service_getSession_def sessionMap_get_def
                sref_keepActive_def session_keepActive_def session_checkState_def sess_update_def)
        next
          case False
          then show ?thesis
            using started Some SRemote checkState_wf [OF wf] same
            by (auto simp: service_GetSession_def service_lockState_def service_getSession_def sessionMap_get_def
                sref_keepActive_def session_keepActive_def split: option.splits)
        qed
      qed
    qed
  qed
qed

theorem GetSession_exact_witness:
  "\<exists>S. reachable heap_env heap_tok th_room S \<and>
     service_GetSession 7 ''a'' (sys_svc S) = Normal (Some SLocal, sys_svc S)"
proof -
  have "sv_state (sys_svc ex_sys) = stateStarted" "sv_sessions (sys_svc ex_sys) ''a'' = Some SLocal"
    by (simp_all add: ex_sys_def ex_svc_fields)
  then show ?thesis
    using GetSession_exact [OF heap_timers ex_sys_reachable refl, of 7 "''a''"] ex_sys_reachable by fastforce
qed

section \<open>The two sides of a handshake\<close>

text \<open>The messages a goroutine is given in a script.\<close>

definition received :: "answer list \<Rightarrow> hs_message list" where
  "received script = concat (map (\<lambda>ans. case ans of Recv m \<Rightarrow> [m] | _ \<Rightarrow> []) script)"

text \<open>C7: Two started services with the same token and no session or establishment with each other:
  \<open>a\<close> calls \<open>Connect(b)\<close>, and \<open>b\<close> runs \<open>onPassiveConn\<close> on its end of the connection. If the network
  does not fail and nobody else comes in between, each side is given exactly the messages the other
  sends, in this order, and both end with a started session with the other over this connection, in
  their maps, with a tick timer; \<open>Connect\<close> returns it. \<open>a\<close> is the active end, \<open>b\<close> the passive end, and
  no establishment is left on either side.\<close>

theorem handshake_connects_both:
  assumes "sv_state wa = stateStarted" and "sv_sessions wa b = None" and "sv_establishments wa b = None"
    and "sv_state wb = stateStarted" and "sv_sessions wb a = None" and "sv_establishments wb a = None"
    and "cfg_NodeId (sv_cfg wa) = a" and "cfg_NodeId (sv_cfg wb) = b"
    and "hc_Token (cfg_Handshake (sv_cfg wa)) = token" and "hc_Token (cfg_Handshake (sv_cfg wb)) = token"
    and "ts_StartTimer (env_T E) (word_of_int (sc_TickInterval (cfg_Session (sv_cfg wa)))) True b now
      (sv_timers wa) = Normal (ida, ta)"
    and "ts_StartTimer (env_T E') (word_of_int (sc_TickInterval (cfg_Session (sv_cfg wb)))) True a now'
      (sv_timers wb) = Normal (idb, tb)"
  shows "\<exists>wa' wb' sa sb.
    thread_run E (map (Pair now) (connect_script ca b token)) b C_Enter wa =
      Normal (C_Done (Some (SRemote (sv_sessNext wa))) None, wa') \<and>
    thread_run E' (map (Pair now') (accept_script a token (sint now))) [] (P_ReadApply cb) wb = Normal (P_Done, wb') \<and>
    sv_sent wa' = sv_sent wa @ map (Pair ca) sa \<and> sv_sent wb' = sv_sent wb @ map (Pair cb) sb \<and>
    received (connect_script ca b token) = sb \<and> received (accept_script a token (sint now)) = sa \<and>
    connected b ca True ida ta sa wa wa' \<and> connected a cb False idb tb sb wb wb'"
proof -
  obtain wa' where A: "thread_run E (map (Pair now) (connect_script ca b token)) b C_Enter wa =
      Normal (C_Done (Some (SRemote (sv_sessNext wa))) None, wa')"
    "connected b ca True ida ta [HSApply (cfg_NodeId (sv_cfg wa)) token (sint now), HSCompleted] wa wa'"
    by (rule Connect_run [OF assms(1-3,11), of token ca]) (use assms in simp)
  obtain wb' where B: "thread_run E' (map (Pair now') (accept_script a token (sint now))) [] (P_ReadApply cb) wb =
      Normal (P_Done, wb')"
    "connected a cb False idb tb [HSAccepted (cfg_NodeId (sv_cfg wb)) token, HSCompletedAck] wb wb'"
    by (rule onPassiveConn_run [OF assms(4-6,12), of token "sint now" "[]" cb]) (use assms in simp)
  have "received (connect_script ca b token) = [HSAccepted (cfg_NodeId (sv_cfg wb)) token, HSCompletedAck]"
    "received (accept_script a token (sint now)) = [HSApply (cfg_NodeId (sv_cfg wa)) token (sint now), HSCompleted]"
    using assms(7,8) by (simp_all add: received_def connect_script_def accept_script_def)
  moreover have "sv_sent wa' = sv_sent wa @ map (Pair ca) [HSApply (cfg_NodeId (sv_cfg wa)) token (sint now), HSCompleted]"
    "sv_sent wb' = sv_sent wb @ map (Pair cb) [HSAccepted (cfg_NodeId (sv_cfg wb)) token, HSCompletedAck]"
    using A(2) B(2) unfolding connected_def Let_def by blast+
  ultimately show ?thesis using A B by metis
qed

text \<open>Node \<open>a\<close> is the example service; node \<open>b\<close> is a copy with its own name.\<close>

definition ex_svc_b :: "(ex_queue, ex_timers) service" where
  "ex_svc_b = (sys_svc ex_sys)\<lparr>sv_cfg := (sv_cfg ex_svc)\<lparr>cfg_NodeId := ''b''\<rparr>, sv_sessions := [''b'' \<mapsto> SLocal]\<rparr>"

lemma ex_timer:
  obtains tid tm where "ts_StartTimer (env_T heap_env) (word_of_int 20) True n 7 (sv_timers ex_svc) = Normal (tid, tm)"
proof -
  have "heap_tok (sv_timers ex_svc)" unfolding ex_svc_fields by (rule slh.th_inv_new)
  then show thesis
    using heap_svc.start_total [OF _ sane_clock_7 sane_delay_of_int [of 20], of "sv_timers ex_svc" True n] that
    by fastforce
qed

theorem handshake_connects_both_witness:
  "\<exists>wa' wb'. thread_run heap_env (map (Pair 7) (connect_script 5 ''b'' ''t'')) ''b'' C_Enter (sys_svc ex_sys) =
      Normal (C_Done (Some (SRemote 0)) None, wa') \<and>
    thread_run heap_env (map (Pair 7) (accept_script ''a'' ''t'' 7)) [] (P_ReadApply 6) ex_svc_b = Normal (P_Done, wb') \<and>
    sv_sessions wa' = [''a'' \<mapsto> SLocal, ''b'' \<mapsto> SRemote 0] \<and> sv_sessions wb' = [''b'' \<mapsto> SLocal, ''a'' \<mapsto> SRemote 0]"
proof -
  let ?a = "sys_svc ex_sys"
  obtain ida ta where ta: "ts_StartTimer (env_T heap_env) (word_of_int 20) True ''b'' 7 (sv_timers ex_svc) = Normal (ida, ta)"
    by (rule ex_timer)
  obtain idb tb where tb: "ts_StartTimer (env_T heap_env) (word_of_int 20) True ''a'' 7 (sv_timers ex_svc) = Normal (idb, tb)"
    by (rule ex_timer)
  have a: "sv_state ?a = stateStarted" "sv_sessions ?a ''b'' = None" "sv_establishments ?a ''b'' = None"
    "cfg_NodeId (sv_cfg ?a) = ''a''" "hc_Token (cfg_Handshake (sv_cfg ?a)) = ''t''"
    "ts_StartTimer (env_T heap_env) (word_of_int (sc_TickInterval (cfg_Session (sv_cfg ?a)))) True ''b'' 7
      (sv_timers ?a) = Normal (ida, ta)"
    using ta by (simp_all add: ex_sys_def ex_svc_fields) (simp_all add: ex_svc_cfg ex_service_config_def)
  have b: "sv_state ex_svc_b = stateStarted" "sv_sessions ex_svc_b ''a'' = None" "sv_establishments ex_svc_b ''a'' = None"
    "cfg_NodeId (sv_cfg ex_svc_b) = ''b''" "hc_Token (cfg_Handshake (sv_cfg ex_svc_b)) = ''t''"
    "ts_StartTimer (env_T heap_env) (word_of_int (sc_TickInterval (cfg_Session (sv_cfg ex_svc_b)))) True ''a'' 7
      (sv_timers ex_svc_b) = Normal (idb, tb)"
    using tb by (simp_all add: ex_svc_b_def ex_sys_def ex_svc_fields)
  have n: "sv_sessNext ?a = 0" "sv_sessNext ex_svc_b = 0" "sv_sessions ?a = [''a'' \<mapsto> SLocal]"
    "sv_sessions ex_svc_b = [''b'' \<mapsto> SLocal]" "sint (7 :: int64) = 7"
    by (simp_all add: ex_svc_b_def ex_sys_def ex_svc_fields)
  show ?thesis
    using handshake_connects_both [OF a(1-3) b(1-3) a(4) b(4) a(5) b(5) a(6) b(6), of 5 6]
    unfolding n connected_def Let_def by blast
qed

end
