(* ===== verification/Cluster.thy ===== *)
theory Cluster
  imports Connect_Properties
begin

text \<open>
  The agent of a node (cluster.go, option.go): its configuration, its life cycle, which is the
  service's, and the calls that find, make and use the session with another node.

  The center that knows the nodes (center/center.go is an interface) and the application's handler
  are parameters: what \<open>GetNode\<close> and \<open>OnNodeBytes\<close> answer is an argument. A node is known by what its
  two getters give.
\<close>

section \<open>Configuration and creation\<close>

record center_node =
  nd_NodeId :: node_id
  nd_NodeAddr :: string

text \<open>\<open>ac_Center\<close> and \<open>ac_Handler\<close>: whether the interface value is non-nil.\<close>

record agent_config =
  ac_Center :: bool
  ac_Net :: "service_config option"
  ac_Handler :: bool

definition AgentConfig_init :: "agent_config option \<Rightarrow> gerror option" where
  "AgentConfig_init cp =
     (case cp of None \<Rightarrow> Some (ErrText ''AgentConfig nil'' [])
      | Some c \<Rightarrow>
          if \<not> ac_Center c then Some (ErrText ''AgentConfig: Center not specified'' [])
          else if ac_Net c = None then Some (ErrText ''AgentConfig: Net not specified'' [])
          else if \<not> ac_Handler c then Some (ErrText ''AgentConfig: Handler not specified'' [])
          else None)"

text \<open>The options: each appends to the list of options of the service.\<close>

datatype agent_option = WithLogger | WithServiceOptions "service_option list"

fun apply_agent_option :: "agent_option \<Rightarrow> service_option list \<Rightarrow> service_option list" where
  "apply_agent_option WithLogger smOptions = smOptions @ [WithServiceLogger]"
| "apply_agent_option (WithServiceOptions opts) smOptions = smOptions @ opts"

text \<open>\<open>Agent\<close>: the center and the handler are the parameters, so the service is what is left.
  \<open>CreateAgent\<close> passes the agent itself as the service's handler, which is not nil.\<close>

record ('q, 't) agent =
  ag_service :: "('q, 't) service"

definition CreateAgent ::
    "agent_config option \<Rightarrow> agent_option list \<Rightarrow> 't \<Rightarrow> (nat \<Rightarrow> 'q session) \<Rightarrow> (nat \<Rightarrow> establishment) \<Rightarrow>
       gerror + ('q, 't) agent" where
  "CreateAgent cp options timers0 sess0 est0 =
     (case AgentConfig_init cp of Some e \<Rightarrow> Inl e
      | None \<Rightarrow>
          let smOptions = fold apply_agent_option options []
          in case CreateService (Option.bind cp ac_Net) False smOptions timers0 sess0 est0 of
               Inl e \<Rightarrow> Inl e
             | Inr w \<Rightarrow> Inr \<lparr>ag_service = w\<rparr>)"

section \<open>Life cycle\<close>

definition Agent_Start ::
    "gerror option \<Rightarrow> ('q, 't) agent \<Rightarrow> (gerror option \<times> ('q, 't) agent) outcome" where
  "Agent_Start listenErr a =
     obind (service_Start listenErr (ag_service a)) (\<lambda>(err, w). Normal (err, a\<lparr>ag_service := w\<rparr>))"

definition Agent_Close ::
    "('q, 't) svc_env \<Rightarrow> int64 \<Rightarrow> node_id list \<Rightarrow> ('q, 't) agent \<Rightarrow> (gerror option \<times> ('q, 't) agent) outcome" where
  "Agent_Close E now order a =
     obind (service_Close E now order (ag_service a)) (\<lambda>(err, w). Normal (err, a\<lparr>ag_service := w\<rparr>))"

definition Agent_NodeId :: "('q, 't) agent \<Rightarrow> node_id" where
  "Agent_NodeId a = cfg_NodeId (sv_cfg (ag_service a))"

section \<open>Connecting and sending\<close>

definition Agent_getNode :: "gerror + center_node \<Rightarrow> gerror + center_node" where
  "Agent_getNode answer =
     (case answer of Inl e \<Rightarrow> Inl (WithMessage e ''get node info from center'') | Inr node \<Rightarrow> Inr node)"

text \<open>A goroutine in \<open>ConnectNode\<close>: before \<open>GetSession\<close>, before \<open>getNode\<close>, in \<open>Connect\<close> with the
  address of the node, returned.\<close>

datatype agent_pc =
    CN_Enter
  | CN_GetNode
  | CN_Connect string pc
  | CN_Done "sref option" "gerror option"

fun ConnectNode_step ::
    "('q, 't) svc_env \<Rightarrow> int64 \<Rightarrow> bool \<Rightarrow> answer \<Rightarrow> gerror + center_node \<Rightarrow> node_id \<Rightarrow> agent_pc \<Rightarrow> ('q, 't) agent \<Rightarrow>
       (agent_pc \<times> ('q, 't) agent) outcome" where
  "ConnectNode_step E now missed ans found nodeId CN_Enter a =
     obind (service_GetSession now nodeId (ag_service a)) (\<lambda>(session, w).
       Normal (case session of Some r \<Rightarrow> CN_Done (Some r) None | None \<Rightarrow> CN_GetNode, a\<lparr>ag_service := w\<rparr>))"
| "ConnectNode_step E now missed ans found nodeId CN_GetNode a =
     (case Agent_getNode found of Inl e \<Rightarrow> Normal (CN_Done None (Some e), a)
      | Inr node \<Rightarrow> Normal (CN_Connect (nd_NodeAddr node) C_Enter, a))"
| "ConnectNode_step E now missed ans found nodeId (CN_Connect addr (C_Done session err)) a =
     Normal (CN_Done session err, a)"
| "ConnectNode_step E now missed ans found nodeId (CN_Connect addr pc) a =
     obind (thread_step E now missed ans nodeId pc (ag_service a)) (\<lambda>(pc', w).
       Normal (CN_Connect addr pc', a\<lparr>ag_service := w\<rparr>))"
| "ConnectNode_step E now missed ans found nodeId (CN_Done session err) a = Blocked"

text \<open>The rest of \<open>Send2Node\<close>, once \<open>ConnectNode\<close> has returned. A nil session would be dereferenced.\<close>

definition Send2Node_finish ::
    "('q, 't) svc_env \<Rightarrow> int64 \<Rightarrow> gerror option \<Rightarrow> byte list \<Rightarrow> sref option \<Rightarrow> gerror option \<Rightarrow> ('q, 't) agent \<Rightarrow>
       (gerror option \<times> ('q, 't) agent) outcome" where
  "Send2Node_finish E now handlerErr data session err a =
     (case err of Some e \<Rightarrow> Normal (Some (WithMessage e ''connect node''), a)
      | None \<Rightarrow> (case session of None \<Rightarrow> Panic ''nil pointer dereference''
          | Some r \<Rightarrow> obind (sref_Send E now handlerErr data r (ag_service a)) (\<lambda>(e, w).
              Normal (e, a\<lparr>ag_service := w\<rparr>))))"

text \<open>\<open>OnSessionBytes\<close>: what the handler's \<open>OnNodeBytes\<close> is called with. The service records the same
  pair in \<open>sv_delivered\<close> where it calls its handler.\<close>

definition Agent_OnSessionBytes :: "('q, 't) agent \<Rightarrow> sref \<Rightarrow> byte list \<Rightarrow> node_id \<times> byte list" where
  "Agent_OnSessionBytes a session data = (sref_RemoteNodeId (ag_service a) session, data)"

end
