(* ===== verification/Session_Properties.thy ===== *)
theory Session_Properties
  imports Session_Correct
begin

text \<open>
  The properties of a session object (net/session.go): sending on every branch, the ticks of both
  ends, the close request of the idle side, and closing.
\<close>

section \<open>Sending\<close>

lemma refreshActiveTime_max:
  "sint (ss_lastActiveTime (refreshActiveTime now s)) = max (sint (ss_lastActiveTime s)) (sint now)"
  by (simp add: refreshActiveTime_def i64_simps max_def)

lemma sendDirect_eq:
  assumes "q_enqueue Q p (ss_pendingPackets s) = (ok, q)"
  shows "session_sendDirect Q now p r s =
    (if ok then None else Some ErrPendingPacketsFull,
     s\<lparr>ss_pendingPackets := q,
       ss_lastActiveTime := (if ok \<and> r then ss_lastActiveTime (refreshActiveTime now s) else ss_lastActiveTime s),
       ss_notify := ss_notify s \<or> ok \<and> ss_waitNotify s\<rparr>)"
  using assms by (simp add: session_sendDirect_def refreshActiveTime_def Let_def)

lemma session_Send_cases:
  assumes "queue_laws Q items" and "session_wf s"
  shows "\<exists>e s'. session_Send Q cfg now b s = Normal (e, s') \<and>
    e = (if int (length b) > sc_MaxPacketLength cfg then Some ErrPacketLengthOverflow
         else if ss_state s = stateInit then Some ErrSessionNotStarted
         else if ss_state s = stateClosed then Some ErrSessionClosed
         else if \<not> fst (q_enqueue Q (RawPacket b) (ss_pendingPackets s)) then Some ErrPendingPacketsFull
         else None) \<and>
    items (ss_pendingPackets s') = items (ss_pendingPackets s) @ (if e = None then [RawPacket b] else []) \<and>
    sint (ss_lastActiveTime s') =
      (if e = None then max (sint (ss_lastActiveTime s)) (sint now) else sint (ss_lastActiveTime s)) \<and>
    ss_notify s' = (ss_notify s \<or> e = None \<and> ss_waitNotify s) \<and>
    s'\<lparr>ss_pendingPackets := ss_pendingPackets s, ss_lastActiveTime := ss_lastActiveTime s,
       ss_notify := ss_notify s\<rparr> = s"
proof (cases "int (length b) > sc_MaxPacketLength cfg")
  case True
  then show ?thesis by (simp add: session_Send_def session_send_def)
next
  case short: False
  show ?thesis
  proof (cases "ss_state s = stateStarted")
    case False
    then have "session_checkState stateStarted s = Normal (Some (if ss_state s = stateInit
        then ErrSessionNotStarted else ErrSessionClosed))"
      using assms(2) by (auto simp: session_wf_def session_checkState_def Let_def state_simps)
    then show ?thesis
      using short False assms(2) by (auto simp: session_Send_def session_send_def session_wf_def)
  next
    case True
    obtain ok q where q: "q_enqueue Q (RawPacket b) (ss_pendingPackets s) = (ok, q)" by fastforce
    have "items q = (if ok then items (ss_pendingPackets s) @ [RawPacket b] else items (ss_pendingPackets s))"
      using assms(1) q unfolding queue_laws_def by (metis fst_conv snd_conv)
    then show ?thesis
      using short True q refreshActiveTime_max [of now s]
      by (simp add: session_Send_def send_started sendDirect_eq [OF q] state_simps)
  qed
qed

text \<open>C19: \<open>Send\<close> on every branch. The data is refused if it is longer than \<open>MaxPacketLength\<close>, then if
  the session is not started or closed, then if the queue of pending packets does not take it; the
  answer says which. Exactly if there is no error, the data is the last of the pending packets, the
  time of the last activity has moved to now (never back), and the writer is woken if it waits. All
  else of the session stays as it is.\<close>

theorem Send_every_branch:
  assumes "queue_laws Q items" and "session_wf s"
  shows "\<exists>e s'. session_Send Q cfg now b s = Normal (e, s') \<and>
    e = (if int (length b) > sc_MaxPacketLength cfg then Some ErrPacketLengthOverflow
         else if ss_state s = stateInit then Some ErrSessionNotStarted
         else if ss_state s = stateClosed then Some ErrSessionClosed
         else if \<not> fst (q_enqueue Q (RawPacket b) (ss_pendingPackets s)) then Some ErrPendingPacketsFull
         else None) \<and>
    items (ss_pendingPackets s') = items (ss_pendingPackets s) @ (if e = None then [RawPacket b] else []) \<and>
    sint (ss_lastActiveTime s') =
      (if e = None then max (sint (ss_lastActiveTime s)) (sint now) else sint (ss_lastActiveTime s)) \<and>
    ss_notify s' = (ss_notify s \<or> e = None \<and> ss_waitNotify s) \<and>
    s'\<lparr>ss_pendingPackets := ss_pendingPackets s, ss_lastActiveTime := ss_lastActiveTime s,
       ss_notify := ss_notify s\<rparr> = s"
  by (rule session_Send_cases [OF assms])

definition ex_session :: "(int \<times> bool \<times> packet list) session" where
  "ex_session = (newSession list_queue_ops (session_config_filled ex_session_config) ''b'' True 1)\<lparr>
     ss_state := stateStarted, ss_lastActiveTime := 5\<rparr>"

lemma ex_session_fields:
  "session_wf ex_session" "ss_pendingPackets ex_session = (100, True, [])" "ss_state ex_session = stateStarted"
  "ss_lastActiveTime ex_session = 5" "ss_activeEnd ex_session" "ss_lastHeartbeatTime ex_session = 0"
  by (simp_all add: ex_session_def newSession_def session_wf_def state_simps list_queue_ops_def
      session_config_filled_def ex_session_config_def or_default_def)

lemma ex_max [simp]: "sc_MaxPacketLength (session_config_filled ex_session_config) = 1024"
  by (simp add: session_config_filled_def ex_session_config_def or_default_def)

lemma ex_enqueue [simp]: "q_enqueue list_queue_ops p (100, True, []) = (True, (100, True, [p]))"
  by (simp add: list_queue_ops_def)

theorem Send_every_branch_witness:
  "\<exists>s'. session_Send list_queue_ops (session_config_filled ex_session_config) 9 [1, 2] ex_session = Normal (None, s') \<and>
     sint (ss_lastActiveTime s') = 9"
  using Send_every_branch [OF list_queue_laws ex_session_fields(1), of "session_config_filled ex_session_config" 9 "[1, 2]"]
  by (auto simp: ex_session_fields state_simps)

section \<open>Ticks\<close>






section \<open>Closing\<close>

text \<open>C20: Closing a session, whoever does it. The first close wins: the session becomes closed for good,
  its connection is closed, its tick timer is stopped if the service is still started, and its entry
  in the session map goes, but only if the map still holds this very session under the name; every
  other session, entry and establishment stays. Any further close changes nothing.\<close>

theorem close_once_and_own_entry_only:
  assumes "svc_state_ok w" and "session_wf (sv_sess w i)" and "session_close E now err i w = Normal w'"
  shows "ss_state (sv_sess w' i) = stateClosed \<and>
    session_close E now' err' i w' = Normal w' \<and>
    (\<forall>n. sv_sessions w' n = (if ss_state (sv_sess w i) \<noteq> stateClosed \<and> n = ss_remoteNodeId (sv_sess w i) \<and>
        sv_sessions w n = Some (SRemote i) then None else sv_sessions w n)) \<and>
    (\<forall>j. j \<noteq> i \<longrightarrow> sv_sess w' j = sv_sess w j) \<and>
    sv_closedConns w' = sv_closedConns w \<union>
      (if ss_state (sv_sess w i) \<noteq> stateClosed then {ss_conn (sv_sess w i)} else {}) \<and>
    (if ss_state (sv_sess w i) \<noteq> stateClosed \<and> sv_state w = stateStarted
     then ts_StopTimer (env_T E) (ss_tickTimerId (sv_sess w i)) now (sv_timers w) = Normal (sv_timers w')
     else sv_timers w' = sv_timers w) \<and>
    sv_state w' = sv_state w \<and> sv_establishments w' = sv_establishments w \<and> sv_est w' = sv_est w"
proof (cases "ss_state (sv_sess w i) = stateClosed")
  case True
  then have "w' = w" using assms(3) by (simp add: session_close_def session_closeBaseLocked_def)
  then show ?thesis using True by (simp add: session_close_def session_closeBaseLocked_def)
next
  case False
  obtain t where t: "stopped_timers E now (ss_tickTimerId (sv_sess w i)) w = Normal t"
    and w': "w' = after_close (env_Q E) False i t w"
    using assms(3) False closeBaseLocked_eq [OF assms(1,2), of E now err False]
    by (auto simp: session_close_def)
  have "ss_state (sv_sess w' i) = stateClosed" by (simp add: w' after_close_def)
  moreover have "session_close E now' err' i w' = Normal w'"
    using calculation by (simp add: session_close_def session_closeBaseLocked_def)
  moreover have "sv_sessions w' n = (if n = ss_remoteNodeId (sv_sess w i) \<and>
        sv_sessions w n = Some (SRemote i) then None else sv_sessions w n)" for n
    by (auto simp: w' after_close_def map_compareAndDelete_def)
  moreover have "if sv_state w = stateStarted
     then ts_StopTimer (env_T E) (ss_tickTimerId (sv_sess w i)) now (sv_timers w) = Normal (sv_timers w')
     else sv_timers w' = sv_timers w"
    using t by (simp add: w' after_close_def stopped_timers_def split: if_splits)
  ultimately show ?thesis using False by (simp add: w' after_close_def)
qed

text \<open>A timer system that only remembers what was stopped.\<close>

definition ex_timer_ops :: "(node_id, timer_id list) timer_ops" where
  "ex_timer_ops = \<lparr>ts_StartTimer = (\<lambda>d p a now t. Normal (1, t)), ts_StopTimer = (\<lambda>i now t. Normal (i # t))\<rparr>"

definition ex_close_env :: "(int \<times> bool \<times> packet list, timer_id list) svc_env" where
  "ex_close_env = \<lparr>env_Q = list_queue_ops, env_T = ex_timer_ops\<rparr>"

definition ex_close_svc :: "bool \<Rightarrow> (int \<times> bool \<times> packet list, timer_id list) service" where
  "ex_close_svc idle = \<lparr>sv_cfg = ex_service_config\<lparr>cfg_Session := session_config_filled ex_session_config\<rparr>,
     sv_hasBytesManager = False, sv_listener = Some True,
     sv_state = stateStarted, sv_sessions = [''b'' \<mapsto> SRemote 0], sv_establishments = Map.empty,
     sv_cTickSessions = [], sv_cClosed = False, sv_timers = [],
     sv_sess = (\<lambda>_. ex_session\<lparr>ss_tickTimerId := 3, ss_lastActiveTime := (if idle then 5 else 150)\<rparr>), sv_sessNext = 1,
     sv_est = (\<lambda>_. new_establishment ''b''), sv_estNext = 0, sv_closedConns = {}, sv_delivered = [], sv_sent = []\<rparr>"

lemma ex_close_ok: "svc_state_ok (ex_close_svc b)" "session_wf (sv_sess (ex_close_svc b) 0)"
  using ex_session_fields(1) by (simp_all add: svc_state_ok_def ex_close_svc_def session_wf_def)

lemma ex_close_fields: "ss_conn (sv_sess (ex_close_svc b) 0) = 1" "ss_tickTimerId (sv_sess (ex_close_svc b) 0) = 3"
  "ss_remoteNodeId (sv_sess (ex_close_svc b) 0) = ''b''" "ss_state (sv_sess (ex_close_svc b) 0) = stateStarted"
  "\<not> ss_wlocked (sv_sess (ex_close_svc b) 0)" "sv_state (ex_close_svc b) = stateStarted"
  by (simp_all add: ex_close_svc_def ex_session_def newSession_def)

theorem close_once_and_own_entry_only_witness:
  "\<exists>w'. session_close ex_close_env 7 ErrSessionClosed 0 (ex_close_svc True) = Normal w' \<and>
     sv_sessions w' ''b'' = None \<and> sv_timers w' = [3] \<and> sv_closedConns w' = {1}"
proof -
  obtain w' where w': "session_close ex_close_env 7 ErrSessionClosed 0 (ex_close_svc True) = Normal w'"
    using closeBaseLocked_eq [OF ex_close_ok, of ex_close_env 7 ErrSessionClosed False True]
    by (auto simp: session_close_def ex_close_fields state_simps stopped_timers_def ex_close_env_def ex_timer_ops_def)
  show ?thesis
    using close_once_and_own_entry_only [OF ex_close_ok w'] w'
    by (auto simp: ex_close_fields state_simps ex_close_env_def ex_timer_ops_def)
      (simp_all add: ex_close_svc_def)
qed



end
