(* ===== verification/Cluster_Properties.thy ===== *)
theory Cluster_Properties
  imports Cluster Session_Properties
begin

text \<open>
  The agent: what a configuration has to hold, that \<open>ConnectNode\<close> is a use of the service's \<open>Connect\<close>,
  and what \<open>Send2Node\<close> does with its result.
\<close>

section \<open>A goroutine in ConnectNode among the others\<close>

text \<open>Goroutine \<open>t\<close> of the system runs the \<open>Connect\<close> inside \<open>ConnectNode(n)\<close>, once it is called; all
  other goroutines and calls go on as they like.\<close>

definition inner :: "node_id \<Rightarrow> agent_pc \<Rightarrow> (node_id \<times> pc) option \<Rightarrow> (node_id \<times> pc) option" where
  "inner n apc old = (case apc of CN_Connect addr pc \<Rightarrow> Some (n, pc) | _ \<Rightarrow> old)"

inductive agent_reach ::
    "('q, 't) svc_env \<Rightarrow> ('t \<Rightarrow> bool) \<Rightarrow> ('t \<Rightarrow> bool) \<Rightarrow> nat \<Rightarrow> node_id \<Rightarrow> ('q, 't) system \<Rightarrow> agent_pc \<Rightarrow> bool"
  for E tok room t n where
  called: "reachable E tok room S \<Longrightarrow> sys_th S t = None \<Longrightarrow> agent_reach E tok room t n S CN_Enter"
| own: "agent_reach E tok room t n S apc \<Longrightarrow> sane_clock now \<Longrightarrow> room (sv_timers (sys_svc S)) \<Longrightarrow>
    ConnectNode_step E now missed ans found n apc \<lparr>ag_service = sys_svc S\<rparr> = Normal (apc', a) \<Longrightarrow>
    agent_reach E tok room t n
      (S\<lparr>sys_svc := ag_service a, sys_th := (sys_th S)(t := inner n apc' (sys_th S t))\<rparr>) apc'"
| others: "agent_reach E tok room t n S apc \<Longrightarrow> sys_step E tok room S S' \<Longrightarrow> sys_th S' t = sys_th S t \<Longrightarrow>
    agent_reach E tok room t n S' apc"

definition agent_ok :: "nat \<Rightarrow> node_id \<Rightarrow> ('q, 't) system \<Rightarrow> agent_pc \<Rightarrow> bool" where
  "agent_ok t n S apc = (case apc of
     CN_Connect addr pc \<Rightarrow> sys_th S t = Some (n, pc)
   | CN_Done session err \<Rightarrow> result_ok (sys_svc S) n session err
   | _ \<Rightarrow> sys_th S t = None)"

lemma reachable_step: "reachable E tok room S \<Longrightarrow> sys_step E tok room S S' \<Longrightarrow> reachable E tok room S'"
  unfolding reachable_def by (meson rtranclp.rtrancl_into_rtrancl)

lemma sys_same: "S\<lparr>sys_svc := sys_svc S, sys_th := (sys_th S)(t := sys_th S t)\<rparr> = S"
  by (cases S) simp

context svc_timers
begin

lemma sys_step_grows:
  assumes "sys_step E tok room S S'" and "sys_ok tok S" and "sys_named S"
  shows "grows (sys_svc S) (sys_svc S')"
  using assms(1)
proof cases
  case (Goroutine t me pc now missed ans pc' w)
  have "th_ok (sys_svc S) me pc" "named (sys_svc S)" using assms(3) Goroutine(2) by (auto simp: sys_named_def)
  then have "keeps me (sys_svc S) (thread_step E now missed ans me pc (sys_svc S))"
    using wait_end [OF assms(2), of t me] Goroutine(2) by (intro keeps_thread) simp_all
  then show ?thesis unfolding Goroutine(5) Goroutine(1) by simp
next
  case (Timers_run t)
  then show ?thesis by (simp add: grows_def)
qed (auto intro!: shrinks_grows dest: listen_pc shrinks_Start shrinks_Close_mark shrinks_Close_rest shrinks_packet
      shrinks_Send shrinks_GetSession shrinks_onTicker shrinks_loop
      shrinks_close [folded SessionOnClosed_def])

lemma agent_inv:
  assumes "agent_reach E tok room t n S apc"
  shows "reachable E tok room S \<and> agent_ok t n S apc"
  using assms
proof induction
  case (called S)
  then show ?case by (simp add: agent_ok_def)
next
  case (others S apc S')
  have ok: "sys_ok tok S" "sys_named S" using others.IH reachable_ok reachable_named by blast+
  note g = sys_step_grows [OF others.hyps(2) ok]
  show ?case
    using others.IH others.hyps(3) result_ok_grows [OF g] reachable_step [OF _ others.hyps(2)]
    by (auto simp: agent_ok_def split: agent_pc.splits)
next
  case (own S apc now missed ans found apc' a)
  have reach: "reachable E tok room S" and ok: "agent_ok t n S apc" using own.IH by blast+
  let ?S' = "S\<lparr>sys_svc := ag_service a, sys_th := (sys_th S)(t := inner n apc' (sys_th S t))\<rparr>"
  show ?case
  proof (cases apc)
    case CN_Enter
    obtain r w where g: "service_GetSession now n (sys_svc S) = Normal (r, w)" and a: "ag_service a = w"
      and apc': "apc' = (case r of Some r \<Rightarrow> CN_Done (Some r) None | None \<Rightarrow> CN_GetNode)"
      using own.hyps(4) CN_Enter by (auto split: option.splits)
    have named: "named (sys_svc S)" using reachable_named [OF reach] by (simp add: sys_named_def)
    have S': "?S' = S\<lparr>sys_svc := w\<rparr>" using apc' a by (cases S) (simp add: inner_def split: option.split)
    have "reachable E tok room ?S'" unfolding S' by (rule reachable_step [OF reach sys_step.GetSession_called [OF g]])
    moreover have "agent_ok t n ?S' apc'"
      using GetSession_of [OF named g] ok CN_Enter unfolding apc' by (simp add: agent_ok_def result_ok_def inner_def a split: option.split)
    ultimately show ?thesis by blast
  next
    case CN_GetNode
    show ?thesis
    proof (cases "Agent_getNode found")
      case (Inl e)
      then have "apc' = CN_Done None (Some e)" "ag_service a = sys_svc S" using own.hyps(4) CN_GetNode by auto
      then show ?thesis using reach by (simp add: inner_def sys_same agent_ok_def result_ok_def)
    next
      case (Inr node)
      then have apc': "apc' = CN_Connect (nd_NodeAddr node) C_Enter" "ag_service a = sys_svc S"
        using own.hyps(4) CN_GetNode by auto
      have S': "?S' = S\<lparr>sys_th := (sys_th S)(t \<mapsto> (n, C_Enter))\<rparr>"
        unfolding apc' by (cases S) (simp add: inner_def)
      have "sys_th S t = None" using ok CN_GetNode by (simp add: agent_ok_def)
      then have "reachable E tok room ?S'"
        unfolding S' by (intro reachable_step [OF reach] sys_step.Connect_called)
      then show ?thesis using apc' by (simp add: agent_ok_def inner_def)
    qed
  next
    case (CN_Connect addr pc)
    have th: "sys_th S t = Some (n, pc)" using ok CN_Connect by (simp add: agent_ok_def)
    show ?thesis
    proof (cases "\<exists>session err. pc = C_Done session err")
      case True
      then obtain session err where pc: "pc = C_Done session err" by blast
      then have apc': "apc' = CN_Done session err" "ag_service a = sys_svc S"
        using own.hyps(4) CN_Connect by auto
      have "th_ok (sys_svc S) n (C_Done session err)"
        using reachable_named [OF reach] th pc by (simp add: sys_named_def)
      then have "result_ok (sys_svc S) n session err" by (simp add: th_ok_def)
      then show ?thesis using reach unfolding apc' by (simp add: inner_def sys_same agent_ok_def)
    next
      case False
      then have step: "ConnectNode_step E now missed ans found n apc \<lparr>ag_service = sys_svc S\<rparr> =
          obind (thread_step E now missed ans n pc (sys_svc S)) (\<lambda>(pc', w).
            Normal (CN_Connect addr pc', \<lparr>ag_service = w\<rparr>))"
        unfolding CN_Connect by (cases pc) simp_all
      then obtain pc' w where w: "thread_step E now missed ans n pc (sys_svc S) = Normal (pc', w)"
        and apc': "apc' = CN_Connect addr pc'" "ag_service a = w"
        using own.hyps(4) unfolding step
        by (cases "thread_step E now missed ans n pc (sys_svc S)") (auto split: prod.splits)
      have S': "?S' = S\<lparr>sys_svc := w, sys_th := (sys_th S)(t \<mapsto> (n, pc'))\<rparr>"
        unfolding apc' by (simp add: inner_def)
      have "reachable E tok room ?S'"
        unfolding S' by (rule reachable_step [OF reach], rule sys_step.Goroutine, fact th, fact own.hyps(2), fact own.hyps(3), fact w)
      then show ?thesis using apc' by (simp add: agent_ok_def inner_def)
    qed
  next
    case (CN_Done session err)
    then show ?thesis using own.hyps(4) by simp
  qed
qed

end

section \<open>Creating the agent\<close>

text \<open>Whether a list of service options leaves a bytes manager.\<close>

definition bytes_manager :: "service_option list \<Rightarrow> bool" where
  "bytes_manager opts = fold (\<lambda>opt b. case opt of WithServiceBytesManager bm \<Rightarrow> bm | WithServiceLogger \<Rightarrow> b) opts False"

lemma apply_options:
  "fold apply_service_option opts w = w\<lparr>sv_hasBytesManager :=
     fold (\<lambda>opt b. case opt of WithServiceBytesManager bm \<Rightarrow> bm | WithServiceLogger \<Rightarrow> b) opts (sv_hasBytesManager w)\<rparr>"
proof (induction opts arbitrary: w)
  case (Cons opt opts)
  then show ?case by (cases opt) simp_all
qed simp

lemma CreateService_accepts:
  "CreateService (Some c) False options timers0 sess0 est0 =
     (case ServiceConfig_init c of (c', Some e) \<Rightarrow> Inl e
      | (c', None) \<Rightarrow> Inr \<lparr>sv_cfg = c', sv_hasBytesManager = bytes_manager options, sv_listener = None,
         sv_state = stateInit, sv_sessions = [cfg_NodeId c' \<mapsto> SLocal], sv_establishments = Map.empty,
         sv_cTickSessions = [], sv_cClosed = False, sv_timers = timers0,
         sv_sess = sess0, sv_sessNext = 0, sv_est = est0, sv_estNext = 0,
         sv_closedConns = {}, sv_delivered = [], sv_sent = []\<rparr>)"
  by (simp add: CreateService_def ServiceConfig_init_ptr_def apply_options bytes_manager_def sessionMap_add_def
      sref_RemoteNodeId_def Let_def split: prod.split option.split)

text \<open>C34: \<open>CreateAgent\<close> succeeds exactly if the configuration has a center, a handler and an acceptable
  service configuration. The agent has the configured name, has not been started, knows nobody but
  itself, and has the bytes manager the last option that names one gives.\<close>

theorem CreateAgent_result:
  "(\<exists>a. CreateAgent cp options timers0 sess0 est0 = Inr a) =
     (\<exists>c cfg. cp = Some c \<and> ac_Center c \<and> ac_Handler c \<and> ac_Net c = Some cfg \<and> service_config_acceptable cfg) \<and>
   (CreateAgent cp options timers0 sess0 est0 = Inr a \<longrightarrow>
      Some (Agent_NodeId a) = map_option cfg_NodeId (Option.bind cp ac_Net) \<and>
      sv_state (ag_service a) = stateInit \<and> sv_listener (ag_service a) = None \<and>
      sv_sessions (ag_service a) = [Agent_NodeId a \<mapsto> SLocal] \<and> sv_establishments (ag_service a) = Map.empty \<and>
      sv_hasBytesManager (ag_service a) = bytes_manager (fold apply_agent_option options []))"
proof (cases "\<exists>c cfg. cp = Some c \<and> ac_Center c \<and> ac_Handler c \<and> ac_Net c = Some cfg")
  case False
  then have "\<exists>e. CreateAgent cp options timers0 sess0 est0 = Inl e"
    by (auto simp: CreateAgent_def AgentConfig_init_def split: option.split)
  then show ?thesis using False by auto
next
  case True
  then obtain c cfg where c: "cp = Some c" "ac_Center c" "ac_Handler c" "ac_Net c = Some cfg" by blast
  let ?opts = "fold apply_agent_option options []"
  have create: "CreateAgent cp options timers0 sess0 est0 =
      (case CreateService (Some cfg) False ?opts timers0 sess0 est0 of Inl e \<Rightarrow> Inl e | Inr w \<Rightarrow> Inr \<lparr>ag_service = w\<rparr>)"
    using c by (simp add: CreateAgent_def AgentConfig_init_def)
  show ?thesis
  proof (cases "service_config_acceptable cfg")
    case True
    have "cfg_NodeId (service_config_filled cfg) = cfg_NodeId cfg" by (simp add: service_config_filled_def)
    then show ?thesis
      using c True unfolding create CreateService_accepts ServiceConfig_init_result [OF True]
      by (auto simp: Agent_NodeId_def)
  next
    case False
    then obtain e c' where "ServiceConfig_init cfg = (c', Some e)"
      using ServiceConfig_init_accepts [of cfg] by (cases "ServiceConfig_init cfg") auto
    then show ?thesis using c False unfolding create CreateService_accepts by simp
  qed
qed

definition ex_agent_config :: agent_config where
  "ex_agent_config = \<lparr>ac_Center = True, ac_Net = Some ex_service_config, ac_Handler = True\<rparr>"

theorem CreateAgent_result_witness:
  "\<exists>a. CreateAgent (Some ex_agent_config) [WithServiceOptions [WithServiceBytesManager True], WithLogger]
        (0 :: nat) (\<lambda>_. ex_session) (\<lambda>_. new_establishment []) = Inr a \<and>
     Agent_NodeId a = ''a'' \<and> sv_hasBytesManager (ag_service a)"
proof -
  let ?cr = "CreateAgent (Some ex_agent_config) [WithServiceOptions [WithServiceBytesManager True], WithLogger]
        (0 :: nat) (\<lambda>_. ex_session) (\<lambda>_. new_establishment [])"
  obtain a where a: "?cr = Inr a"
    using CreateAgent_result [of "Some ex_agent_config" "[WithServiceOptions [WithServiceBytesManager True], WithLogger]"
        "0 :: nat" "\<lambda>_. ex_session" "\<lambda>_. new_establishment []"] ex_service_config_acceptable
    by (auto simp: ex_agent_config_def)
  then show ?thesis
    using CreateAgent_result [of "Some ex_agent_config" "[WithServiceOptions [WithServiceBytesManager True], WithLogger]"
        "0 :: nat" "\<lambda>_. ex_session" "\<lambda>_. new_establishment []" a]
    by (auto simp: ex_agent_config_def ex_service_config_def bytes_manager_def)
qed

section \<open>Sending to a node\<close>

text \<open>C15: \<open>Send2Node\<close>, once \<open>ConnectNode\<close> has returned, at any later moment of any reachable state. If there
  is no session, the answer is the error of \<open>ConnectNode\<close> with the message in front, and nothing has
  been done. Otherwise the session is one with the node asked for. If the node is the agent's own,
  the data is handed to the handler, under this name, and the handler's error is the answer; else
  the data is the last pending packet of that session exactly if the answer is no error, which is so
  exactly if it is not too long, the session is started and the queue takes it. No other session is
  touched.\<close>

theorem Send2Node_result:
  assumes "timer_system (env_T E) tok room live" and "agent_reach E tok room t n S (CN_Done session err)"
    and "queue_laws (env_Q E) items" and "w = sys_svc S"
  shows "\<exists>e a'. Send2Node_finish E now handlerErr data session err \<lparr>ag_service = w\<rparr> = Normal (e, a') \<and>
    (case session of
       None \<Rightarrow> (\<exists>ce. err = Some ce \<and> e = Some (WithMessage ce ''connect node'')) \<and> a' = \<lparr>ag_service = w\<rparr>
     | Some SLocal \<Rightarrow> n = Agent_NodeId \<lparr>ag_service = w\<rparr> \<and> e = handlerErr \<and>
         a' = \<lparr>ag_service = w\<lparr>sv_delivered := sv_delivered w @ [(n, data)]\<rparr>\<rparr>
     | Some (SRemote i) \<Rightarrow> ss_remoteNodeId (sv_sess w i) = n \<and>
         (e = None) = (int (length data) \<le> sc_MaxPacketLength (cfg_Session (sv_cfg w)) \<and>
            ss_state (sv_sess w i) = stateStarted \<and>
            fst (q_enqueue (env_Q E) (RawPacket data) (ss_pendingPackets (sv_sess w i)))) \<and>
         items (ss_pendingPackets (sv_sess (ag_service a') i)) =
           items (ss_pendingPackets (sv_sess w i)) @ (if e = None then [RawPacket data] else []) \<and>
         (\<forall>j. j \<noteq> i \<longrightarrow> sv_sess (ag_service a') j = sv_sess w j) \<and>
         ag_service a' = w\<lparr>sv_sess := sv_sess (ag_service a')\<rparr>)"
proof -
  have loc: "svc_timers E tok room live" unfolding svc_timers_def by (rule assms(1))
  have reach: "reachable E tok room S" and res: "result_ok w n session err"
    using svc_timers.agent_inv [OF loc assms(2)] assms(4) by (auto simp: agent_ok_def)
  have ok: "svc_ok tok w" using svc_timers.reachable_ok [OF loc reach] assms(4) by (simp add: sys_ok_def)
  show ?thesis
  proof (cases session)
    case None
    then show ?thesis using res by (auto simp: result_ok_def Send2Node_finish_def)
  next
    case (Some r)
    then have r: "of_node w n r" "err = None" using res by (simp_all add: result_ok_def)
    show ?thesis
    proof (cases r)
      case SLocal
      then show ?thesis
        using Some r by (simp add: Send2Node_finish_def sref_Send_def service_onSessionBytes_def
            of_node_def Agent_NodeId_def sref_RemoteNodeId_def)
    next
      case (SRemote i)
      have wf: "session_wf (sv_sess w i)" and id: "ss_remoteNodeId (sv_sess w i) = n"
        using r(1) SRemote ok by (simp_all add: of_node_def svc_ok_def)
      obtain e s' where s': "session_Send (env_Q E) (cfg_Session (sv_cfg w)) now data (sv_sess w i) = Normal (e, s')"
        and e: "e = (if int (length data) > sc_MaxPacketLength (cfg_Session (sv_cfg w)) then Some ErrPacketLengthOverflow
         else if ss_state (sv_sess w i) = stateInit then Some ErrSessionNotStarted
         else if ss_state (sv_sess w i) = stateClosed then Some ErrSessionClosed
         else if \<not> fst (q_enqueue (env_Q E) (RawPacket data) (ss_pendingPackets (sv_sess w i))) then Some ErrPendingPacketsFull
         else None)"
        and q: "items (ss_pendingPackets s') =
          items (ss_pendingPackets (sv_sess w i)) @ (if e = None then [RawPacket data] else [])"
        using session_Send_cases [OF assms(3) wf, of "cfg_Session (sv_cfg w)" now data] by blast
      have "(e = None) = (int (length data) \<le> sc_MaxPacketLength (cfg_Session (sv_cfg w)) \<and>
            ss_state (sv_sess w i) = stateStarted \<and>
            fst (q_enqueue (env_Q E) (RawPacket data) (ss_pendingPackets (sv_sess w i))))"
        using wf unfolding e by (auto simp: session_wf_def state_simps)
      then show ?thesis
        using Some SRemote r(2) id s' q
        by (simp add: Send2Node_finish_def sref_Send_def sess_update_def)
    qed
  qed
qed

lemma ex_agent_done: "agent_reach heap_env heap_tok th_room 1 ''a'' ex_sys (CN_Done (Some SLocal) None)"
proof -
  have "agent_reach heap_env heap_tok th_room 1 ''a'' ex_sys CN_Enter"
    by (rule agent_reach.called [OF ex_sys_reachable]) (simp add: ex_sys_svc)
  moreover have go: "ConnectNode_step heap_env 7 False Go (Inl ErrSessionClosed) ''a'' CN_Enter \<lparr>ag_service = sys_svc ex_sys\<rparr> =
      Normal (CN_Done (Some SLocal) None, \<lparr>ag_service = sys_svc ex_sys\<rparr>)"
    by (simp add: service_GetSession_def service_lockState_def service_getSession_def
        sessionMap_get_def sref_keepActive_def ex_sys_svc)
  ultimately have "agent_reach heap_env heap_tok th_room 1 ''a''
      (ex_sys\<lparr>sys_svc := ag_service \<lparr>ag_service = sys_svc ex_sys\<rparr>,
         sys_th := (sys_th ex_sys)(1 := inner ''a'' (CN_Done (Some SLocal) None) (sys_th ex_sys 1))\<rparr>)
      (CN_Done (Some SLocal) None)"
    using sane_clock_7 by (intro agent_reach.own [OF _ _ _ go]) (simp_all add: ex_sys_svc ex_room)
  then show ?thesis by (simp add: inner_def sys_same)
qed

theorem Send2Node_result_witness:
  "\<exists>a'. Send2Node_finish heap_env 7 None [1, 2] (Some SLocal) None \<lparr>ag_service = sys_svc ex_sys\<rparr> = Normal (None, a') \<and>
     sv_delivered (ag_service a') = sv_delivered (sys_svc ex_sys) @ [(''a'', [1, 2])]"
proof -
  have "queue_laws (env_Q heap_env) (\<lambda>(limit, open, ps). ps)" using list_queue_laws by (simp add: heap_env_def)
  from Send2Node_result [OF heap_timers ex_agent_done this refl, of 7 None "[1, 2]"] show ?thesis by auto
qed

section \<open>Receiving from a node\<close>

lemma delivered_stop: "stopSessionTicker E now tid w = Normal w' \<Longrightarrow> sv_delivered w' = sv_delivered w"
  by (auto simp: stopSessionTicker_def split: option.splits)

lemma delivered_close:
  "session_closeBaseLocked E now err locked i w = Normal w' \<Longrightarrow> sv_delivered w' = sv_delivered w"
  by (auto simp: session_closeBaseLocked_def Let_def close_conn_def sess_update_def onSessionClosed_def
      sessionMap_compareAndDelete_def case_prod_beta dest!: delivered_stop split: if_splits)

text \<open>C33: What a packet does to the handler. The bytes of a raw packet are given to \<open>OnSessionBytes\<close>, and so
  to the agent's handler, once, unchanged and under the name of the node at the other end, the
  session has been active at this time, and the handler's error goes back to the packet loop.
  Heartbeats and the packets of the close protocol never reach the handler and never give an error.\<close>

theorem packet_reaches_handler:
  assumes "SessionOnPacket E now handlerErr p i w = Normal (e, w')"
  shows "sv_delivered w' = sv_delivered w @
      (case p of RawPacket b \<Rightarrow> [Agent_OnSessionBytes \<lparr>ag_service = w\<rparr> (SRemote i) b] | _ \<Rightarrow> []) \<and>
    (case p of RawPacket b \<Rightarrow> e = handlerErr \<and> Agent_OnSessionBytes \<lparr>ag_service = w\<rparr> (SRemote i) b =
         (ss_remoteNodeId (sv_sess w i), b) \<and>
         sint (ss_lastActiveTime (sv_sess w' i)) = max (sint (ss_lastActiveTime (sv_sess w i))) (sint now)
     | _ \<Rightarrow> e = None)"
proof (cases p)
  case (HeartbeatPacket b)
  then show ?thesis
    using assms by (auto simp: SessionOnPacket_def sessionHandleHeartbeat_def sess_update_def split: if_splits)
next
  case CloseReqPacket
  then show ?thesis
    using assms
    by (auto simp: SessionOnPacket_def sessionHandleCloseReq_def Let_def sess_update_def
        dest!: delivered_close split: option.splits if_splits)
next
  case (CloseRespPacket b)
  then show ?thesis
    using assms by (auto simp: SessionOnPacket_def sessionHandleCloseResp_def session_close_def
        dest!: delivered_close split: if_splits)
next
  case (RawPacket b)
  then show ?thesis
    using assms refreshActiveTime_max [of now "sv_sess w i"]
    by (auto simp: SessionOnPacket_def sessionHandleRaw_def service_onSessionBytes_def Agent_OnSessionBytes_def
        sref_RemoteNodeId_def sess_update_def session_simps)
qed

theorem packet_reaches_handler_witness:
  "\<exists>w'. SessionOnPacket heap_env 7 None (RawPacket [1, 2]) 0 (sys_svc ex_sys) = Normal (None, w') \<and>
     length (sv_delivered w') = Suc (length (sv_delivered (sys_svc ex_sys)))"
proof -
  obtain e w' where w': "SessionOnPacket heap_env 7 None (RawPacket [1, 2]) 0 (sys_svc ex_sys) = Normal (e, w')"
    by (cases "sessionHandleRaw 7 None [1, 2] 0 (sys_svc ex_sys)") (simp add: SessionOnPacket_def)
  show ?thesis using packet_reaches_handler [OF w'] w' by simp
qed

end
