(* ===== verification/Timer_Loop.thy ===== *)
theory Timer_Loop
  imports Timer_Update
begin

text \<open>
  The goroutine \<open>loop\<close> of the timer system (net/timer_heap.go) beside the calls of its users: every
  critical section is a step, and so is the system timer that runs out. Between two turns of
  \<open>update\<close> the callbacks run outside the lock, so anybody may start and stop timers there.
\<close>

section \<open>The loop\<close>

text \<open>Where the goroutine is: at the select, in \<open>update\<close> before a turn, returned.\<close>

datatype loop_pc = L_Select | L_Update | L_Done

text \<open>\<open>preferStopped\<close> is the choice of the runtime when both cases of the select are ready. The second
  component is the callback that \<open>invokeCallback\<close> runs at the end of the turn.\<close>

fun loop_step ::
    "'h heap_ops \<Rightarrow> bool \<Rightarrow> int64 \<Rightarrow> loop_pc \<Rightarrow> ('a, 'c, 'h) timer_heap \<Rightarrow>
       (loop_pc \<times> ('c \<times> timer_id \<times> 'a) option \<times> ('a, 'c, 'h) timer_heap) outcome" where
  "loop_step H preferStopped now L_Select th =
     (if th_sysPending th \<and> \<not> (th_cStopped th \<and> preferStopped) then
        Normal (L_Update, None, th\<lparr>th_sysPending := False\<rparr>)
      else if th_cStopped th then Normal (L_Done, None, th)
      else Blocked)"
| "loop_step H preferStopped now L_Update th =
     obind (update_turn H now th) (\<lambda>(r, th1). Normal (case r of
         UpdateReturns \<Rightarrow> (L_Select, None, th1)
       | CallsBack f i a \<Rightarrow> (L_Update, Some (f, i, a), th1)))"
| "loop_step H preferStopped now L_Done th = Blocked"

text \<open>The system timer of the Go runtime: at its time it sends into its channel.\<close>

definition sys_fires :: "int64 \<Rightarrow> ('a, 'c, 'h) timer_heap \<Rightarrow> ('a, 'c, 'h) timer_heap option" where
  "sys_fires now th =
     (case th_sysArmed th of None \<Rightarrow> None
      | Some e \<Rightarrow> if i64_less now e then None else Some (th\<lparr>th_sysArmed := None, th_sysPending := True\<rparr>))"

section \<open>Runs\<close>

inductive timer_step ::
    "'h heap_ops \<Rightarrow> loop_pc \<times> ('a, 'c, 'h) timer_heap \<Rightarrow> loop_pc \<times> ('a, 'c, 'h) timer_heap \<Rightarrow> bool"
  for H where
  timer_started: "sane_clock now \<Longrightarrow> sane_delay delay \<Longrightarrow> th_room th \<Longrightarrow>
    StartTimer H delay periodic a (Some f) now th = Normal (i, th') \<Longrightarrow> timer_step H (pc, th) (pc, th')"
| timer_stopped: "StopTimer H i now th = Normal th' \<Longrightarrow> timer_step H (pc, th) (pc, th')"
| all_stopped: "TimerHeap_Stop th = Normal th' \<Longrightarrow> timer_step H (pc, th) (pc, th')"
| sys_timer: "sys_fires now th = Some th' \<Longrightarrow> timer_step H (pc, th) (pc, th')"
| loop_turns: "sane_clock now \<Longrightarrow> loop_step H prefer now pc th = Normal (pc', cb, th') \<Longrightarrow>
    timer_step H (pc, th) (pc', th')"

definition timer_reach ::
    "'h heap_ops \<Rightarrow> loop_pc \<times> ('a, 'c, 'h) timer_heap \<Rightarrow> bool" where
  "timer_reach H s \<longleftrightarrow> (\<exists>now store0. (timer_step H)\<^sup>*\<^sup>* (L_Select, NewTimerHeap H now store0) s)"

text \<open>No timer is forgotten: while the loop sleeps and has not been woken, the system timer runs out no
  later than any of the timers.\<close>

definition armed_for :: "('a, 'c, 'h) timer_heap \<Rightarrow> int \<Rightarrow> bool" where
  "armed_for th e \<longleftrightarrow> th_sysPending th \<or> (\<exists>a. th_sysArmed th = Some a \<and> sint a \<le> e)"

definition awake :: "loop_pc \<times> ('a, 'c, 'h) timer_heap \<Rightarrow> bool" where
  "awake s \<longleftrightarrow> (case s of (pc, th) \<Rightarrow> th_stopped th \<or> pc = L_Update \<or>
     (\<forall>j u. th_view th j = Some u \<longrightarrow> armed_for th (tv_expire u)))"

definition loop_ok ::
    "'h heap_ops \<Rightarrow> ((nat \<Rightarrow> nat \<Rightarrow> bool) \<Rightarrow> 'h \<Rightarrow> bool) \<Rightarrow> loop_pc \<times> ('a, 'c, 'h) timer_heap \<Rightarrow> bool" where
  "loop_ok H ok s \<longleftrightarrow> th_inv H ok (snd s) \<and> awake s \<and> (fst s = L_Done \<longrightarrow> th_stopped (snd s))"

lemma StartTimer_store:
  assumes "StartTimer H delay periodic a (Some f) now th = Normal (i, th')" and "\<not> th_stopped th" and "th_room th"
  obtains h' where
    "th_timerHeap th' = Some h'" "th_timerMap th' = (th_timerMap th)(i \<mapsto> th_next th)"
    "th_store th' = set_indices 0 (hp_elems H h') ((th_store th)(th_next th := \<lparr>t_id = i, t_heapIndex = - 1,
       t_delay = delay, t_periodic = periodic, t_args = a, t_cb = f, t_expireAt = now + delay\<rparr>))"
    "\<not> th_stopped th'"
    "th_next th = hp_Top H h' \<longrightarrow> th_sysArmed th' = Some (now + delay) \<and> \<not> th_sysPending th'"
    "th_next th \<noteq> hp_Top H h' \<longrightarrow> th_sysArmed th' = th_sysArmed th \<and> th_sysPending th' = th_sysPending th"
  using assms
  by (cases "th_timerHeap th")
    (auto simp: StartTimer_def genTimerId_room [OF assms(3)] addTimer_def with_heap_def put_heap_def Let_def
      resetSysTimer_def stopSysTimer_def split: if_splits)

lemma StopTimer_store:
  assumes "StopTimer H i now th = Normal th'" and "\<not> th_stopped th"
  shows "th' = th \<or> (\<exists>p h h'. th_timerMap th i = Some p \<and> th_timerHeap th = Some h \<and> th_timerHeap th' = Some h' \<and>
    th_timerMap th' = (th_timerMap th)(t_id (th_store th' p) := None) \<and> t_id (th_store th' p) = t_id (th_store th p) \<and>
    th_store th' = set_indices 0 (hp_elems H h') (th_store th) \<and> \<not> th_stopped th' \<and>
    (p \<noteq> hp_Top H h \<longrightarrow> th_sysArmed th' = th_sysArmed th \<and> th_sysPending th' = th_sysPending th) \<and>
    (p = hp_Top H h \<longrightarrow> hp_Len H h' \<noteq> 0 \<longrightarrow>
       th_sysArmed th' = Some (t_expireAt (th_store th' (hp_Top H h')))))"
  using assms
  by (cases "th_timerMap th i"; cases "th_timerHeap th")
    (auto simp: StopTimer_def remTimer_def with_heap_def put_heap_def Let_def
      resetSysTimer_def stopSysTimer_def split: if_splits)

context heap_library
begin

text \<open>The top of the heap is the least.\<close>

lemma armed_top:
  assumes "th_inv H ok th" and "\<not> th_stopped th" and "th_timerHeap th = Some h"
    and "hp_Len H h \<noteq> 0 \<Longrightarrow> armed_for th (sint (t_expireAt (th_store th (hp_Top H h))))"
  shows "\<forall>j u. th_view th j = Some u \<longrightarrow> armed_for th (tv_expire u)"
proof (intro allI impI)
  fix j u assume j: "th_view th j = Some u"
  then have "th_view th \<noteq> Map.empty" by auto
  then obtain p where "hp_Top H h = p" "hp_Len H h \<noteq> 0" "sint (t_expireAt (th_store th p)) \<le> tv_expire u"
    using update_top [OF assms(1,2)] assms(3) j by (metis option.inject)
  then show "armed_for th (tv_expire u)" using assms(4) by (auto simp: armed_for_def)
qed

lemma top_view:
  assumes "th_inv H ok th" and "\<not> th_stopped th" and "th_timerHeap th = Some h" and "hp_Len H h \<noteq> 0"
  shows "th_view th (t_id (th_store th (hp_Top H h))) = Some (view_of (th_store th (hp_Top H h)))"
    and "th_timerMap th (t_id (th_store th (hp_Top H h))) = Some (hp_Top H h)"
proof -
  have ok: "ok (th_less (th_store th)) h"
    and ent: "entries_ok (th_store th) (th_timerMap th) (th_next th) (th_timerIdGen th) (hp_elems H h)"
    using th_invE [OF assms(1,2)] assms(3) by (metis option.inject)+
  have "hp_elems H h \<noteq> []" using assms(4) len_elems by auto
  then have "hp_Top H h \<in> set (hp_elems H h)" using top_least [OF ok entries_linear [OF ent]] by blast
  then show "th_timerMap th (t_id (th_store th (hp_Top H h))) = Some (hp_Top H h)"
    using ent by (simp add: entries_ok_def)
  then show "th_view th (t_id (th_store th (hp_Top H h))) = Some (view_of (th_store th (hp_Top H h)))"
    by (simp add: th_view_def)
qed

lemma start_armed:
  assumes "StartTimer H delay periodic a (Some f) now th = Normal (i, th')"
    and inv: "th_inv H ok th" and room: "th_room th" and now: "sane_clock now" "sane_delay delay"
    and run: "\<not> th_stopped th" and armed: "\<forall>j u. th_view th j = Some u \<longrightarrow> armed_for th (tv_expire u)"
  shows "\<forall>j u. th_view th' j = Some u \<longrightarrow> armed_for th' (tv_expire u)"
proof -
  have inv': "th_inv H ok th'" using StartTimer_law [OF inv room now assms(1)] by blast
  obtain h' where h': "th_timerHeap th' = Some h'" and map': "th_timerMap th' = (th_timerMap th)(i \<mapsto> th_next th)"
    and st': "th_store th' = set_indices 0 (hp_elems H h') ((th_store th)(th_next th := \<lparr>t_id = i, t_heapIndex = - 1,
       t_delay = delay, t_periodic = periodic, t_args = a, t_cb = f, t_expireAt = now + delay\<rparr>))"
    and run': "\<not> th_stopped th'"
    and top: "th_next th = hp_Top H h' \<longrightarrow> th_sysArmed th' = Some (now + delay) \<and> \<not> th_sysPending th'"
    and below: "th_next th \<noteq> hp_Top H h' \<longrightarrow> th_sysArmed th' = th_sysArmed th \<and> th_sysPending th' = th_sysPending th"
    by (rule StartTimer_store [OF assms(1) run room])
  show ?thesis
  proof (rule armed_top [OF inv' run' h'])
    assume len: "hp_Len H h' \<noteq> 0"
    let ?q = "hp_Top H h'"
    show "armed_for th' (sint (t_expireAt (th_store th' ?q)))"
    proof (cases "th_next th = ?q")
      case True
      then show ?thesis using top True st' by (simp add: armed_for_def)
    next
      case False
      have "th_timerMap th' (t_id (th_store th' ?q)) = Some ?q" by (rule top_view(2) [OF inv' run' h' len])
      then have "th_timerMap th (t_id (th_store th' ?q)) = Some ?q" using False map' by (auto split: if_splits)
      then have "th_view th (t_id (th_store th' ?q)) = Some (view_of (th_store th ?q))" by (simp add: th_view_def)
      then have "armed_for th (sint (t_expireAt (th_store th ?q)))" using armed by (fastforce simp: view_of_def)
      then show ?thesis using below False st' by (simp add: armed_for_def)
    qed
  qed
qed

lemma stop_armed:
  assumes "StopTimer H i now th = Normal th'"
    and inv: "th_inv H ok th" and run: "\<not> th_stopped th"
    and armed: "\<forall>j u. th_view th j = Some u \<longrightarrow> armed_for th (tv_expire u)"
  shows "\<forall>j u. th_view th' j = Some u \<longrightarrow> armed_for th' (tv_expire u)"
proof (cases "th' = th")
  case False
  have inv': "th_inv H ok th'" using StopTimer_law [OF inv, of i now] assms(1) by auto
  obtain p h h' where p: "th_timerMap th i = Some p" and h: "th_timerHeap th = Some h" and h': "th_timerHeap th' = Some h'"
    and map': "th_timerMap th' = (th_timerMap th)(t_id (th_store th' p) := None)"
    and st': "th_store th' = set_indices 0 (hp_elems H h') (th_store th)" and run': "\<not> th_stopped th'"
    and below: "p \<noteq> hp_Top H h \<Longrightarrow> th_sysArmed th' = th_sysArmed th \<and> th_sysPending th' = th_sysPending th"
    and top: "p = hp_Top H h \<Longrightarrow> hp_Len H h' \<noteq> 0 \<Longrightarrow> th_sysArmed th' = Some (t_expireAt (th_store th' (hp_Top H h')))"
    using StopTimer_store [OF assms(1) run] False by blast
  show ?thesis
  proof (rule armed_top [OF inv' run' h'])
    assume len: "hp_Len H h' \<noteq> 0"
    let ?q = "hp_Top H h'"
    show "armed_for th' (sint (t_expireAt (th_store th' ?q)))"
    proof (cases "p = hp_Top H h")
      case True
      then show ?thesis using top [OF True len] by (simp add: armed_for_def)
    next
      case below_top: False
      have "th_timerMap th' (t_id (th_store th' ?q)) = Some ?q" by (rule top_view(2) [OF inv' run' h' len])
      then have "th_timerMap th (t_id (th_store th' ?q)) = Some ?q" using map' by (auto split: if_splits)
      then have "th_view th (t_id (th_store th' ?q)) = Some (view_of (th_store th ?q))" by (simp add: th_view_def)
      then have "armed_for th (sint (t_expireAt (th_store th ?q)))" using armed by (fastforce simp: view_of_def)
      then show ?thesis using below [OF below_top] st' by (simp add: armed_for_def)
    qed
  qed
qed (use armed in simp)

text \<open>A turn of \<open>update\<close>.\<close>

lemma turn_ok:
  assumes "update_turn H now th = Normal (r, th')" and inv: "th_inv H ok th" and now: "sane_clock now"
  shows "th_inv H ok th' \<and> \<not> th_stopped th' \<and>
    (r = UpdateReturns \<longrightarrow> (\<forall>j u. th_view th' j = Some u \<longrightarrow> armed_for th' (tv_expire u)))"
proof -
  have run: "\<not> th_stopped th" using assms(1) inv by (auto simp: th_inv_def update_turn_def with_heap_def)
  show ?thesis
  proof (cases "\<exists>j u. th_view th j = Some u \<and> tv_expire u \<le> sint now")
    case True
    then obtain j u where "th_view th j = Some u" "tv_expire u \<le> sint now" by blast
    then show ?thesis using update_calls [OF inv run now] assms(1) by (metis outcome.inject prod.inject update_result.distinct(1))
  next
    case False
    then have "\<forall>j u. th_view th j = Some u \<longrightarrow> sint now < tv_expire u" by (meson not_le)
    then show ?thesis using update_returns [OF inv run] assms(1) unfolding armed_for_def
      by (metis outcome.inject prod.inject)
  qed
qed

lemma th_inv_sys: "th_inv H ok (th\<lparr>th_sysArmed := x, th_sysPending := y\<rparr>) = th_inv H ok th"
  "th_inv H ok (th\<lparr>th_sysPending := y\<rparr>) = th_inv H ok th"
  "th_inv H ok (th\<lparr>th_sysArmed := x\<rparr>) = th_inv H ok th"
  by (simp_all add: th_inv_def)

lemma loop_ok_step:
  assumes "timer_step H s s'" and "loop_ok H ok s"
  shows "loop_ok H ok s'"
  using assms(1)
proof cases
  case (timer_started now delay th periodic a f i th' pc)
  have inv: "th_inv H ok th" and aw: "awake (pc, th)" and dn: "pc = L_Done \<longrightarrow> th_stopped th"
    using assms(2) timer_started by (simp_all add: loop_ok_def)
  have inv': "th_inv H ok th'" using StartTimer_law [OF inv timer_started(5,3,4,6)] by blast
  show ?thesis
  proof (cases "th_stopped th")
    case True
    then have "th_stopped th'"
      using StartTimer_stopped [OF True timer_started(4), of periodic a f now] timer_started(6)
      by (metis outcome.inject prod.inject)
    then show ?thesis using inv' timer_started(2) by (simp add: loop_ok_def awake_def)
  next
    case False
    have "\<not> th_stopped th'" using StartTimer_store [OF timer_started(6) False timer_started(5)] by blast
    then show ?thesis
      using inv' aw dn False start_armed [OF timer_started(6) inv timer_started(5,3,4) False]
      unfolding timer_started(2) by (auto simp: loop_ok_def awake_def)
  qed
next
  case (timer_stopped i now th th' pc)
  have inv: "th_inv H ok th" and aw: "awake (pc, th)" and dn: "pc = L_Done \<longrightarrow> th_stopped th"
    using assms(2) timer_stopped by (simp_all add: loop_ok_def)
  have inv': "th_inv H ok th'" using StopTimer_law [OF inv, of i now] timer_stopped(3) by auto
  show ?thesis
  proof (cases "th_stopped th")
    case True
    then have "th' = th" using timer_stopped(3) by (simp add: StopTimer_def)
    then show ?thesis using assms(2) timer_stopped by simp
  next
    case False
    then show ?thesis
      using inv' aw dn stop_armed [OF timer_stopped(3) inv False]
      unfolding timer_stopped(2) by (auto simp: loop_ok_def awake_def)
  qed
next
  case (all_stopped th th' pc)
  have "th_inv H ok th'" "th_stopped th'"
    using assms(2) all_stopped by (auto simp: loop_ok_def TimerHeap_Stop_def stopSysTimer_def th_inv_def split: if_splits)
  then show ?thesis using all_stopped(2) by (simp add: loop_ok_def awake_def)
next
  case (sys_timer now th th' pc)
  then have "th' = th\<lparr>th_sysArmed := None, th_sysPending := True\<rparr>"
    by (auto simp: sys_fires_def split: option.splits if_splits)
  then show ?thesis using assms(2) sys_timer by (auto simp: loop_ok_def awake_def th_inv_sys armed_for_def)
next
  case (loop_turns now ps pc th pc' cb th')
  have inv: "th_inv H ok th" and aw: "awake (pc, th)" using assms(2) loop_turns by (simp_all add: loop_ok_def)
  show ?thesis
  proof (cases pc)
    case L_Select
    then have "pc' = L_Update \<and> th' = th\<lparr>th_sysPending := False\<rparr> \<or> pc' = L_Done \<and> th' = th \<and> th_cStopped th"
      using loop_turns(4) by (auto split: if_splits)
    then show ?thesis using inv loop_turns(2) by (auto simp: loop_ok_def awake_def th_inv_sys) (auto simp: th_inv_def split: if_splits)
  next
    case L_Update
    obtain r th1 where t: "update_turn H now th = Normal (r, th1)"
      using loop_turns(4) L_Update by (cases "update_turn H now th") auto
    then have r: "update_turn H now th = Normal (r, th')"
      and pc': "pc' = (case r of UpdateReturns \<Rightarrow> L_Select | CallsBack f i a \<Rightarrow> L_Update)"
      using loop_turns(4) L_Update by (cases r; simp)+
    show ?thesis using turn_ok [OF r inv loop_turns(3)] unfolding loop_turns(2) pc'
      by (cases r) (simp_all add: loop_ok_def awake_def)
  next
    case L_Done
    then show ?thesis using loop_turns(4) by simp
  qed
qed

lemma loop_ok_reach:
  assumes "timer_reach H s"
  shows "loop_ok H ok s"
proof -
  obtain now store0 where "(timer_step H)\<^sup>*\<^sup>* (L_Select, NewTimerHeap H now store0) s"
    using assms by (auto simp: timer_reach_def)
  then show ?thesis
  proof (induction rule: rtranclp_induct)
    case base
    have "th_view (NewTimerHeap H now store0) = Map.empty" by (simp add: th_view_def NewTimerHeap_def)
    then show ?case by (simp add: loop_ok_def awake_def th_inv_new)
  next
    case (step y z)
    then show ?case using loop_ok_step by blast
  qed
qed

end

end
