(* ===== verification/Timer_Properties.thy ===== *)
theory Timer_Properties
  imports Timer_Loop
begin

text \<open>
  The properties of the timer system, for every heap that keeps the library's contract.
\<close>

lemma slh_library: "heap_library sorted_list_heap (\<lambda>lt xs. sorted_wrt (\<lambda>a b. \<not> lt b a) xs)"
  by (rule slh.heap_library_axioms)

text \<open>C18: The timers of a timer system are a map from identifiers to the arguments they were started
  with. \<open>StartTimer\<close> gives an identifier that is not in use and is not \<open>TimerIdNone\<close>, and adds the
  entry; \<open>StopTimer\<close> removes the entry, whether it is there or not; on a stopped system both do
  nothing and a start returns \<open>TimerIdNone\<close>; \<open>Stop\<close> leaves no entry. None of them panics, and
  together they keep heap, map and heap indices consistent, whatever heap implementation is used.\<close>

theorem timer_heap_contract:
  assumes "heap_library H ok" and "th_inv H ok th" and "sane_clock now" and "sane_delay delay" and "th_room th"
  shows "(\<exists>i th'. StartTimer H delay periodic a (Some f) now th = Normal (i, th') \<and> th_inv H ok th' \<and>
      (if th_stopped th then i = TimerIdNone \<and> th_live th' = Map.empty
       else i \<noteq> TimerIdNone \<and> th_live th i = None \<and> th_live th' = (th_live th)(i \<mapsto> a))) \<and>
    (\<exists>th'. StopTimer H j now th = Normal th' \<and> th_inv H ok th' \<and> th_live th' = (th_live th)(j := None)) \<and>
    (\<exists>th'. TimerHeap_Stop th = Normal th' \<and> th_inv H ok th' \<and> th_stopped th' \<and> th_live th' = Map.empty)"
proof (intro conjI)
  show "\<exists>i th'. StartTimer H delay periodic a (Some f) now th = Normal (i, th') \<and> th_inv H ok th' \<and>
      (if th_stopped th then i = TimerIdNone \<and> th_live th' = Map.empty
       else i \<noteq> TimerIdNone \<and> th_live th i = None \<and> th_live th' = (th_live th)(i \<mapsto> a))"
  proof (cases "th_stopped th")
    case True
    obtain th' where th': "StartTimer H delay periodic a (Some f) now th = Normal (TimerIdNone, th')"
      "th_stopped th'" "th_timerMap th' = th_timerMap th"
      by (rule heap_library.StartTimer_stopped [OF assms(1) True assms(4)])
    have "th_inv H ok th'" using heap_library.StartTimer_law [OF assms(1,2,5,3,4) th'(1)] by blast
    then show ?thesis using th' True assms(2) by (auto simp: th_inv_def th_live_def)
  next
    case False
    then show ?thesis
      using heap_library.StartTimer_ok [OF assms(1,2) False assms(5,3,4), of periodic a f]
      by (metis th_live_def option.map(1))
  qed
  show "\<exists>th'. StopTimer H j now th = Normal th' \<and> th_inv H ok th' \<and> th_live th' = (th_live th)(j := None)"
    by (rule heap_library.StopTimer_law [OF assms(1,2)])
  show "\<exists>th'. TimerHeap_Stop th = Normal th' \<and> th_inv H ok th' \<and> th_stopped th' \<and> th_live th' = Map.empty"
    using assms(2) by (auto simp: TimerHeap_Stop_def th_inv_def th_live_def stopSysTimer_def)
qed

definition ex_th :: "(string, unit, nat list) timer_heap" where
  "ex_th = NewTimerHeap sorted_list_heap 0 (\<lambda>_. \<lparr>t_id = 0, t_heapIndex = 0, t_delay = 0, t_periodic = False,
     t_args = '''', t_cb = (), t_expireAt = 0\<rparr>)"

lemma ex_th_new: "th_inv sorted_list_heap (\<lambda>lt xs. sorted_wrt (\<lambda>a b. \<not> lt b a) xs) ex_th"
  "\<not> th_stopped ex_th" "th_room ex_th" "th_live ex_th = Map.empty" "th_timerMap ex_th = Map.empty"
  unfolding ex_th_def by (rule slh.th_inv_new) (simp_all add: th_live_def NewTimerHeap_def th_room_def)

lemma ex_th_sane: "sane_clock 7" "sane_delay 20"
  by (simp_all add: sane_clock_def sane_delay_def)

theorem timer_heap_contract_witness:
  "\<exists>i th'. StartTimer sorted_list_heap 20 True ''n'' (Some ()) 7 ex_th = Normal (i, th') \<and>
     i \<noteq> TimerIdNone \<and> th_live th' = [i \<mapsto> ''n'']"
  using timer_heap_contract [OF slh_library ex_th_new(1) ex_th_sane ex_th_new(3), of True "''n''" "()" 0]
  by (auto simp: ex_th_new)


lemma ex_th_started:
  obtains i th' where "th_inv sorted_list_heap (\<lambda>lt xs. sorted_wrt (\<lambda>a b. \<not> lt b a) xs) th'" "\<not> th_stopped th'"
    "StartTimer sorted_list_heap 20 True ''n'' (Some ()) 7 ex_th = Normal (i, th')"
    "th_view th' = [i \<mapsto> TView 27 20 True]"
proof -
  obtain i th' where s: "StartTimer sorted_list_heap 20 True ''n'' (Some ()) 7 ex_th = Normal (i, th')"
    "th_inv sorted_list_heap (\<lambda>lt xs. sorted_wrt (\<lambda>a b. \<not> lt b a) xs) th'" "\<not> th_stopped th'"
    by (rule slh.StartTimer_ok [OF ex_th_new(1-3) ex_th_sane, of True "''n''" "()"])
  have "th_timerMap th' = (th_timerMap ex_th)(i \<mapsto> th_next ex_th) \<and>
      view_of (th_store th' (th_next ex_th)) = TView 27 20 True"
    by (rule StartTimer_store [OF s(1) ex_th_new(2,3)]) (simp add: view_of_def)
  then have "th_view th' = [i \<mapsto> TView 27 20 True]"
    by (auto simp: th_view_def ex_th_new)
  then show thesis using that s by blast
qed


text \<open>C17: No timer is forgotten. In every reachable state of a timer system that is not stopped, for every
  timer: the loop is at work, or it has been woken, or the system timer runs out no later than this
  timer. Timers may be started and stopped at any moment, also by the callbacks.\<close>

theorem no_timer_missed:
  assumes "heap_library H ok" and "timer_reach H (pc, th)" and "\<not> th_stopped th" and "th_view th j = Some u"
  shows "pc = L_Update \<or> pc = L_Select \<and> (th_sysPending th \<or>
    (\<exists>e. th_sysArmed th = Some e \<and> sint e \<le> tv_expire u))"
  using heap_library.loop_ok_reach [OF assms(1,2)] assms(3,4)
  by (cases pc) (auto simp: loop_ok_def awake_def armed_for_def)

lemma ex_th_reach:
  obtains i and th' :: "(string, unit, nat list) timer_heap" where "timer_reach sorted_list_heap (L_Select, th')" "\<not> th_stopped th'"
    "th_view th' = [i \<mapsto> TView 27 20 True]"
proof -
  obtain i th' where th': "\<not> th_stopped th'" "th_view th' = [i \<mapsto> TView 27 20 True]"
    "StartTimer sorted_list_heap 20 True ''n'' (Some ()) 7 ex_th = Normal (i, th')"
    using ex_th_started by metis
  have "timer_step sorted_list_heap (L_Select, ex_th) (L_Select, th')"
    by (rule timer_step.timer_started [OF ex_th_sane ex_th_new(3) th'(3)])
  then have "timer_reach sorted_list_heap (L_Select, th')" unfolding timer_reach_def ex_th_def by blast
  then show thesis using th'(1,2) by (rule that)
qed

theorem no_timer_missed_witness:
  "\<exists>(th :: (string, unit, nat list) timer_heap) i. timer_reach sorted_list_heap (L_Select, th) \<and> th_view th = [i \<mapsto> TView 27 20 True] \<and>
     (th_sysPending th \<or> (\<exists>e. th_sysArmed th = Some e \<and> sint e \<le> 27))"
proof -
  obtain i and th :: "(string, unit, nat list) timer_heap"
    where th: "timer_reach sorted_list_heap (L_Select, th)" "\<not> th_stopped th"
    "th_view th = [i \<mapsto> TView 27 20 True]"
    by (rule ex_th_reach)
  show ?thesis using no_timer_missed [OF slh_library th(1,2), of i "TView 27 20 True"] th by auto
qed

text \<open>C35: What can go wrong in the goroutine of the timer system: it panics exactly in the turns of
  \<open>update\<close> that start after \<open>Stop\<close>, which has set the heap to nil; \<open>update\<close> does not look at
  \<open>stopped\<close>. Such states can be reached: the system timer of a fresh timer system runs out at once.\<close>

theorem update_panics_after_Stop:
  assumes "heap_library H ok" and "timer_reach H (pc, th)" and "sane_clock now"
  shows "is_panic (loop_step H prefer now pc th) = (pc = L_Update \<and> th_stopped th)"
proof (cases pc)
  case L_Update
  have inv: "th_inv H ok th" using heap_library.loop_ok_reach [OF assms(1,2)] by (simp add: loop_ok_def)
  show ?thesis
  proof (cases "th_stopped th")
    case True
    then show ?thesis using L_Update inv by (simp add: th_inv_def update_turn_def with_heap_def)
  next
    case False
    have "\<exists>r th'. update_turn H now th = Normal (r, th')"
    proof (cases "\<exists>j u. th_view th j = Some u \<and> tv_expire u \<le> sint now")
      case True
      then obtain j u where "th_view th j = Some u" "tv_expire u \<le> sint now" by blast
      then show ?thesis using heap_library.update_calls [OF assms(1) inv False assms(3)] by metis
    next
      case later: False
      then have "\<forall>j u. th_view th j = Some u \<longrightarrow> sint now < tv_expire u" by (meson not_le)
      then show ?thesis using heap_library.update_returns [OF assms(1) inv False] by metis
    qed
    then show ?thesis using L_Update False by auto
  qed
qed simp_all

theorem update_panics_after_Stop_witness:
  "\<exists>th. timer_reach sorted_list_heap (L_Update, th) \<and> th_stopped th \<and>
     is_panic (loop_step sorted_list_heap False 7 L_Update (th :: (string, unit, nat list) timer_heap))"
proof -
  let ?t1 = "ex_th\<lparr>th_sysArmed := None, th_sysPending := True\<rparr>"
  let ?t2 = "?t1\<lparr>th_sysPending := False\<rparr>"
  let ?t3 = "(stopSysTimer ?t2)\<lparr>th_timerHeap := None, th_timerMap := Map.empty, th_cStopped := True, th_stopped := True\<rparr>"
  have 1: "timer_step sorted_list_heap (L_Select, ex_th) (L_Select, ?t1)"
    by (rule timer_step.sys_timer [of 7]) (simp add: sys_fires_def ex_th_def NewTimerHeap_def i64_simps)
  have 2: "timer_step sorted_list_heap (L_Select, ?t1) (L_Update, ?t2)"
    by (rule timer_step.loop_turns [OF ex_th_sane(1), of _ False _ _ _ None]) (simp add: ex_th_def NewTimerHeap_def)
  have 3: "timer_step sorted_list_heap (L_Update, ?t2) (L_Update, ?t3)"
    by (rule timer_step.all_stopped) (simp add: TimerHeap_Stop_def ex_th_def NewTimerHeap_def stopSysTimer_def)
  have "(timer_step sorted_list_heap)\<^sup>*\<^sup>* (L_Select, ex_th) (L_Update, ?t3)"
    using 1 2 3 by (meson rtranclp.rtrancl_refl rtranclp.rtrancl_into_rtrancl)
  then have r: "timer_reach sorted_list_heap (L_Update, ?t3)" unfolding timer_reach_def ex_th_def by blast
  show ?thesis using update_panics_after_Stop [OF slh_library r ex_th_sane(1), of False] r by auto
qed

end
