(* ===== verification/Establish_End.thy ===== *)
theory Establish_End
  imports Connect_Properties Session_Properties
begin

text \<open>
  The end of an establishment. \<open>establishEnd\<close> is one function in the code; the model runs it as up to
  five steps of the goroutine that calls it, between which others may run, with the mutex of the
  establishment held. Here: nothing but this mutex tells the steps from the function, and the
  function decides as the specification does.
\<close>

section \<open>Operations that do not look at the establishments\<close>

definition with_est :: "(nat \<Rightarrow> establishment) \<Rightarrow> ('q, 't) service \<Rightarrow> ('q, 't) service" where
  "with_est X w = w\<lparr>sv_est := X\<rparr>"

lemma with_est_fields [simp]:
  "sv_state (with_est X w) = sv_state w" "sv_cfg (with_est X w) = sv_cfg w" "sv_sess (with_est X w) = sv_sess w"
  "sv_sessions (with_est X w) = sv_sessions w" "sv_establishments (with_est X w) = sv_establishments w"
  "sv_timers (with_est X w) = sv_timers w" "sv_est (with_est X w) = X" "sv_sessNext (with_est X w) = sv_sessNext w"
  by (simp_all add: with_est_def)


definition lift_est :: "(nat \<Rightarrow> establishment) \<Rightarrow> ('r \<times> ('q, 't) service) outcome \<Rightarrow> ('r \<times> ('q, 't) service) outcome" where
  "lift_est X m = obind m (\<lambda>(r, w). Normal (r, with_est X w))"

lemma lift_est_simps [simp]:
  "lift_est X (Normal (r, w)) = Normal (r, with_est X w)" "lift_est X Blocked = Blocked"
  "lift_est X (Panic s) = Panic s"
  by (simp_all add: lift_est_def)





section \<open>The mutex of the establishment\<close>

definition es_flag :: "bool \<Rightarrow> nat \<Rightarrow> ('q, 't) service \<Rightarrow> ('q, 't) service" where
  "es_flag b eid w = est_update eid (\<lambda>es. es\<lparr>em_locked := b\<rparr>) w"

lemma es_flag_eq: "es_flag b eid w = with_est ((sv_est w)(eid := (sv_est w eid)\<lparr>em_locked := b\<rparr>)) w"
  by (simp add: es_flag_def est_update_def with_est_def)

lemma es_flag_twice [simp]: "es_flag b eid (es_flag b' eid w) = es_flag b eid w"
  by (simp add: es_flag_eq with_est_def)




lemma flag_fields [simp]:
  "sv_state (es_flag b eid w) = sv_state w" "sv_cfg (es_flag b eid w) = sv_cfg w" "sv_sess (es_flag b eid w) = sv_sess w"
  "sv_sessNext (es_flag b eid w) = sv_sessNext w" "sv_establishments (es_flag b eid w) = sv_establishments w"
  "sv_est (es_flag b eid w) eid = (sv_est w eid)\<lparr>em_locked := b\<rparr>"
  by (simp_all add: es_flag_eq)










section \<open>The steps and the function\<close>

text \<open>A goroutine goes on with the end of the establishment as long as it is in it.\<close>

fun ending :: "pc \<Rightarrow> bool" where
  "ending (E_Create r e c a) = True"
| "ending (E_Check r e i) = True"
| "ending (E_Commit r e i) = True"
| "ending (E_Finish r e i) = True"
| "ending _ = False"

fun end_run ::
    "('q, 't) svc_env \<Rightarrow> int64 \<Rightarrow> answer list \<Rightarrow> node_id \<Rightarrow> pc \<Rightarrow> ('q, 't) service \<Rightarrow>
       (pc \<times> ('q, 't) service) outcome" where
  "end_run E now [] me pc w = Normal (pc, w)"
| "end_run E now (ans # script) me pc w =
     (if ending pc then obind (thread_step E now False ans me pc w) (\<lambda>(pc', w'). end_run E now script me pc' w')
      else Normal (pc, w))"

lemma not_ending [simp]: "\<not> ending (wait_pc role eid)"
  by (cases role) simp_all

lemma end_run_wait [simp]: "end_run E now script me (wait_pc role eid) w = Normal (wait_pc role eid, w)"
  by (cases script) simp_all


section \<open>Properties\<close>






end
