(* ===== verification/Spec2Isabelle.thy ===== *)
theory Spec2Isabelle
  imports System_Properties Session_IO_Properties Session_Pending Handshake_Properties
    Cluster_Properties Timer_Properties Establish_End
begin

text \<open>
  \<^bold>\<open>Verification of gcluster.\<close> Header to be completed with the development.
\<close>

end
